(* ===== verification/Prelude.thy ===== *)
theory Prelude
  imports Main "HOL-Library.Multiset" "HOL-Library.Word"
begin

text \<open>
  Shared vocabulary of the development: Go errors as values, the byte-string helpers of
  Go's \<open>strings\<close> and \<open>bytes\<close> packages that the program calls, 64-bit wrap-around, and the
  generic list lemmas the table operations rest on.
\<close>

section \<open>Collections of facts\<close>

named_theorems frame \<open>what an operation leaves unchanged\<close>
named_theorems preserves \<open>an operation keeps the integrity of the database\<close>

section \<open>Go errors\<close>

text \<open>
  Every error the program returns is a value.  \<open>Wrap m e\<close> is \<open>fmt.Errorf("m: %w", e)\<close>:
  the program compares errors with \<open>err == sql.ErrNoRows\<close>, which is false for a wrapped
  error, so the wrapping is kept.  \<open>ErrDriver\<close> stands for any failure of the database
  driver or of the context a call carries; \<open>ErrConstraint\<close> for a constraint of the schema.
\<close>

datatype go_error =
    ErrNoRows
  | ErrConstraint string
  | ErrDriver
  | ErrScan
  | ErrNoAvailableTokens
  | Wrap string go_error

section \<open>Byte strings\<close>

type_synonym bytes = "string"

text \<open>\<open>strings.HasPrefix\<close>, \<open>strings.TrimPrefix\<close> and \<open>bytes.Contains\<close>.\<close>

fun HasPrefix :: "bytes \<Rightarrow> bytes \<Rightarrow> bool" where
  "HasPrefix s [] = True"
| "HasPrefix [] (p # ps) = False"
| "HasPrefix (c # s) (p # ps) = (c = p \<and> HasPrefix s ps)"

definition TrimPrefix :: "bytes \<Rightarrow> bytes \<Rightarrow> bytes" where
  "TrimPrefix s p = (if HasPrefix s p then drop (length p) s else s)"

fun Contains :: "bytes \<Rightarrow> bytes \<Rightarrow> bool" where
  "Contains [] p = HasPrefix [] p"
| "Contains (c # s) p = (HasPrefix (c # s) p \<or> Contains s p)"

lemma HasPrefix_append [simp]: "HasPrefix (p @ s) p"
  by (induction p) auto

lemma HasPrefix_iff: "HasPrefix s p \<longleftrightarrow> (\<exists>t. s = p @ t)"
  by (induction s p rule: HasPrefix.induct) auto

lemma Contains_iff: "Contains s p \<longleftrightarrow> (\<exists>a b. s = a @ p @ b)"
proof (induction s)
  case Nil
  then show ?case by (auto simp: HasPrefix_iff)
next
  case (Cons c s)
  have "(\<exists>a b. c # s = a @ p @ b) \<longleftrightarrow> (\<exists>b. c # s = p @ b) \<or> (\<exists>a b. s = a @ p @ b)"
    by (metis append_Cons append_Nil list.inject neq_Nil_conv)
  with Cons show ?case by (simp add: HasPrefix_iff)
qed

lemma Contains_middle: "Contains b p \<Longrightarrow> Contains (a @ b @ c) p"
  unfolding Contains_iff by (metis append_assoc)

lemma Contains_skip: "x \<notin> set ds \<Longrightarrow> Contains (ds @ s) (x # p) = Contains s (x # p)"
  by (induction ds) auto

lemma TrimPrefix_append [simp]: "TrimPrefix (p @ s) p = s"
  by (simp add: TrimPrefix_def)

lemma of_char_less_256 [simp]: "(of_char c :: nat) < 256"
  by (metis nat_of_char_less_256)

section \<open>64-bit signed integers\<close>

text \<open>Go's \<open>int64\<close>: the two's complement reading of the low 64 bits.\<close>

definition int64_min :: int where
  "int64_min = - (2 ^ 63)"

definition int64_max :: int where
  "int64_max = 2 ^ 63 - 1"

definition i64 :: "int \<Rightarrow> int" where
  "i64 x = (x + 2 ^ 63) mod 2 ^ 64 - 2 ^ 63"

definition fits64 :: "int \<Rightarrow> bool" where
  "fits64 x \<longleftrightarrow> int64_min \<le> x \<and> x \<le> int64_max"

lemma i64_fits [simp]: "fits64 (i64 x)"
proof -
  have "0 \<le> (x + 2 ^ 63) mod 2 ^ 64" and "(x + 2 ^ 63) mod 2 ^ 64 < (2 ^ 64 :: int)"
    by simp_all
  then show ?thesis by (simp add: fits64_def i64_def int64_min_def int64_max_def)
qed

lemma i64_id: "fits64 x \<Longrightarrow> i64 x = x"
  by (simp add: fits64_def i64_def int64_min_def int64_max_def)

lemma i64_add_left: "i64 (i64 x + y) = i64 (x + y)"
proof -
  have "((x + 2 ^ 63) mod 2 ^ 64 - 2 ^ 63 + y + 2 ^ 63) mod 2 ^ 64
      = ((x + 2 ^ 63) mod 2 ^ 64 + y) mod (2 ^ 64 :: int)"
    by simp
  also have "\<dots> = (x + 2 ^ 63 + y) mod 2 ^ 64"
    by (rule mod_add_left_eq)
  also have "\<dots> = (x + y + 2 ^ 63) mod 2 ^ 64"
    by (simp only: ac_simps)
  finally show ?thesis by (simp add: i64_def)
qed

lemma i64_sint: "i64 x = sint (word_of_int x :: 64 word)"
proof -
  have "(x + 2 ^ 63) mod 2 ^ 64 - 2 ^ 63 = signed_take_bit 63 x"
    by (simp add: signed_take_bit_eq_take_bit_shift take_bit_eq_mod)
  then show ?thesis by (simp add: i64_def sint_word_ariths signed_of_int)
qed

section \<open>Table rows as lists\<close>

text \<open>
  A table is the list of its rows in insertion order.  \<open>update_where\<close> is \<open>UPDATE ... WHERE\<close>,
  \<open>count_where\<close> the number of rows a statement affects, and \<open>DELETE ... WHERE p\<close> is
  \<open>filter (Not \<circ> p)\<close>.
\<close>

definition update_where :: "('a \<Rightarrow> bool) \<Rightarrow> ('a \<Rightarrow> 'a) \<Rightarrow> 'a list \<Rightarrow> 'a list" where
  "update_where p f rows = map (\<lambda>r. if p r then f r else r) rows"

definition count_where :: "('a \<Rightarrow> bool) \<Rightarrow> 'a list \<Rightarrow> nat" where
  "count_where p rows = length (filter p rows)"

definition find_row :: "('a \<Rightarrow> bool) \<Rightarrow> 'a list \<Rightarrow> 'a option" where
  "find_row p rows = (case filter p rows of [] \<Rightarrow> None | r # _ \<Rightarrow> Some r)"

lemma count_where_zero: "count_where p rows = 0 \<longleftrightarrow> (\<forall>r\<in>set rows. \<not> p r)"
  by (auto simp: count_where_def filter_empty_conv)

lemma length_update_where [simp]: "length (update_where p f rows) = length rows"
  by (simp add: update_where_def)

lemma set_update_where: "set (update_where p f rows) = (\<lambda>r. if p r then f r else r) ` set rows"
  by (simp add: update_where_def)

lemma map_update_where:
  "(\<And>r. p r \<Longrightarrow> g (f r) = g r) \<Longrightarrow> map g (update_where p f rows) = map g rows"
  by (auto simp: update_where_def)

lemma update_where_map:
  "(\<And>r. p (g r) = p r) \<Longrightarrow> (\<And>r. f (g r) = g (f r)) \<Longrightarrow>
   update_where p f (map g rows) = map g (update_where p f rows)"
  by (simp add: update_where_def)

lemma count_where_map: "count_where p (map g rows) = count_where (\<lambda>r. p (g r)) rows"
  by (induction rows) (simp_all add: count_where_def)

lemma update_where_none: "count_where p rows = 0 \<Longrightarrow> update_where p f rows = rows"
  by (auto simp: update_where_def count_where_zero intro: map_idI)

lemma find_row_code [code, simp]:
  "find_row p [] = None"
  "find_row p (r # rows) = (if p r then Some r else find_row p rows)"
  by (simp_all add: find_row_def)

lemma find_row_None: "find_row p rows = None \<longleftrightarrow> (\<forall>r\<in>set rows. \<not> p r)"
  by (induction rows) auto

lemma find_row_SomeD: "find_row p rows = Some r \<Longrightarrow> r \<in> set rows \<and> p r"
  by (induction rows) (auto split: if_splits)

lemma find_row_append:
  "find_row p (xs @ ys) = (case find_row p xs of None \<Rightarrow> find_row p ys | Some r \<Rightarrow> Some r)"
  by (induction xs) auto

lemma find_row_update_where:
  "(\<And>r. q r \<Longrightarrow> p (f r) = p r) \<Longrightarrow>
   find_row p (update_where q f rows) = map_option (\<lambda>r. if q r then f r else r) (find_row p rows)"
  by (induction rows) (auto simp: update_where_def)

text \<open>An update that keeps the key, seen through a lookup by key.\<close>

lemma find_row_update_key:
  assumes "\<And>r. key (f r) = key r"
  shows "find_row (\<lambda>r. key r = j) (update_where (\<lambda>r. key r = i) f rows)
    = (if j = i then map_option f (find_row (\<lambda>r. key r = j) rows) else find_row (\<lambda>r. key r = j) rows)"
  by (induction rows) (auto simp: update_where_def assms)

lemma key_image_update:
  assumes "\<And>r. key (f r) = key r"
  shows "key ` set (update_where p f rows) = key ` set rows"
  using map_update_where [of p key f rows] assms by (metis list.set_map)

lemma find_row_filter:
  "(\<And>r. p r \<Longrightarrow> q r) \<Longrightarrow> find_row p (filter q rows) = find_row p rows"
  by (induction rows) auto

lemma find_row_unique:
  assumes "distinct (map key rows)" "r \<in> set rows"
  shows "find_row (\<lambda>x. key x = key r) rows = Some r"
  using assms by (induction rows) (auto simp: image_iff)

lemma find_row_eq_iff:
  assumes "distinct (map key rows)"
  shows "find_row (\<lambda>x. key x = k) rows = Some r \<longleftrightarrow> r \<in> set rows \<and> key r = k"
  using assms by (auto dest: find_row_SomeD simp: find_row_unique)

lemma distinct_map_filter_key: "distinct (map key rows) \<Longrightarrow> distinct (map key (filter p rows))"
  by (simp add: distinct_map_filter)

lemma key_image_filter [simp]: "key ` {x \<in> A. key x \<noteq> i} = key ` A - {i}"
  by auto

lemma list_ex_key: "list_ex (\<lambda>x. key x = k) xs \<longleftrightarrow> k \<in> key ` set xs"
  by (induction xs) auto

section \<open>ORDER BY\<close>

text \<open>
  \<open>ORDER BY\<close> with a comparison \<open>le\<close> on the sort key: a stable insertion sort.  SQL leaves the
  order of rows with equal keys open; the model keeps their table order.
\<close>

fun insert_by :: "('k \<Rightarrow> 'k \<Rightarrow> bool) \<Rightarrow> ('a \<Rightarrow> 'k) \<Rightarrow> 'a \<Rightarrow> 'a list \<Rightarrow> 'a list" where
  "insert_by le key x [] = [x]"
| "insert_by le key x (y # ys) =
     (if le (key x) (key y) then x # y # ys else y # insert_by le key x ys)"

definition order_by :: "('k \<Rightarrow> 'k \<Rightarrow> bool) \<Rightarrow> ('a \<Rightarrow> 'k) \<Rightarrow> 'a list \<Rightarrow> 'a list" where
  "order_by le key rows = foldr (insert_by le key) rows []"

lemma insert_by_map: "insert_by le key (g x) (map g ys) = map g (insert_by le (\<lambda>x. key (g x)) x ys)"
  by (induction ys) auto

lemma order_by_map: "order_by le key (map g xs) = map g (order_by le (\<lambda>x. key (g x)) xs)"
  by (induction xs) (auto simp: order_by_def insert_by_map)

lemma mset_insert_by [simp]: "mset (insert_by le key x ys) = add_mset x (mset ys)"
  by (induction ys) auto

lemma mset_order_by [simp]: "mset (order_by le key rows) = mset rows"
  by (induction rows) (auto simp: order_by_def)

lemma set_order_by [simp]: "set (order_by le key rows) = set rows"
  by (rule mset_eq_setD) simp

lemma length_order_by [simp]: "length (order_by le key rows) = length rows"
  by (rule mset_eq_length) simp

lemma distinct_order_by: "distinct (map key' (order_by le key rows)) = distinct (map key' rows)"
proof -
  have "mset (map key' (order_by le key rows)) = mset (map key' rows)"
    by (simp only: mset_map mset_order_by)
  then show ?thesis by (rule mset_eq_imp_distinct_iff)
qed

lemma set_insert_by [simp]: "set (insert_by le key x ys) = insert x (set ys)"
  by (induction ys) auto

lemma sorted_insert_by:
  assumes total: "\<And>a b. le a b \<or> le b a" and trans: "\<And>a b c. le a b \<Longrightarrow> le b c \<Longrightarrow> le a c"
    and "sorted_wrt (\<lambda>a b. le (key a) (key b)) ys"
  shows "sorted_wrt (\<lambda>a b. le (key a) (key b)) (insert_by le key x ys)"
  using assms(3)
proof (induction ys)
  case Nil
  then show ?case by simp
next
  case (Cons y ys)
  show ?case
  proof (cases "le (key x) (key y)")
    case True
    with Cons.prems show ?thesis by (auto intro: trans)
  next
    case False
    with total have "le (key y) (key x)" by blast
    with False Cons show ?thesis by auto
  qed
qed

lemma sorted_order_by:
  assumes total: "\<And>a b. le a b \<or> le b a" and trans: "\<And>a b c. le a b \<Longrightarrow> le b c \<Longrightarrow> le a c"
  shows "sorted_wrt (\<lambda>a b. le (key a) (key b)) (order_by le key rows)"
proof (induction rows)
  case Nil
  then show ?case by (simp add: order_by_def)
next
  case (Cons r rows)
  have "sorted_wrt (\<lambda>a b. le (key a) (key b)) (insert_by le key r (order_by le key rows))"
    using total trans Cons.IH by (rule sorted_insert_by)
  then show ?case by (simp add: order_by_def)
qed

end
