(* ===== verification/Sql.thy ===== *)
theory Sql
  imports Prelude
begin

text \<open>
  The database substrate the store is written on: Go times and the texts SQLite keeps of
  them, the driver as a parameter, the per-call environment (context, clock, failures), and
  the \<open>database/sql\<close> idioms shared by every store method.
\<close>

section \<open>Times\<close>

text \<open>
  A Go \<open>time.Time\<close> is an instant (nanoseconds since the Unix epoch) with the offset of its
  location (nanoseconds east of UTC).  A DATETIME column holds either the text the driver
  renders for a bound \<open>time.Time\<close> or the text of SQLite's \<open>datetime('now')\<close>, which has whole
  seconds; \<open>sqltime\<close> records which, and \<open>txt_le\<close> below is SQLite's comparison of the texts.
\<close>

datatype gotime = GoTime (instant: int) (zone: int)

datatype sqltime = Bound gotime | DtNow int

definition nanosecond :: int where
  "nanosecond = 1"

definition second :: int where
  "second = 1000000000"

definition UTC :: "int \<Rightarrow> gotime" where
  "UTC t = GoTime t 0"

text \<open>What a clock on the wall of the location shows.\<close>

definition wall :: "gotime \<Rightarrow> int" where
  "wall g = instant g + zone g"

lemma wall_UTC [simp]: "wall (UTC t) = t"
  by (simp add: wall_def UTC_def)

definition zero_time :: gotime where
  "zero_time = GoTime (- 62135596800 * second) 0"

section \<open>The driver\<close>

text \<open>
  \<open>modernc.org/sqlite\<close> is not part of the repository.  What the store relies on is a
  parameter: \<open>txt_le\<close> is \<open><=\<close> on the texts of DATETIME columns, \<open>rd_time\<close> is \<open>Scan\<close> of such a
  column into a \<open>time.Time\<close> (\<open>None\<close>: the text does not parse), \<open>int_add\<close> is \<open>+\<close> on INTEGER
  columns and \<open>int_sum\<close> is \<open>COALESCE(SUM(c), 0)\<close> (\<open>None\<close>: the statement fails with an integer
  overflow).
\<close>

record driver =
  txt_le :: "sqltime \<Rightarrow> sqltime \<Rightarrow> bool"
  rd_time :: "sqltime \<Rightarrow> gotime option"
  int_add :: "int \<Rightarrow> int \<Rightarrow> int"
  int_sum :: "int list \<Rightarrow> int option"

definition txt_lt :: "driver \<Rightarrow> sqltime \<Rightarrow> sqltime \<Rightarrow> bool" where
  "txt_lt D a b \<longleftrightarrow> \<not> txt_le D b a"

text \<open>
  Documented behaviour.  The text of a UTC time begins with its date and time of day to the
  second, continues with the fraction and the zone, and compares bytewise; this is the order
  of the instants while years have four digits (\<open>era\<close>).  \<open>datetime('now')\<close> is the same text
  cut after the second, hence strictly below every bound time of the same second.
\<close>

definition era :: "int \<Rightarrow> bool" where
  "era t \<longleftrightarrow> - 62135596800 * second \<le> t \<and> t < 253402300800 * second"

definition sec :: "int \<Rightarrow> int" where
  "sec t = t div second"

definition driver_total :: "driver \<Rightarrow> bool" where
  "driver_total D \<longleftrightarrow>
     (\<forall>a b. txt_le D a b \<or> txt_le D b a) \<and>
     (\<forall>a b c. txt_le D a b \<longrightarrow> txt_le D b c \<longrightarrow> txt_le D a c)"

definition driver_utc :: "driver \<Rightarrow> bool" where
  "driver_utc D \<longleftrightarrow>
     (\<forall>t u. era t \<longrightarrow> era u \<longrightarrow>
        (txt_le D (Bound (UTC t)) (Bound (UTC u)) \<longleftrightarrow> t \<le> u) \<and>
        (txt_le D (Bound (UTC t)) (DtNow u) \<longleftrightarrow> sec t < sec u) \<and>
        (txt_le D (DtNow t) (Bound (UTC u)) \<longleftrightarrow> sec t \<le> sec u) \<and>
        (txt_le D (DtNow t) (DtNow u) \<longleftrightarrow> sec t \<le> sec u))"

text \<open>The text of a bound time shows the wall clock of its location, whatever the zone is.\<close>

definition driver_wall :: "driver \<Rightarrow> bool" where
  "driver_wall D \<longleftrightarrow>
     (\<forall>g t. era (wall g) \<longrightarrow> era t \<longrightarrow> (txt_le D (Bound g) (DtNow t) \<longleftrightarrow> sec (wall g) < sec t))"

definition driver_reads :: "driver \<Rightarrow> bool" where
  "driver_reads D \<longleftrightarrow>
     (\<forall>g. era (instant g) \<longrightarrow>
        (\<exists>g'. rd_time D (Bound g) = Some g' \<and> instant g' = instant g)) \<and>
     (\<forall>t. era t \<longrightarrow> rd_time D (Bound (UTC t)) = Some (UTC t)) \<and>
     (\<forall>t. era t \<longrightarrow> rd_time D (DtNow t) = Some (UTC (sec t * second)))"

definition driver_adds :: "driver \<Rightarrow> bool" where
  "driver_adds D \<longleftrightarrow>
     (\<forall>a b. fits64 a \<longrightarrow> fits64 b \<longrightarrow> fits64 (a + b) \<longrightarrow> int_add D a b = a + b) \<and>
     (\<forall>xs. (\<forall>n\<le>length xs. fits64 (sum_list (take n xs))) \<longrightarrow> int_sum D xs = Some (sum_list xs))"

lemmas driver_laws = driver_total_def driver_utc_def driver_wall_def driver_reads_def driver_adds_def

text \<open>
  A driver that satisfies all of them, by a key that orders the texts: the wall-clock second,
  then 0 for a \<open>datetime('now')\<close> text and 1 plus the fraction for a bound time.
\<close>

fun text_key :: "sqltime \<Rightarrow> int \<times> int" where
  "text_key (Bound g) = ((instant g + zone g) div second, 1 + (instant g + zone g) mod second)"
| "text_key (DtNow t) = (t div second, 0)"

definition key_le :: "int \<times> int \<Rightarrow> int \<times> int \<Rightarrow> bool" where
  "key_le a b \<longleftrightarrow> fst a < fst b \<or> (fst a = fst b \<and> snd a \<le> snd b)"

fun text_read :: "sqltime \<Rightarrow> gotime option" where
  "text_read (Bound g) = Some g"
| "text_read (DtNow t) = Some (UTC (t div second * second))"

definition text_driver :: driver where
  "text_driver =
     \<lparr>txt_le = (\<lambda>a b. key_le (text_key a) (text_key b)), rd_time = text_read,
      int_add = (+), int_sum = (\<lambda>xs. Some (sum_list xs))\<rparr>"

lemma text_driver_sel [simp]:
  "txt_le text_driver a b = key_le (text_key a) (text_key b)"
  "rd_time text_driver = text_read" "int_add text_driver = (+)"
  "int_sum text_driver = (\<lambda>xs. Some (sum_list xs))"
  by (simp_all add: text_driver_def)

lemma text_driver_total [simp]: "driver_total text_driver"
  by (auto simp: driver_total_def key_le_def)

lemma key_le_instants:
  "key_le (t div second, 1 + t mod second) (u div second, 1 + u mod second) \<longleftrightarrow> t \<le> u"
proof -
  have "t = t div second * second + t mod second" "u = u div second * second + u mod second"
    "0 \<le> t mod second" "t mod second < second" "0 \<le> u mod second" "u mod second < second"
    by (simp_all add: second_def)
  then show ?thesis
    unfolding key_le_def second_def fst_conv snd_conv by linarith
qed

lemma text_driver_utc [simp]: "driver_utc text_driver"
proof -
  have mods: "0 \<le> t mod second" for t by (simp add: second_def)
  have "key_le (t div second, 1 + t mod second) (u div second, 0) \<longleftrightarrow> t div second < u div second"
    "key_le (t div second, 0) (u div second, 1 + u mod second) \<longleftrightarrow> t div second \<le> u div second"
    "key_le (t div second, 0) (u div second, 0) \<longleftrightarrow> t div second \<le> u div second" for t u
    using mods [of t] mods [of u] by (auto simp: key_le_def)
  then show ?thesis by (simp add: driver_utc_def UTC_def sec_def key_le_instants)
qed

lemma text_driver_wall [simp]: "driver_wall text_driver"
proof -
  have "\<not> 1 + (instant g + zone g) mod second \<le> 0" for g
    using pos_mod_sign [of second "instant g + zone g"] by (simp add: second_def)
  then show ?thesis by (simp add: driver_wall_def key_le_def sec_def wall_def)
qed

lemma text_driver_reads [simp]: "driver_reads text_driver"
  by (simp add: driver_reads_def sec_def)

lemma text_driver_adds [simp]: "driver_adds text_driver"
  by (simp add: driver_adds_def)

section \<open>The environment of a call\<close>

text \<open>
  \<open>ctx_done\<close>: the call's context is already cancelled, so \<open>database/sql\<close> refuses to start the
  statement or transaction.  \<open>drv_fault k\<close>: the \<open>k\<close>-th driver call of the operation (numbered
  in the order the code makes them) fails.  \<open>clock\<close>: the instant the operation runs at.
\<close>

record callenv =
  ctx_done :: bool
  drv_fault :: "nat \<Rightarrow> bool"
  clock :: int

definition fails :: "callenv \<Rightarrow> nat \<Rightarrow> bool" where
  "fails c k \<longleftrightarrow> ctx_done c \<or> drv_fault c k"

definition call_at :: "int \<Rightarrow> callenv" where
  "call_at t = \<lparr>ctx_done = False, drv_fault = (\<lambda>_. False), clock = t\<rparr>"

definition no_fault :: "callenv \<Rightarrow> bool" where
  "no_fault c \<longleftrightarrow> (\<forall>k. \<not> fails c k)"

lemma no_faultD [simp]: "no_fault c \<Longrightarrow> \<not> fails c k"
  by (simp add: no_fault_def)

lemma call_at_sel [simp]: "no_fault (call_at t)" "clock (call_at t) = t" "\<not> fails (call_at t) k"
  by (simp_all add: call_at_def no_fault_def fails_def)

lemma ctx_done_fails [simp]: "ctx_done c \<Longrightarrow> fails c k"
  by (simp add: fails_def)

section \<open>database/sql idioms\<close>

text \<open>\<open>QueryRowContext\<close> and \<open>Scan\<close>: at most one row, \<open>sql.ErrNoRows\<close> when there is none.\<close>

definition query_row ::
  "callenv \<Rightarrow> ('r \<Rightarrow> go_error + 's) \<Rightarrow> ('r \<Rightarrow> bool) \<Rightarrow> 'r list \<Rightarrow> go_error + 's" where
  "query_row c scan p rows =
     (if fails c 0 then Inl ErrDriver
      else case find_row p rows of None \<Rightarrow> Inl ErrNoRows | Some r \<Rightarrow> scan r)"

text \<open>
  The \<open>for rows.Next()\<close> loop: scan row by row, the first scan error is returned, and at the end
  \<open>rows.Err()\<close> reports an iteration that the driver broke off.
\<close>

fun scan_rows :: "('r \<Rightarrow> go_error + 's) \<Rightarrow> 'r list \<Rightarrow> go_error + 's list" where
  "scan_rows scan [] = Inr []"
| "scan_rows scan (r # rs) =
     (case scan r of
        Inl e \<Rightarrow> Inl e
      | Inr t \<Rightarrow> (case scan_rows scan rs of Inl e \<Rightarrow> Inl e | Inr ts \<Rightarrow> Inr (t # ts)))"

definition query_rows ::
  "callenv \<Rightarrow> string \<Rightarrow> ('r \<Rightarrow> go_error + 's) \<Rightarrow> 'r list \<Rightarrow> go_error + 's list" where
  "query_rows c msg scan rows =
     (if fails c 0 then Inl (Wrap msg ErrDriver)
      else case scan_rows scan rows of
             Inl e \<Rightarrow> Inl e
           | Inr ts \<Rightarrow> if fails c 1 then Inl ErrDriver else Inr ts)"

text \<open>
  The tail of every checked \<open>UPDATE\<close>: \<open>RowsAffected\<close> may fail, and zero affected rows are
  reported as the bare \<open>sql.ErrNoRows\<close>.
\<close>

definition affected_err :: "bool \<Rightarrow> string \<Rightarrow> nat \<Rightarrow> go_error option" where
  "affected_err failed msg n =
     (if failed then Some (Wrap (msg @ '': rows affected'') ErrDriver)
      else if n = 0 then Some ErrNoRows else None)"

text \<open>
  \<open>withTx\<close>: begin, run the body on the open transaction, roll back on its error, else commit.
  The body returns its error and the state of the transaction; \<open>k\<close> numbers the commit among the
  driver calls of the operation.
\<close>

definition withTx ::
  "callenv \<Rightarrow> nat \<Rightarrow> ('s \<Rightarrow> go_error option \<times> 's) \<Rightarrow> 's \<Rightarrow> go_error option \<times> 's" where
  "withTx c k body s =
     (if fails c 0 then (Some ErrDriver, s)
      else case body s of
             (Some e, _) \<Rightarrow> (Some e, s)
           | (None, s') \<Rightarrow> if fails c k then (Some ErrDriver, s) else (None, s'))"

lemma scan_rows_InrD:
  "scan_rows scan rs = Inr ts \<Longrightarrow> list_all2 (\<lambda>r t. scan r = Inr t) rs ts"
  by (induction rs arbitrary: ts) (auto simp: list_all2_Cons1 split: sum.splits)

lemma scan_rows_map: "(\<And>r. r \<in> set rs \<Longrightarrow> scan r = Inr (f r)) \<Longrightarrow> scan_rows scan rs = Inr (map f rs)"
  by (induction rs) auto

lemma scan_rows_set: "scan_rows scan rs = Inr ts \<Longrightarrow> t \<in> set ts \<Longrightarrow> \<exists>r\<in>set rs. scan r = Inr t"
  by (induction rs arbitrary: ts) (auto split: sum.splits)

lemma query_rows_InrD:
  "query_rows c msg scan rows = Inr ts \<Longrightarrow> scan_rows scan rows = Inr ts"
  by (auto simp: query_rows_def split: if_splits sum.splits)

lemma query_row_InrD:
  "query_row c scan p rows = Inr t \<Longrightarrow> \<exists>r. find_row p rows = Some r \<and> scan r = Inr t"
  by (auto simp: query_row_def split: if_splits option.splits)

lemma withTx_cases:
  "snd (withTx c k body s) = s \<or>
   (fst (withTx c k body s) = None \<and> body s = (None, snd (withTx c k body s)))"
  by (auto simp: withTx_def split: option.splits prod.splits)

lemma withTx_error [frame]: "fst (withTx c k body s) = Some e \<Longrightarrow> snd (withTx c k body s) = s"
  by (auto simp: withTx_def split: option.splits prod.splits if_splits)

lemma withTx_ok: "withTx c k body s = (None, s') \<Longrightarrow> body s = (None, s')"
  by (auto simp: withTx_def split: option.splits prod.splits if_splits)

end
