(* ===== verification/Store_State.thy ===== *)
theory Store_State
  imports Sql
begin

text \<open>
  The state behind \<open>store.Store\<close> (internal/store): the four tables of the schema, the Go
  structs their rows are scanned into, the integrity the schema promises, and the pieces of
  store.go that the other files share (\<open>boolToInt\<close>, \<open>cascadeDelete\<close> inside \<open>withTx\<close>).
  The store's connections are one database here: there is a single writer connection, and in
  WAL mode a read sees the last committed state.
\<close>

section \<open>Rows and structs\<close>

record real_row =
  rr_id :: string
  rr_name :: string
  rr_access :: string
  rr_refresh :: string
  rr_active :: int
  rr_failures :: int
  rr_last_failure :: "sqltime option"
  rr_last_used :: "sqltime option"
  rr_in :: int
  rr_out :: int
  rr_created :: sqltime
  rr_updated :: sqltime

record gate_row =
  gr_id :: string
  gr_token :: string
  gr_name :: string
  gr_active :: int
  gr_in :: int
  gr_out :: int
  gr_created :: sqltime
  gr_updated :: sqltime

record usage_row =
  ur_id :: int
  ur_gate :: string
  ur_real :: string
  ur_model :: string
  ur_in :: int
  ur_out :: int
  ur_cache_creation :: int
  ur_cache_read :: int
  ur_path :: string
  ur_status :: int
  ur_created :: sqltime

record sticky_row =
  sr_gate :: string
  sr_real :: string
  sr_expires :: sqltime

record db =
  real_tokens :: "real_row list"
  gate_tokens :: "gate_row list"
  usage_logs :: "usage_row list"
  usage_seq :: int
  sticky_sessions :: "sticky_row list"

definition empty_db :: db where
  "empty_db = \<lparr>real_tokens = [], gate_tokens = [], usage_logs = [], usage_seq = 0,
     sticky_sessions = []\<rparr>"

record RealToken =
  rt_ID :: string
  rt_Name :: string
  rt_AccessToken :: string
  rt_RefreshToken :: string
  rt_IsActive :: bool
  rt_FailureCount :: int
  rt_LastFailureAt :: "gotime option"
  rt_LastUsedAt :: "gotime option"
  rt_TotalInputTokens :: int
  rt_TotalOutputTokens :: int
  rt_CreatedAt :: gotime
  rt_UpdatedAt :: gotime

record GateToken =
  gt_ID :: string
  gt_Token :: string
  gt_Name :: string
  gt_IsActive :: bool
  gt_TotalInputTokens :: int
  gt_TotalOutputTokens :: int
  gt_CreatedAt :: gotime
  gt_UpdatedAt :: gotime

record UsageLog =
  ul_ID :: int
  ul_GateTokenID :: string
  ul_RealTokenID :: string
  ul_Model :: string
  ul_InputTokens :: int
  ul_OutputTokens :: int
  ul_CacheCreationInputTokens :: int
  ul_CacheReadInputTokens :: int
  ul_RequestPath :: string
  ul_StatusCode :: int
  ul_CreatedAt :: gotime

record UsageStats =
  us_TotalInputTokens :: int
  us_TotalOutputTokens :: int
  us_CacheCreationInputTokens :: int
  us_CacheReadInputTokens :: int
  us_RequestCount :: int

record StickySession =
  ss_GateTokenID :: string
  ss_RealTokenID :: string
  ss_ExpiresAt :: gotime

section \<open>Integrity\<close>

text \<open>
  What the schema enforces: primary keys, the unique indexes on \<open>gate_tokens.token\<close> and
  \<open>real_tokens.access_token\<close>, the foreign keys of \<open>usage_logs\<close> and \<open>sticky_sessions\<close> (the
  connections are opened with \<open>foreign_keys(on)\<close>) and the AUTOINCREMENT key of \<open>usage_logs\<close>.
\<close>

definition real_ids :: "db \<Rightarrow> string set" where
  "real_ids s = rr_id ` set (real_tokens s)"

definition gate_ids :: "db \<Rightarrow> string set" where
  "gate_ids s = gr_id ` set (gate_tokens s)"

definition keys_ok :: "db \<Rightarrow> bool" where
  "keys_ok s \<longleftrightarrow>
     distinct (map rr_id (real_tokens s)) \<and> distinct (map rr_access (real_tokens s)) \<and>
     distinct (map gr_id (gate_tokens s)) \<and> distinct (map gr_token (gate_tokens s)) \<and>
     distinct (map sr_gate (sticky_sessions s)) \<and> distinct (map ur_id (usage_logs s)) \<and>
     (\<forall>l\<in>set (usage_logs s). ur_id l \<le> usage_seq s)"

definition refs_ok :: "db \<Rightarrow> bool" where
  "refs_ok s \<longleftrightarrow>
     (\<forall>l\<in>set (usage_logs s). ur_gate l \<in> gate_ids s \<and> ur_real l \<in> real_ids s) \<and>
     (\<forall>x\<in>set (sticky_sessions s). sr_gate x \<in> gate_ids s \<and> sr_real x \<in> real_ids s)"

definition flags_ok :: "db \<Rightarrow> bool" where
  "flags_ok s \<longleftrightarrow>
     (\<forall>r\<in>set (real_tokens s). rr_active r \<in> {0, 1} \<and> 0 \<le> rr_failures r) \<and>
     (\<forall>g\<in>set (gate_tokens s). gr_active g \<in> {0, 1})"

definition db_ok :: "db \<Rightarrow> bool" where
  "db_ok s \<longleftrightarrow> keys_ok s \<and> refs_ok s \<and> flags_ok s"

lemmas db_ok_defs = db_ok_def keys_ok_def refs_ok_def flags_ok_def real_ids_def gate_ids_def

lemma db_ok_empty [simp]: "db_ok empty_db"
  by (simp add: db_ok_defs empty_db_def)

definition find_real :: "db \<Rightarrow> string \<Rightarrow> real_row option" where
  "find_real s i = find_row (\<lambda>r. rr_id r = i) (real_tokens s)"

definition find_gate :: "db \<Rightarrow> string \<Rightarrow> gate_row option" where
  "find_gate s i = find_row (\<lambda>g. gr_id g = i) (gate_tokens s)"

lemma find_real_None: "find_real s i = None \<longleftrightarrow> i \<notin> real_ids s"
  by (auto simp: find_real_def real_ids_def find_row_None)

lemma find_gate_None: "find_gate s i = None \<longleftrightarrow> i \<notin> gate_ids s"
  by (auto simp: find_gate_def gate_ids_def find_row_None)

lemma find_real_iff:
  "keys_ok s \<Longrightarrow> find_real s i = Some r \<longleftrightarrow> r \<in> set (real_tokens s) \<and> rr_id r = i"
  by (simp add: find_real_def keys_ok_def find_row_eq_iff)

lemma find_gate_iff:
  "keys_ok s \<Longrightarrow> find_gate s i = Some r \<longleftrightarrow> r \<in> set (gate_tokens s) \<and> gr_id r = i"
  by (simp add: find_gate_def keys_ok_def find_row_eq_iff)

section \<open>store.go\<close>

definition boolToInt :: "bool \<Rightarrow> int" where
  "boolToInt b = (if b then 1 else 0)"

text \<open>
  \<open>cascadeDelete(ctx, tx, column, id, table)\<close> is called with the pairs
  \<open>("real_token_id", "real_tokens")\<close> and \<open>("gate_token_id", "gate_tokens")\<close>.
\<close>

datatype token_table = RealTokens | GateTokens

fun table_name :: "token_table \<Rightarrow> string" where
  "table_name RealTokens = ''real_tokens''"
| "table_name GateTokens = ''gate_tokens''"

definition delete_sticky :: "token_table \<Rightarrow> string \<Rightarrow> db \<Rightarrow> db" where
  "delete_sticky tab i s =
     s\<lparr>sticky_sessions := filter (\<lambda>x. (case tab of RealTokens \<Rightarrow> sr_real x | GateTokens \<Rightarrow> sr_gate x) \<noteq> i)
        (sticky_sessions s)\<rparr>"

definition delete_usage :: "token_table \<Rightarrow> string \<Rightarrow> db \<Rightarrow> db" where
  "delete_usage tab i s =
     s\<lparr>usage_logs := filter (\<lambda>l. (case tab of RealTokens \<Rightarrow> ur_real l | GateTokens \<Rightarrow> ur_gate l) \<noteq> i)
        (usage_logs s)\<rparr>"

text \<open>
  \<open>DELETE FROM <table> WHERE id = ?\<close>.  The foreign keys have no \<open>ON DELETE\<close> action, so the
  statement is refused while a row of \<open>usage_logs\<close> or \<open>sticky_sessions\<close> refers to the token.
\<close>

definition referenced :: "token_table \<Rightarrow> string \<Rightarrow> db \<Rightarrow> bool" where
  "referenced tab i s =
     (case tab of
        RealTokens \<Rightarrow> list_ex (\<lambda>l. ur_real l = i) (usage_logs s) \<or> list_ex (\<lambda>x. sr_real x = i) (sticky_sessions s)
      | GateTokens \<Rightarrow> list_ex (\<lambda>l. ur_gate l = i) (usage_logs s) \<or> list_ex (\<lambda>x. sr_gate x = i) (sticky_sessions s))"

definition count_token :: "token_table \<Rightarrow> string \<Rightarrow> db \<Rightarrow> nat" where
  "count_token tab i s =
     (case tab of
        RealTokens \<Rightarrow> count_where (\<lambda>r. rr_id r = i) (real_tokens s)
      | GateTokens \<Rightarrow> count_where (\<lambda>g. gr_id g = i) (gate_tokens s))"

definition delete_token :: "token_table \<Rightarrow> string \<Rightarrow> db \<Rightarrow> db" where
  "delete_token tab i s =
     (case tab of
        RealTokens \<Rightarrow> s\<lparr>real_tokens := filter (\<lambda>r. rr_id r \<noteq> i) (real_tokens s)\<rparr>
      | GateTokens \<Rightarrow> s\<lparr>gate_tokens := filter (\<lambda>g. gr_id g \<noteq> i) (gate_tokens s)\<rparr>)"

text \<open>
  The driver calls of the transaction are numbered: 0 begin, 1 and 2 the deletes of the
  dependent rows, 3 the delete of the token, 4 \<open>RowsAffected\<close>, 5 commit.
\<close>

definition cascadeDelete ::
  "callenv \<Rightarrow> token_table \<Rightarrow> string \<Rightarrow> db \<Rightarrow> go_error option \<times> db" where
  "cascadeDelete c tab i s =
     (if fails c 1 then (Some (Wrap (''delete '' @ table_name tab @ '': delete sticky sessions'') ErrDriver), s)
      else let s1 = delete_sticky tab i s in
      if fails c 2 then (Some (Wrap (''delete '' @ table_name tab @ '': delete usage logs'') ErrDriver), s1)
      else let s2 = delete_usage tab i s1 in
      if fails c 3 then (Some (Wrap (''delete '' @ table_name tab) ErrDriver), s2)
      else if count_token tab i s2 \<noteq> 0 \<and> referenced tab i s2
      then (Some (Wrap (''delete '' @ table_name tab) (ErrConstraint ''FOREIGN KEY'')), s2)
      else let s3 = delete_token tab i s2 in
      if fails c 4 then (Some (Wrap (''delete '' @ table_name tab @ '': rows affected'') ErrDriver), s3)
      else if count_token tab i s2 = 0 then (Some ErrNoRows, s3)
      else (None, s3))"

lemma count_token_ids:
  "count_token RealTokens i s = 0 \<longleftrightarrow> i \<notin> real_ids s"
  "count_token GateTokens i s = 0 \<longleftrightarrow> i \<notin> gate_ids s"
  by (auto simp: count_token_def count_where_zero real_ids_def gate_ids_def)

lemma count_token_frame [frame]:
  "count_token tab i (delete_sticky t j s) = count_token tab i s"
  "count_token tab i (delete_usage t j s) = count_token tab i s"
  by (cases tab; simp add: count_token_def delete_sticky_def delete_usage_def)+

lemma not_referenced_after_deletes: "\<not> referenced tab i (delete_usage tab i (delete_sticky tab i s))"
  by (cases tab) (auto simp: referenced_def delete_usage_def delete_sticky_def list_ex_iff)

text \<open>The cascade removes the dependants first, so the foreign keys can never refuse the delete.\<close>

lemma cascadeDelete_no_constraint:
  "fst (cascadeDelete c tab i s) \<noteq> Some (Wrap m (ErrConstraint k))"
  by (simp add: cascadeDelete_def Let_def not_referenced_after_deletes)

lemma cascadeDelete_ok:
  "cascadeDelete c tab i s = (None, s') \<Longrightarrow>
     count_token tab i s \<noteq> 0 \<and> s' = delete_token tab i (delete_usage tab i (delete_sticky tab i s))"
  by (auto simp: cascadeDelete_def Let_def frame split: if_splits)

lemma cascadeDelete_no_fault:
  "no_fault c \<Longrightarrow> cascadeDelete c tab i s =
     (if count_token tab i s = 0 then Some ErrNoRows else None,
      delete_token tab i (delete_usage tab i (delete_sticky tab i s)))"
  by (simp add: cascadeDelete_def Let_def frame not_referenced_after_deletes)

lemma db_ok_delete_sticky [preserves]: "db_ok s \<Longrightarrow> db_ok (delete_sticky tab i s)"
  by (auto simp: db_ok_defs delete_sticky_def distinct_map_filter_key)

lemma db_ok_delete_usage [preserves]: "db_ok s \<Longrightarrow> db_ok (delete_usage tab i s)"
  by (auto simp: db_ok_defs delete_usage_def distinct_map_filter_key)

lemma db_ok_delete_token [preserves]:
  assumes "db_ok s" "\<not> referenced tab i s"
  shows "db_ok (delete_token tab i s)"
proof (cases tab)
  case RealTokens
  with assms have "ur_real l \<noteq> i" if "l \<in> set (usage_logs s)" for l
    using that by (auto simp: referenced_def list_ex_iff)
  moreover from RealTokens assms have "sr_real x \<noteq> i" if "x \<in> set (sticky_sessions s)" for x
    using that by (auto simp: referenced_def list_ex_iff)
  ultimately show ?thesis using RealTokens assms
    by (auto simp: db_ok_defs delete_token_def distinct_map_filter_key)
next
  case GateTokens
  with assms have "ur_gate l \<noteq> i" if "l \<in> set (usage_logs s)" for l
    using that by (auto simp: referenced_def list_ex_iff)
  moreover from GateTokens assms have "sr_gate x \<noteq> i" if "x \<in> set (sticky_sessions s)" for x
    using that by (auto simp: referenced_def list_ex_iff)
  ultimately show ?thesis using GateTokens assms
    by (auto simp: db_ok_defs delete_token_def distinct_map_filter_key)
qed

lemma db_ok_withTx_cascade [preserves]:
  assumes "db_ok s"
  shows "db_ok (snd (withTx c k (cascadeDelete c' tab i) s))"
proof -
  have "db_ok (delete_token tab i (delete_usage tab i (delete_sticky tab i s)))"
    by (intro db_ok_delete_token db_ok_delete_usage db_ok_delete_sticky assms
        not_referenced_after_deletes)
  then show ?thesis
    using withTx_cases [of c k "cascadeDelete c' tab i" s] assms
    by (auto dest!: cascadeDelete_ok)
qed

end
