(* ===== verification/Real_Token_Store.thy ===== *)
theory Real_Token_Store
  imports Store_State
begin

text \<open>
  internal/store/real_token.go: the real OAuth tokens.  Every method is one definition over
  the database state; \<open>rnd\<close> is what \<open>crypto/rand\<close> delivers.
\<close>

section \<open>Identifiers\<close>

text \<open>\<open>hex.EncodeToString\<close> and \<open>newID\<close>.\<close>

definition hex_digits :: string where
  "hex_digits = ''0123456789abcdef''"

fun hex_encode :: "bytes \<Rightarrow> string" where
  "hex_encode [] = []"
| "hex_encode (b # bs) =
     hex_digits ! (of_char b div 16) # hex_digits ! (of_char b mod 16) # hex_encode bs"

definition newID :: "bytes \<Rightarrow> string" where
  "newID rnd = hex_encode rnd"

lemma hex_digits_inj: "i < 16 \<Longrightarrow> j < 16 \<Longrightarrow> hex_digits ! i = hex_digits ! j \<longleftrightarrow> i = j"
proof -
  have "distinct hex_digits" "length hex_digits = 16"
    by (simp_all add: hex_digits_def)
  then show "i < 16 \<Longrightarrow> j < 16 \<Longrightarrow> hex_digits ! i = hex_digits ! j \<longleftrightarrow> i = j"
    by (simp add: nth_eq_iff_index_eq)
qed

lemma hex_encode_inj: "hex_encode a = hex_encode b \<longleftrightarrow> a = b"
proof (induction a arbitrary: b)
  case Nil
  then show ?case by (cases b) auto
next
  case (Cons x a)
  show ?case
  proof (cases b)
    case Nil
    then show ?thesis by simp
  next
    case (Cons y b')
    have lt: "(of_char c :: nat) div 16 < 16" for c
      using of_char_less_256 [of c] by linarith
    have "x = y \<longleftrightarrow> (of_char x :: nat) div 16 = of_char y div 16 \<and> (of_char x :: nat) mod 16 = of_char y mod 16"
      by (metis div_mult_mod_eq of_char_eq_iff)
    with Cons Cons.IH show ?thesis by (simp add: hex_digits_inj lt)
  qed
qed

lemma newID_inj: "newID a = newID b \<longleftrightarrow> a = b"
  by (simp add: newID_def hex_encode_inj)

section \<open>Operations\<close>

fun scan_opt_time :: "driver \<Rightarrow> sqltime option \<Rightarrow> go_error + gotime option" where
  "scan_opt_time D None = Inr None"
| "scan_opt_time D (Some x) =
     (case rd_time D x of None \<Rightarrow> Inl ErrScan | Some g \<Rightarrow> Inr (Some g))"

definition scanRealToken :: "driver \<Rightarrow> real_row \<Rightarrow> go_error + RealToken" where
  "scanRealToken D r =
     (case (scan_opt_time D (rr_last_failure r), scan_opt_time D (rr_last_used r),
            rd_time D (rr_created r), rd_time D (rr_updated r)) of
        (Inr lf, Inr lu, Some ca, Some ua) \<Rightarrow>
          Inr \<lparr>rt_ID = rr_id r, rt_Name = rr_name r, rt_AccessToken = rr_access r,
               rt_RefreshToken = rr_refresh r, rt_IsActive = (rr_active r = 1),
               rt_FailureCount = rr_failures r, rt_LastFailureAt = lf, rt_LastUsedAt = lu,
               rt_TotalInputTokens = rr_in r, rt_TotalOutputTokens = rr_out r,
               rt_CreatedAt = ca, rt_UpdatedAt = ua\<rparr>
      | _ \<Rightarrow> Inl ErrScan)"

definition CreateRealToken ::
  "callenv \<Rightarrow> bytes \<Rightarrow> string \<Rightarrow> string \<Rightarrow> string \<Rightarrow> db \<Rightarrow> (go_error + RealToken) \<times> db" where
  "CreateRealToken c rnd name access refresh s =
     (let i = newID rnd; now = UTC (clock c) in
      if fails c 0 then (Inl (Wrap ''create real token'' ErrDriver), s)
      else if list_ex (\<lambda>r. rr_id r = i \<or> rr_access r = access) (real_tokens s)
      then (Inl (Wrap ''create real token'' (ErrConstraint ''UNIQUE'')), s)
      else
        (Inr \<lparr>rt_ID = i, rt_Name = name, rt_AccessToken = access, rt_RefreshToken = refresh,
              rt_IsActive = True, rt_FailureCount = 0, rt_LastFailureAt = None,
              rt_LastUsedAt = None, rt_TotalInputTokens = 0, rt_TotalOutputTokens = 0,
              rt_CreatedAt = now, rt_UpdatedAt = now\<rparr>,
         s\<lparr>real_tokens := real_tokens s @
             [\<lparr>rr_id = i, rr_name = name, rr_access = access, rr_refresh = refresh,
               rr_active = 1, rr_failures = 0, rr_last_failure = None, rr_last_used = None,
               rr_in = 0, rr_out = 0, rr_created = Bound now, rr_updated = Bound now\<rparr>]\<rparr>))"

definition GetRealToken :: "driver \<Rightarrow> callenv \<Rightarrow> string \<Rightarrow> db \<Rightarrow> go_error + RealToken" where
  "GetRealToken D c i s = query_row c (scanRealToken D) (\<lambda>r. rr_id r = i) (real_tokens s)"

definition GetRealTokenByAccessToken ::
  "driver \<Rightarrow> callenv \<Rightarrow> string \<Rightarrow> db \<Rightarrow> go_error + RealToken" where
  "GetRealTokenByAccessToken D c access s =
     query_row c (scanRealToken D) (\<lambda>r. rr_access r = access) (real_tokens s)"

definition ListRealTokens :: "driver \<Rightarrow> callenv \<Rightarrow> db \<Rightarrow> go_error + RealToken list" where
  "ListRealTokens D c s =
     query_rows c ''list real tokens'' (scanRealToken D)
       (order_by (\<lambda>a b. txt_le D b a) rr_created (real_tokens s))"

definition active_below :: "int \<Rightarrow> real_row \<Rightarrow> bool" where
  "active_below maxFailures r \<longleftrightarrow> rr_active r = 1 \<and> rr_failures r < maxFailures"

definition ListActiveRealTokens ::
  "driver \<Rightarrow> callenv \<Rightarrow> int \<Rightarrow> db \<Rightarrow> go_error + RealToken list" where
  "ListActiveRealTokens D c maxFailures s =
     query_rows c ''list active real tokens'' (scanRealToken D)
       (order_by (txt_le D) rr_created (filter (active_below maxFailures) (real_tokens s)))"

text \<open>A checked single-statement update of the rows with one id.\<close>

definition update_real :: "string \<Rightarrow> (real_row \<Rightarrow> real_row) \<Rightarrow> db \<Rightarrow> db" where
  "update_real i f s = s\<lparr>real_tokens := update_where (\<lambda>r. rr_id r = i) f (real_tokens s)\<rparr>"

definition UpdateRealToken :: "callenv \<Rightarrow> string \<Rightarrow> string \<Rightarrow> db \<Rightarrow> go_error option \<times> db" where
  "UpdateRealToken c i name s =
     (if fails c 0 then (Some (Wrap ''update real token'' ErrDriver), s)
      else (affected_err (fails c 1) ''update real token'' (count_token RealTokens i s),
            update_real i (\<lambda>r. r\<lparr>rr_name := name, rr_updated := DtNow (clock c)\<rparr>) s))"

definition SetRealTokenActive :: "callenv \<Rightarrow> string \<Rightarrow> bool \<Rightarrow> db \<Rightarrow> go_error option \<times> db" where
  "SetRealTokenActive c i active s =
     (let val = boolToInt active in
      if fails c 0 then (Some (Wrap ''set real token active'' ErrDriver), s)
      else (affected_err (fails c 1) ''set real token active'' (count_token RealTokens i s),
            update_real i (\<lambda>r. r\<lparr>rr_active := val,
              rr_failures := (if val = 1 then 0 else rr_failures r),
              rr_updated := DtNow (clock c)\<rparr>) s))"

definition DeleteRealToken :: "callenv \<Rightarrow> string \<Rightarrow> db \<Rightarrow> go_error option \<times> db" where
  "DeleteRealToken c i s = withTx c 5 (cascadeDelete c RealTokens i) s"

definition IncrementRealTokenFailure :: "callenv \<Rightarrow> string \<Rightarrow> db \<Rightarrow> go_error option \<times> db" where
  "IncrementRealTokenFailure c i s =
     (if fails c 0 then (Some ErrDriver, s)
      else (None, update_real i (\<lambda>r. r\<lparr>rr_failures := rr_failures r + 1,
              rr_last_failure := Some (DtNow (clock c)), rr_updated := DtNow (clock c)\<rparr>) s))"

definition UpdateRealTokenUsage ::
  "driver \<Rightarrow> callenv \<Rightarrow> string \<Rightarrow> int \<Rightarrow> int \<Rightarrow> db \<Rightarrow> go_error option \<times> db" where
  "UpdateRealTokenUsage D c i inputTokens outputTokens s =
     (if fails c 0 then (Some ErrDriver, s)
      else (None, update_real i (\<lambda>r. r\<lparr>rr_in := int_add D (rr_in r) inputTokens,
              rr_out := int_add D (rr_out r) outputTokens,
              rr_last_used := Some (DtNow (clock c)), rr_updated := DtNow (clock c)\<rparr>) s))"

section \<open>Lemmas\<close>

lemmas real_token_ops = CreateRealToken_def UpdateRealToken_def SetRealTokenActive_def
  DeleteRealToken_def IncrementRealTokenFailure_def UpdateRealTokenUsage_def

lemma update_real_frame [frame, simp]:
  "gate_tokens (update_real i f s) = gate_tokens s"
  "usage_logs (update_real i f s) = usage_logs s"
  "usage_seq (update_real i f s) = usage_seq s"
  "sticky_sessions (update_real i f s) = sticky_sessions s"
  "find_gate (update_real i f s) j = find_gate s j"
  "gate_ids (update_real i f s) = gate_ids s"
  by (simp_all add: update_real_def find_gate_def gate_ids_def)

lemma find_real_update:
  "(\<And>r. rr_id (f r) = rr_id r) \<Longrightarrow>
   find_real (update_real i f s) j = map_option (\<lambda>r. if rr_id r = i then f r else r) (find_real s j)"
  by (cases "find_real s j") (auto simp: find_real_def update_real_def find_row_update_key dest: find_row_SomeD)

lemma find_real_update_same:
  "(\<And>r. rr_id (f r) = rr_id r) \<Longrightarrow> find_real (update_real i f s) i = map_option f (find_real s i)"
  by (simp add: find_real_def update_real_def find_row_update_key)

lemma find_real_update_other:
  "(\<And>r. rr_id (f r) = rr_id r) \<Longrightarrow> j \<noteq> i \<Longrightarrow> find_real (update_real i f s) j = find_real s j"
  by (simp add: find_real_def update_real_def find_row_update_key)

lemma real_ids_update:
  "(\<And>r. rr_id (f r) = rr_id r) \<Longrightarrow> real_ids (update_real i f s) = real_ids s"
  by (simp add: real_ids_def update_real_def key_image_update)

lemma db_ok_update_real [preserves]:
  assumes "db_ok s" and "\<And>r. rr_id (f r) = rr_id r" and "\<And>r. rr_access (f r) = rr_access r"
    and "\<And>r. rr_active (f r) \<in> {0, 1, rr_active r}"
    and "\<And>r. 0 \<le> rr_failures r \<Longrightarrow> 0 \<le> rr_failures (f r)"
  shows "db_ok (update_real i f s)"
proof -
  have maps: "map rr_id (real_tokens (update_real i f s)) = map rr_id (real_tokens s)"
    "map rr_access (real_tokens (update_real i f s)) = map rr_access (real_tokens s)"
    by (simp_all add: update_real_def map_update_where assms(2,3))
  then have "keys_ok (update_real i f s)"
    using assms(1) by (simp add: db_ok_def keys_ok_def)
  moreover have "refs_ok (update_real i f s)"
    using assms(1) by (simp add: db_ok_def refs_ok_def real_ids_update assms(2))
  moreover have "flags_ok (update_real i f s)"
    using assms(1,4,5) by (fastforce simp: db_ok_def flags_ok_def update_real_def set_update_where)
  ultimately show ?thesis by (simp add: db_ok_def)
qed

lemma db_ok_insert_real:
  assumes "db_ok s" "rr_id r \<notin> real_ids s" "rr_access r \<notin> rr_access ` set (real_tokens s)"
    "rr_active r \<in> {0, 1}" "0 \<le> rr_failures r"
  shows "db_ok (s\<lparr>real_tokens := real_tokens s @ [r]\<rparr>)"
  using assms by (auto simp: db_ok_defs)

lemma CreateRealToken_db_ok [preserves]:
  "db_ok s \<Longrightarrow> db_ok (snd (CreateRealToken c rnd name access refresh s))"
  by (fastforce simp: CreateRealToken_def Let_def list_ex_iff real_ids_def intro!: db_ok_insert_real)

lemma UpdateRealToken_db_ok [preserves]: "db_ok s \<Longrightarrow> db_ok (snd (UpdateRealToken c i name s))"
  by (simp add: UpdateRealToken_def db_ok_update_real)

lemma SetRealTokenActive_db_ok [preserves]: "db_ok s \<Longrightarrow> db_ok (snd (SetRealTokenActive c i b s))"
  by (simp add: SetRealTokenActive_def Let_def boolToInt_def db_ok_update_real)

lemma DeleteRealToken_db_ok [preserves]: "db_ok s \<Longrightarrow> db_ok (snd (DeleteRealToken c i s))"
  by (simp add: DeleteRealToken_def db_ok_withTx_cascade)

lemma IncrementRealTokenFailure_db_ok [preserves]:
  "db_ok s \<Longrightarrow> db_ok (snd (IncrementRealTokenFailure c i s))"
  by (simp add: IncrementRealTokenFailure_def db_ok_update_real)

lemma UpdateRealTokenUsage_db_ok [preserves]:
  "db_ok s \<Longrightarrow> db_ok (snd (UpdateRealTokenUsage D c i a b s))"
  by (simp add: UpdateRealTokenUsage_def db_ok_update_real)

text \<open>What a scanned row says, and that a readable row is always delivered.\<close>

definition readable :: "driver \<Rightarrow> sqltime \<Rightarrow> bool" where
  "readable D x \<longleftrightarrow> rd_time D x \<noteq> None"

definition real_readable :: "driver \<Rightarrow> real_row \<Rightarrow> bool" where
  "real_readable D r \<longleftrightarrow> readable D (rr_created r) \<and> readable D (rr_updated r) \<and>
     pred_option (readable D) (rr_last_failure r) \<and> pred_option (readable D) (rr_last_used r)"

lemma scanRealToken_InrD:
  "scanRealToken D r = Inr t \<Longrightarrow>
     rt_ID t = rr_id r \<and> rt_Name t = rr_name r \<and> rt_AccessToken t = rr_access r \<and>
     rt_RefreshToken t = rr_refresh r \<and> rt_IsActive t = (rr_active r = 1) \<and>
     rt_FailureCount t = rr_failures r \<and>
     rt_TotalInputTokens t = rr_in r \<and> rt_TotalOutputTokens t = rr_out r"
  by (auto simp: scanRealToken_def split: sum.splits option.splits)

lemma scanRealToken_readable: "real_readable D r \<longleftrightarrow> (\<exists>t. scanRealToken D r = Inr t)"
  by (cases "rr_last_failure r"; cases "rr_last_used r")
    (auto simp: scanRealToken_def real_readable_def readable_def split: sum.splits option.splits)

definition view_real :: "driver \<Rightarrow> real_row \<Rightarrow> RealToken" where
  "view_real D r = projr (scanRealToken D r)"

lemma scan_view_real: "real_readable D r \<Longrightarrow> scanRealToken D r = Inr (view_real D r)"
  by (auto simp: view_real_def scanRealToken_readable)

lemma view_real_sel:
  assumes "real_readable D r"
  shows "rt_ID (view_real D r) = rr_id r" "rt_AccessToken (view_real D r) = rr_access r"
    "rt_IsActive (view_real D r) \<longleftrightarrow> rr_active r = 1" "rt_FailureCount (view_real D r) = rr_failures r"
    "rt_Name (view_real D r) = rr_name r"
  using scanRealToken_InrD [OF scan_view_real [OF assms]] by simp_all

text \<open>The active list: exactly the usable rows, oldest first.\<close>

lemma ListActiveRealTokens_set:
  assumes "ListActiveRealTokens D c m s = Inr ts" "t \<in> set ts"
  obtains r where "r \<in> set (real_tokens s)" "active_below m r" "scanRealToken D r = Inr t"
proof -
  from assms have "\<exists>r\<in>set (filter (active_below m) (real_tokens s)). scanRealToken D r = Inr t"
    unfolding ListActiveRealTokens_def
    by (auto dest!: query_rows_InrD scan_rows_set)
  with that show ?thesis by auto
qed

lemma ListActiveRealTokens_no_fault:
  assumes "no_fault c" "\<And>r. r \<in> set (real_tokens s) \<Longrightarrow> real_readable D r"
  shows "ListActiveRealTokens D c m s =
    Inr (map (view_real D) (order_by (txt_le D) rr_created (filter (active_below m) (real_tokens s))))"
proof -
  have "scan_rows (scanRealToken D) (order_by (txt_le D) rr_created (filter (active_below m) (real_tokens s)))
      = Inr (map (view_real D) (order_by (txt_le D) rr_created (filter (active_below m) (real_tokens s))))"
    by (rule scan_rows_map) (simp add: assms scan_view_real)
  then show ?thesis by (simp add: ListActiveRealTokens_def query_rows_def assms(1))
qed

end
