(* ===== verification/Gate_Token_Store.thy ===== *)
theory Gate_Token_Store
  imports Real_Token_Store
begin

text \<open>internal/store/gate_token.go: the tokens the gate issues to its clients.\<close>

section \<open>Token strings\<close>

text \<open>
  \<open>base32.StdEncoding.WithPadding(NoPadding).EncodeToString\<close>: the bytes as bits, most
  significant first, cut into groups of five (the last one filled with zeros), each group a
  letter of the alphabet; \<open>strings.ToLower\<close> on its ASCII result.
\<close>

definition base32_alphabet :: string where
  "base32_alphabet = ''ABCDEFGHIJKLMNOPQRSTUVWXYZ234567''"

fun nat_bits :: "nat \<Rightarrow> nat \<Rightarrow> bool list" where
  "nat_bits 0 n = []"
| "nat_bits (Suc w) n = nat_bits w (n div 2) @ [odd n]"

definition byte_bits :: "bytes \<Rightarrow> bool list" where
  "byte_bits bs = concat (map (\<lambda>b. nat_bits 8 (of_char b)) bs)"

definition bits_nat :: "bool list \<Rightarrow> nat" where
  "bits_nat bs = foldl (\<lambda>n b. 2 * n + (if b then 1 else 0)) 0 bs"

function base32_groups :: "bool list \<Rightarrow> string" where
  "base32_groups bs =
     (if bs = [] then []
      else base32_alphabet ! bits_nat (take 5 (take 5 bs @ replicate 4 False)) # base32_groups (drop 5 bs))"
  by pat_completeness auto
termination
  by (relation "measure length") auto

declare base32_groups.simps [simp del]

definition to_lower_char :: "char \<Rightarrow> char" where
  "to_lower_char c = (let n = of_char c :: nat in
     if 65 \<le> n \<and> n \<le> 90 then char_of (n + 32) else c)"

definition ToLower :: "string \<Rightarrow> string" where
  "ToLower s = map to_lower_char s"

definition generateGateToken :: "bytes \<Rightarrow> string" where
  "generateGateToken rnd = ''gate-'' @ ToLower (base32_groups (byte_bits rnd))"

section \<open>Operations\<close>

definition scanGateToken :: "driver \<Rightarrow> gate_row \<Rightarrow> go_error + GateToken" where
  "scanGateToken D g =
     (case (rd_time D (gr_created g), rd_time D (gr_updated g)) of
        (Some ca, Some ua) \<Rightarrow>
          Inr \<lparr>gt_ID = gr_id g, gt_Token = gr_token g, gt_Name = gr_name g,
               gt_IsActive = (gr_active g = 1), gt_TotalInputTokens = gr_in g,
               gt_TotalOutputTokens = gr_out g, gt_CreatedAt = ca, gt_UpdatedAt = ua\<rparr>
      | _ \<Rightarrow> Inl ErrScan)"

text \<open>\<open>rndID\<close> and \<open>rndTok\<close> are the two reads of \<open>crypto/rand\<close>, the second only made without a custom token.\<close>

definition CreateGateToken ::
  "callenv \<Rightarrow> bytes \<Rightarrow> bytes \<Rightarrow> string \<Rightarrow> string \<Rightarrow> db \<Rightarrow> (go_error + GateToken) \<times> db" where
  "CreateGateToken c rndID rndTok name customToken s =
     (let i = newID rndID;
          token = (if customToken = [] then generateGateToken rndTok else customToken);
          now = UTC (clock c) in
      if fails c 0 then (Inl (Wrap ''create gate token'' ErrDriver), s)
      else if list_ex (\<lambda>g. gr_id g = i \<or> gr_token g = token) (gate_tokens s)
      then (Inl (Wrap ''create gate token'' (ErrConstraint ''UNIQUE'')), s)
      else
        (Inr \<lparr>gt_ID = i, gt_Token = token, gt_Name = name, gt_IsActive = True,
              gt_TotalInputTokens = 0, gt_TotalOutputTokens = 0,
              gt_CreatedAt = now, gt_UpdatedAt = now\<rparr>,
         s\<lparr>gate_tokens := gate_tokens s @
             [\<lparr>gr_id = i, gr_token = token, gr_name = name, gr_active = 1, gr_in = 0, gr_out = 0,
               gr_created = Bound now, gr_updated = Bound now\<rparr>]\<rparr>))"

definition GetGateToken :: "driver \<Rightarrow> callenv \<Rightarrow> string \<Rightarrow> db \<Rightarrow> go_error + GateToken" where
  "GetGateToken D c i s = query_row c (scanGateToken D) (\<lambda>g. gr_id g = i) (gate_tokens s)"

definition GetGateTokenByToken :: "driver \<Rightarrow> callenv \<Rightarrow> string \<Rightarrow> db \<Rightarrow> go_error + GateToken" where
  "GetGateTokenByToken D c token s =
     query_row c (scanGateToken D) (\<lambda>g. gr_token g = token) (gate_tokens s)"

definition ListGateTokens :: "driver \<Rightarrow> callenv \<Rightarrow> db \<Rightarrow> go_error + GateToken list" where
  "ListGateTokens D c s =
     query_rows c ''list gate tokens'' (scanGateToken D)
       (order_by (\<lambda>a b. txt_le D b a) gr_created (gate_tokens s))"

definition update_gate :: "string \<Rightarrow> (gate_row \<Rightarrow> gate_row) \<Rightarrow> db \<Rightarrow> db" where
  "update_gate i f s = s\<lparr>gate_tokens := update_where (\<lambda>g. gr_id g = i) f (gate_tokens s)\<rparr>"

definition UpdateGateToken :: "callenv \<Rightarrow> string \<Rightarrow> string \<Rightarrow> db \<Rightarrow> go_error option \<times> db" where
  "UpdateGateToken c i name s =
     (if fails c 0 then (Some (Wrap ''update gate token'' ErrDriver), s)
      else (affected_err (fails c 1) ''update gate token'' (count_token GateTokens i s),
            update_gate i (\<lambda>g. g\<lparr>gr_name := name, gr_updated := DtNow (clock c)\<rparr>) s))"

definition SetGateTokenActive :: "callenv \<Rightarrow> string \<Rightarrow> bool \<Rightarrow> db \<Rightarrow> go_error option \<times> db" where
  "SetGateTokenActive c i active s =
     (let val = boolToInt active in
      if fails c 0 then (Some (Wrap ''set gate token active'' ErrDriver), s)
      else (affected_err (fails c 1) ''set gate token active'' (count_token GateTokens i s),
            update_gate i (\<lambda>g. g\<lparr>gr_active := val, gr_updated := DtNow (clock c)\<rparr>) s))"

definition DeleteGateToken :: "callenv \<Rightarrow> string \<Rightarrow> db \<Rightarrow> go_error option \<times> db" where
  "DeleteGateToken c i s = withTx c 5 (cascadeDelete c GateTokens i) s"

definition UpdateGateTokenUsage ::
  "driver \<Rightarrow> callenv \<Rightarrow> string \<Rightarrow> int \<Rightarrow> int \<Rightarrow> db \<Rightarrow> go_error option \<times> db" where
  "UpdateGateTokenUsage D c i inputTokens outputTokens s =
     (if fails c 0 then (Some ErrDriver, s)
      else (None, update_gate i (\<lambda>g. g\<lparr>gr_in := int_add D (gr_in g) inputTokens,
              gr_out := int_add D (gr_out g) outputTokens, gr_updated := DtNow (clock c)\<rparr>) s))"

section \<open>Lemmas\<close>

lemmas gate_token_ops = CreateGateToken_def UpdateGateToken_def SetGateTokenActive_def
  DeleteGateToken_def UpdateGateTokenUsage_def

lemma update_gate_frame [frame, simp]:
  "real_tokens (update_gate i f s) = real_tokens s"
  "usage_logs (update_gate i f s) = usage_logs s"
  "usage_seq (update_gate i f s) = usage_seq s"
  "sticky_sessions (update_gate i f s) = sticky_sessions s"
  "find_real (update_gate i f s) j = find_real s j"
  "real_ids (update_gate i f s) = real_ids s"
  by (simp_all add: update_gate_def find_real_def real_ids_def)

lemma find_gate_update:
  "(\<And>g. gr_id (f g) = gr_id g) \<Longrightarrow>
   find_gate (update_gate i f s) j = map_option (\<lambda>g. if gr_id g = i then f g else g) (find_gate s j)"
  by (cases "find_gate s j") (auto simp: find_gate_def update_gate_def find_row_update_key dest: find_row_SomeD)

lemma find_gate_update_same:
  "(\<And>g. gr_id (f g) = gr_id g) \<Longrightarrow> find_gate (update_gate i f s) i = map_option f (find_gate s i)"
  by (simp add: find_gate_def update_gate_def find_row_update_key)

lemma find_gate_update_other:
  "(\<And>g. gr_id (f g) = gr_id g) \<Longrightarrow> j \<noteq> i \<Longrightarrow> find_gate (update_gate i f s) j = find_gate s j"
  by (simp add: find_gate_def update_gate_def find_row_update_key)

lemma gate_ids_update:
  "(\<And>g. gr_id (f g) = gr_id g) \<Longrightarrow> gate_ids (update_gate i f s) = gate_ids s"
  by (simp add: gate_ids_def update_gate_def key_image_update)

lemma db_ok_update_gate [preserves]:
  assumes "db_ok s" and "\<And>g. gr_id (f g) = gr_id g" and "\<And>g. gr_token (f g) = gr_token g"
    and "\<And>g. gr_active (f g) \<in> {0, 1, gr_active g}"
  shows "db_ok (update_gate i f s)"
proof -
  have "map gr_id (gate_tokens (update_gate i f s)) = map gr_id (gate_tokens s)"
    "map gr_token (gate_tokens (update_gate i f s)) = map gr_token (gate_tokens s)"
    by (simp_all add: update_gate_def map_update_where assms(2,3))
  then have "keys_ok (update_gate i f s)"
    using assms(1) by (simp add: db_ok_def keys_ok_def)
  moreover have "refs_ok (update_gate i f s)"
    using assms(1) by (simp add: db_ok_def refs_ok_def gate_ids_update assms(2))
  moreover have "flags_ok (update_gate i f s)"
    using assms(1,4) by (fastforce simp: db_ok_def flags_ok_def update_gate_def set_update_where)
  ultimately show ?thesis by (simp add: db_ok_def)
qed

lemma CreateGateToken_db_ok [preserves]:
  "db_ok s \<Longrightarrow> db_ok (snd (CreateGateToken c r1 r2 name custom s))"
  by (auto simp: CreateGateToken_def Let_def list_ex_iff db_ok_defs)

lemma UpdateGateToken_db_ok [preserves]: "db_ok s \<Longrightarrow> db_ok (snd (UpdateGateToken c i name s))"
  by (simp add: UpdateGateToken_def db_ok_update_gate)

lemma SetGateTokenActive_db_ok [preserves]: "db_ok s \<Longrightarrow> db_ok (snd (SetGateTokenActive c i b s))"
  by (simp add: SetGateTokenActive_def Let_def boolToInt_def db_ok_update_gate)

lemma DeleteGateToken_db_ok [preserves]: "db_ok s \<Longrightarrow> db_ok (snd (DeleteGateToken c i s))"
  by (simp add: DeleteGateToken_def db_ok_withTx_cascade)

lemma UpdateGateTokenUsage_db_ok [preserves]:
  "db_ok s \<Longrightarrow> db_ok (snd (UpdateGateTokenUsage D c i a b s))"
  by (simp add: UpdateGateTokenUsage_def db_ok_update_gate)

lemma scanGateToken_InrD:
  "scanGateToken D g = Inr t \<Longrightarrow>
     gt_ID t = gr_id g \<and> gt_Token t = gr_token g \<and> gt_Name t = gr_name g \<and>
     gt_IsActive t = (gr_active g = 1) \<and> gt_TotalInputTokens t = gr_in g \<and>
     gt_TotalOutputTokens t = gr_out g"
  by (auto simp: scanGateToken_def split: option.splits)

end
