(* ===== verification/Usage_Store.thy ===== *)
theory Usage_Store
  imports Gate_Token_Store
begin

text \<open>internal/store/usage.go: the per-request usage logs and the statistics over them.\<close>

section \<open>Operations\<close>

text \<open>
  One \<open>INSERT INTO usage_logs\<close>: the foreign keys are checked, the AUTOINCREMENT key is the
  next of the sequence and \<open>created_at\<close> is \<open>datetime('now')\<close> by default.
\<close>

definition usage_refs_ok :: "db \<Rightarrow> UsageLog \<Rightarrow> bool" where
  "usage_refs_ok s l \<longleftrightarrow>
     list_ex (\<lambda>g. gr_id g = ul_GateTokenID l) (gate_tokens s) \<and>
     list_ex (\<lambda>r. rr_id r = ul_RealTokenID l) (real_tokens s)"

definition add_usage :: "int \<Rightarrow> UsageLog \<Rightarrow> db \<Rightarrow> db" where
  "add_usage t l s =
     s\<lparr>usage_logs := usage_logs s @
         [\<lparr>ur_id = usage_seq s + 1, ur_gate = ul_GateTokenID l, ur_real = ul_RealTokenID l,
           ur_model = ul_Model l, ur_in = ul_InputTokens l, ur_out = ul_OutputTokens l,
           ur_cache_creation = ul_CacheCreationInputTokens l,
           ur_cache_read = ul_CacheReadInputTokens l, ur_path = ul_RequestPath l,
           ur_status = ul_StatusCode l, ur_created = DtNow t\<rparr>],
       usage_seq := usage_seq s + 1\<rparr>"

definition InsertUsageLog :: "callenv \<Rightarrow> UsageLog \<Rightarrow> db \<Rightarrow> go_error option \<times> db" where
  "InsertUsageLog c l s =
     (if fails c 0 then (Some (Wrap ''insert usage log'' ErrDriver), s)
      else if \<not> usage_refs_ok s l
      then (Some (Wrap ''insert usage log'' (ErrConstraint ''FOREIGN KEY'')), s)
      else (None, add_usage (clock c) l s))"

text \<open>
  The loop of \<open>InsertUsageLogs\<close> over the prepared statement; \<open>k\<close> numbers the driver call of the
  next \<open>Exec\<close>.  The transaction around it is \<open>InsertUsageLogs\<close>: 0 begin, 1 prepare, then one
  call per row, then commit; every error rolls back.
\<close>

fun insert_logs :: "callenv \<Rightarrow> nat \<Rightarrow> UsageLog list \<Rightarrow> db \<Rightarrow> go_error option \<times> db" where
  "insert_logs c k [] s = (None, s)"
| "insert_logs c k (l # ls) s =
     (if fails c k then (Some (Wrap ''exec insert'' ErrDriver), s)
      else if \<not> usage_refs_ok s l
      then (Some (Wrap ''exec insert'' (ErrConstraint ''FOREIGN KEY'')), s)
      else insert_logs c (Suc k) ls (add_usage (clock c) l s))"

definition InsertUsageLogs :: "callenv \<Rightarrow> UsageLog list \<Rightarrow> db \<Rightarrow> go_error option \<times> db" where
  "InsertUsageLogs c logs s =
     (if logs = [] then (None, s)
      else if fails c 0 then (Some (Wrap ''begin tx'' ErrDriver), s)
      else if fails c 1 then (Some (Wrap ''prepare stmt'' ErrDriver), s)
      else case insert_logs c 2 logs s of
             (Some e, _) \<Rightarrow> (Some e, s)
           | (None, s') \<Rightarrow> if fails c (2 + length logs) then (Some ErrDriver, s) else (None, s'))"

definition queryUsageStats ::
  "driver \<Rightarrow> callenv \<Rightarrow> (usage_row \<Rightarrow> bool) \<Rightarrow> db \<Rightarrow> go_error + UsageStats" where
  "queryUsageStats D c where_clause s =
     (let rows = filter where_clause (usage_logs s) in
      if fails c 0 then Inl ErrDriver
      else case (int_sum D (map ur_in rows), int_sum D (map ur_out rows),
                 int_sum D (map ur_cache_creation rows), int_sum D (map ur_cache_read rows)) of
             (Some i, Some u, Some cc, Some cr) \<Rightarrow>
               Inr \<lparr>us_TotalInputTokens = i, us_TotalOutputTokens = u,
                    us_CacheCreationInputTokens = cc, us_CacheReadInputTokens = cr,
                    us_RequestCount = int (length rows)\<rparr>
           | _ \<Rightarrow> Inl ErrDriver)"

definition logged_since :: "driver \<Rightarrow> gotime \<Rightarrow> usage_row \<Rightarrow> bool" where
  "logged_since D since l \<longleftrightarrow> txt_le D (Bound since) (ur_created l)"

definition GetUsageStats :: "driver \<Rightarrow> callenv \<Rightarrow> gotime \<Rightarrow> db \<Rightarrow> go_error + UsageStats" where
  "GetUsageStats D c since s = queryUsageStats D c (logged_since D since) s"

definition GetUsageStatsByRealToken ::
  "driver \<Rightarrow> callenv \<Rightarrow> string \<Rightarrow> gotime \<Rightarrow> db \<Rightarrow> go_error + UsageStats" where
  "GetUsageStatsByRealToken D c realTokenID since s =
     queryUsageStats D c (\<lambda>l. ur_real l = realTokenID \<and> logged_since D since l) s"

definition GetUsageStatsByGateToken ::
  "driver \<Rightarrow> callenv \<Rightarrow> string \<Rightarrow> gotime \<Rightarrow> db \<Rightarrow> go_error + UsageStats" where
  "GetUsageStatsByGateToken D c gateTokenID since s =
     queryUsageStats D c (\<lambda>l. ur_gate l = gateTokenID \<and> logged_since D since l) s"

definition scanUsageLog :: "driver \<Rightarrow> usage_row \<Rightarrow> go_error + UsageLog" where
  "scanUsageLog D l =
     (case rd_time D (ur_created l) of
        None \<Rightarrow> Inl (Wrap ''scan usage log'' ErrScan)
      | Some ca \<Rightarrow>
          Inr \<lparr>ul_ID = ur_id l, ul_GateTokenID = ur_gate l, ul_RealTokenID = ur_real l,
               ul_Model = ur_model l, ul_InputTokens = ur_in l, ul_OutputTokens = ur_out l,
               ul_CacheCreationInputTokens = ur_cache_creation l,
               ul_CacheReadInputTokens = ur_cache_read l, ul_RequestPath = ur_path l,
               ul_StatusCode = ur_status l, ul_CreatedAt = ca\<rparr>)"

text \<open>\<open>LIMIT n OFFSET m\<close> in SQLite: a negative limit is no limit, a negative offset is none.\<close>

definition sql_limit :: "int \<Rightarrow> int \<Rightarrow> 'a list \<Rightarrow> 'a list" where
  "sql_limit limit offset rows =
     (let rest = drop (nat offset) rows in if limit < 0 then rest else take (nat limit) rest)"

definition ListUsageLogs :: "driver \<Rightarrow> callenv \<Rightarrow> int \<Rightarrow> int \<Rightarrow> db \<Rightarrow> go_error + UsageLog list" where
  "ListUsageLogs D c limit offset s =
     query_rows c ''list usage logs'' (scanUsageLog D)
       (sql_limit limit offset (order_by (\<lambda>a b. txt_le D b a) ur_created (usage_logs s)))"

section \<open>Lemmas\<close>

lemma add_usage_frame [frame, simp]:
  "real_tokens (add_usage t l s) = real_tokens s"
  "gate_tokens (add_usage t l s) = gate_tokens s"
  "sticky_sessions (add_usage t l s) = sticky_sessions s"
  "find_real (add_usage t l s) i = find_real s i"
  "find_gate (add_usage t l s) i = find_gate s i"
  "usage_refs_ok (add_usage t l s) = usage_refs_ok s"
  by (simp_all add: add_usage_def find_real_def find_gate_def usage_refs_ok_def fun_eq_iff)

lemma usage_refs_ok_iff:
  "usage_refs_ok s l \<longleftrightarrow> ul_GateTokenID l \<in> gate_ids s \<and> ul_RealTokenID l \<in> real_ids s"
  by (simp add: usage_refs_ok_def list_ex_key gate_ids_def real_ids_def)

lemma db_ok_add_usage [preserves]:
  "db_ok s \<Longrightarrow> usage_refs_ok s l \<Longrightarrow> db_ok (add_usage t l s)"
  by (fastforce simp: usage_refs_ok_iff db_ok_defs add_usage_def)

lemma insert_logs_db_ok:
  "db_ok s \<Longrightarrow> insert_logs c k ls s = (e, s') \<Longrightarrow> db_ok s'"
  by (induction c k ls s rule: insert_logs.induct)
    (auto simp: db_ok_add_usage split: if_splits)

lemma insert_logs_ok_iff:
  "(\<exists>s'. insert_logs c k ls s = (None, s')) \<longleftrightarrow>
     (\<forall>l\<in>set ls. usage_refs_ok s l) \<and> (\<forall>i<length ls. \<not> fails c (k + i))"
proof (induction c k ls s rule: insert_logs.induct)
  case (1 c k s)
  then show ?case by simp
next
  case (2 c k l ls s)
  have shift: "(\<forall>i<length (l # ls). \<not> fails c (k + i)) \<longleftrightarrow>
      \<not> fails c k \<and> (\<forall>i<length ls. \<not> fails c (Suc k + i))"
    by (auto simp: less_Suc_eq_0_disj)
  show ?case
  proof (cases "fails c k \<or> \<not> usage_refs_ok s l")
    case True
    then show ?thesis unfolding shift by auto
  next
    case False
    with "2.IH" show ?thesis unfolding shift by simp
  qed
qed

lemma insert_logs_state:
  "insert_logs c k ls s = (None, s') \<Longrightarrow> s' = fold (add_usage (clock c)) ls s"
  by (induction c k ls s rule: insert_logs.induct) (auto split: if_splits)

lemma fold_add_usage_frame [frame, simp]:
  "real_tokens (fold (add_usage t) ls s) = real_tokens s"
  "gate_tokens (fold (add_usage t) ls s) = gate_tokens s"
  "sticky_sessions (fold (add_usage t) ls s) = sticky_sessions s"
  "find_real (fold (add_usage t) ls s) i = find_real s i"
  "find_gate (fold (add_usage t) ls s) i = find_gate s i"
  by (induction ls arbitrary: s) auto

text \<open>What a row records of a request: everything but its key and its time.\<close>

definition log_of_row :: "usage_row \<Rightarrow> UsageLog" where
  "log_of_row l =
     \<lparr>ul_ID = 0, ul_GateTokenID = ur_gate l, ul_RealTokenID = ur_real l, ul_Model = ur_model l,
      ul_InputTokens = ur_in l, ul_OutputTokens = ur_out l,
      ul_CacheCreationInputTokens = ur_cache_creation l,
      ul_CacheReadInputTokens = ur_cache_read l, ul_RequestPath = ur_path l,
      ul_StatusCode = ur_status l, ul_CreatedAt = zero_time\<rparr>"

definition unsaved :: "UsageLog \<Rightarrow> UsageLog" where
  "unsaved l = l\<lparr>ul_ID := 0, ul_CreatedAt := zero_time\<rparr>"

lemma fold_add_usage_logs:
  "map log_of_row (usage_logs (fold (add_usage t) ls s)) = map log_of_row (usage_logs s) @ map unsaved ls"
  by (induction ls arbitrary: s) (auto simp: add_usage_def log_of_row_def unsaved_def)

lemma InsertUsageLogs_error: "fst (InsertUsageLogs c logs s) = Some e \<Longrightarrow> snd (InsertUsageLogs c logs s) = s"
  by (auto simp: InsertUsageLogs_def split: if_splits option.splits prod.splits)

lemma InsertUsageLogs_ok:
  assumes "InsertUsageLogs c logs s = (None, s')"
  shows "s' = fold (add_usage (clock c)) logs s \<and> (\<forall>l\<in>set logs. usage_refs_ok s l)"
proof (cases "logs = []")
  case True
  with assms show ?thesis by (simp add: InsertUsageLogs_def)
next
  case False
  with assms have "insert_logs c 2 logs s = (None, s')"
    by (auto simp: InsertUsageLogs_def split: if_splits option.splits prod.splits)
  then show ?thesis using insert_logs_state insert_logs_ok_iff by blast
qed

lemma InsertUsageLogs_no_fault:
  assumes "no_fault c"
  shows "fst (InsertUsageLogs c logs s) = None \<longleftrightarrow> (\<forall>l\<in>set logs. usage_refs_ok s l)"
proof (cases "insert_logs c 2 logs s")
  case (Pair e s')
  then have "e = None \<longleftrightarrow> (\<forall>l\<in>set logs. usage_refs_ok s l)"
    using insert_logs_ok_iff [of c 2 logs s] assms by auto
  with Pair assms show ?thesis by (cases e) (auto simp: InsertUsageLogs_def)
qed

lemma InsertUsageLogs_db_ok [preserves]:
  assumes "db_ok s"
  shows "db_ok (snd (InsertUsageLogs c logs s))"
proof (cases "insert_logs c 2 logs s")
  case (Pair e s')
  with insert_logs_db_ok [OF assms] have "db_ok s'" by blast
  with Pair assms show ?thesis by (auto simp: InsertUsageLogs_def split: option.splits)
qed

lemma InsertUsageLog_db_ok [preserves]: "db_ok s \<Longrightarrow> db_ok (snd (InsertUsageLog c l s))"
  by (simp add: InsertUsageLog_def db_ok_add_usage)

end
