(* ===== verification/Sticky_Store.thy ===== *)
theory Sticky_Store
  imports Usage_Store
begin

text \<open>internal/store/sticky.go: the persisted gate-token to real-token bindings.\<close>

section \<open>Operations\<close>

definition scanSticky :: "driver \<Rightarrow> sticky_row \<Rightarrow> go_error + StickySession" where
  "scanSticky D x =
     (case rd_time D (sr_expires x) of
        None \<Rightarrow> Inl ErrScan
      | Some ea \<Rightarrow> Inr \<lparr>ss_GateTokenID = sr_gate x, ss_RealTokenID = sr_real x, ss_ExpiresAt = ea\<rparr>)"

text \<open>\<open>expires_at > datetime('now')\<close>, on the texts.\<close>

definition live_row :: "driver \<Rightarrow> int \<Rightarrow> sticky_row \<Rightarrow> bool" where
  "live_row D t x \<longleftrightarrow> txt_lt D (DtNow t) (sr_expires x)"

definition GetStickySession ::
  "driver \<Rightarrow> callenv \<Rightarrow> string \<Rightarrow> db \<Rightarrow> go_error + StickySession option" where
  "GetStickySession D c gateTokenID s =
     (case query_row c (scanSticky D)
             (\<lambda>x. sr_gate x = gateTokenID \<and> live_row D (clock c) x) (sticky_sessions s) of
        Inr ss \<Rightarrow> Inr (Some ss)
      | Inl e \<Rightarrow> if e = ErrNoRows then Inr None else Inl (Wrap ''get sticky session'' e))"

definition put_sticky :: "string \<Rightarrow> string \<Rightarrow> sqltime \<Rightarrow> db \<Rightarrow> db" where
  "put_sticky gateTokenID realTokenID expiresAt s =
     (if list_ex (\<lambda>x. sr_gate x = gateTokenID) (sticky_sessions s)
      then s\<lparr>sticky_sessions := update_where (\<lambda>x. sr_gate x = gateTokenID)
               (\<lambda>x. x\<lparr>sr_real := realTokenID, sr_expires := expiresAt\<rparr>) (sticky_sessions s)\<rparr>
      else s\<lparr>sticky_sessions := sticky_sessions s @
               [\<lparr>sr_gate = gateTokenID, sr_real = realTokenID, sr_expires = expiresAt\<rparr>]\<rparr>)"

definition UpsertStickySession ::
  "callenv \<Rightarrow> string \<Rightarrow> string \<Rightarrow> gotime \<Rightarrow> db \<Rightarrow> go_error option \<times> db" where
  "UpsertStickySession c gateTokenID realTokenID expiresAt s =
     (if fails c 0 then (Some (Wrap ''upsert sticky session'' ErrDriver), s)
      else if \<not> list_ex (\<lambda>g. gr_id g = gateTokenID) (gate_tokens s) \<or>
              \<not> list_ex (\<lambda>r. rr_id r = realTokenID) (real_tokens s)
      then (Some (Wrap ''upsert sticky session'' (ErrConstraint ''FOREIGN KEY'')), s)
      else (None, put_sticky gateTokenID realTokenID (Bound expiresAt) s))"

definition DeleteExpiredStickySessions ::
  "driver \<Rightarrow> callenv \<Rightarrow> db \<Rightarrow> (go_error + nat) \<times> db" where
  "DeleteExpiredStickySessions D c s =
     (if fails c 0 then (Inl (Wrap ''delete expired sticky sessions'' ErrDriver), s)
      else (if fails c 1 then Inl ErrDriver
            else Inr (count_where (\<lambda>x. \<not> live_row D (clock c) x) (sticky_sessions s)),
            s\<lparr>sticky_sessions := filter (live_row D (clock c)) (sticky_sessions s)\<rparr>))"

definition DeleteStickySession :: "callenv \<Rightarrow> string \<Rightarrow> db \<Rightarrow> go_error option \<times> db" where
  "DeleteStickySession c gateTokenID s =
     (if fails c 0 then (Some ErrDriver, s)
      else (None, s\<lparr>sticky_sessions := filter (\<lambda>x. sr_gate x \<noteq> gateTokenID) (sticky_sessions s)\<rparr>))"

section \<open>Lemmas\<close>

definition find_sticky :: "db \<Rightarrow> string \<Rightarrow> sticky_row option" where
  "find_sticky s g = find_row (\<lambda>x. sr_gate x = g) (sticky_sessions s)"

lemma put_sticky_frame [frame, simp]:
  "real_tokens (put_sticky g r e s) = real_tokens s"
  "gate_tokens (put_sticky g r e s) = gate_tokens s"
  "usage_logs (put_sticky g r e s) = usage_logs s"
  "usage_seq (put_sticky g r e s) = usage_seq s"
  "find_real (put_sticky g r e s) i = find_real s i"
  "find_gate (put_sticky g r e s) i = find_gate s i"
  by (simp_all add: put_sticky_def find_real_def find_gate_def)

lemma find_put_sticky:
  "find_sticky (put_sticky g r e s) h =
     (if h = g then Some \<lparr>sr_gate = g, sr_real = r, sr_expires = e\<rparr> else find_sticky s h)"
proof (cases "list_ex (\<lambda>x. sr_gate x = g) (sticky_sessions s)")
  case True
  then have "find_row (\<lambda>x. sr_gate x = g) (sticky_sessions s) \<noteq> None"
    by (auto simp: find_row_None list_ex_iff)
  then obtain x where "find_row (\<lambda>x. sr_gate x = g) (sticky_sessions s) = Some x" "sr_gate x = g"
    by (auto dest: find_row_SomeD)
  with True show ?thesis
    by (auto simp: find_sticky_def put_sticky_def find_row_update_key)
next
  case False
  then have "find_row (\<lambda>x. sr_gate x = g) (sticky_sessions s) = None"
    by (auto simp: find_row_None list_ex_iff)
  with False show ?thesis
    by (auto simp: find_sticky_def put_sticky_def find_row_append split: option.splits)
qed

lemma db_ok_put_sticky [preserves]:
  assumes "db_ok s" "g \<in> gate_ids s" "r \<in> real_ids s"
  shows "db_ok (put_sticky g r e s)"
proof -
  have "distinct (map sr_gate (sticky_sessions (put_sticky g r e s)))"
    using assms(1) by (auto simp: put_sticky_def map_update_where list_ex_iff db_ok_defs)
  then have "keys_ok (put_sticky g r e s)"
    using assms(1) by (simp add: db_ok_def keys_ok_def)
  moreover have "sr_gate x \<in> gate_ids s \<and> sr_real x \<in> real_ids s"
    if "x \<in> set (sticky_sessions (put_sticky g r e s))" for x
    using that assms by (auto simp: put_sticky_def set_update_where db_ok_def refs_ok_def split: if_splits)
  then have "refs_ok (put_sticky g r e s)"
    using assms(1) by (simp add: db_ok_def refs_ok_def gate_ids_def real_ids_def)
  moreover have "flags_ok (put_sticky g r e s)"
    using assms(1) by (simp add: db_ok_def flags_ok_def)
  ultimately show ?thesis by (simp add: db_ok_def)
qed

lemma UpsertStickySession_db_ok [preserves]:
  "db_ok s \<Longrightarrow> db_ok (snd (UpsertStickySession c g r e s))"
  by (auto simp: UpsertStickySession_def list_ex_iff gate_ids_def real_ids_def
      intro!: db_ok_put_sticky)

lemma db_ok_filter_sticky [preserves]:
  "db_ok s \<Longrightarrow> db_ok (s\<lparr>sticky_sessions := filter p (sticky_sessions s)\<rparr>)"
  by (auto simp: db_ok_defs distinct_map_filter_key)

lemma DeleteExpiredStickySessions_db_ok [preserves]:
  "db_ok s \<Longrightarrow> db_ok (snd (DeleteExpiredStickySessions D c s))"
  by (simp add: DeleteExpiredStickySessions_def db_ok_filter_sticky)

lemma DeleteStickySession_db_ok [preserves]: "db_ok s \<Longrightarrow> db_ok (snd (DeleteStickySession c g s))"
  by (simp add: DeleteStickySession_def db_ok_filter_sticky)

lemma GetStickySession_InrD:
  assumes "GetStickySession D c g s = Inr (Some ss)"
  obtains x where "x \<in> set (sticky_sessions s)" "sr_gate x = g" "live_row D (clock c) x"
    "ss_GateTokenID ss = g" "ss_RealTokenID ss = sr_real x" "rd_time D (sr_expires x) = Some (ss_ExpiresAt ss)"
proof -
  from assms have "query_row c (scanSticky D) (\<lambda>x. sr_gate x = g \<and> live_row D (clock c) x) (sticky_sessions s) = Inr ss"
    by (auto simp: GetStickySession_def split: sum.splits if_splits)
  then obtain x where "find_row (\<lambda>x. sr_gate x = g \<and> live_row D (clock c) x) (sticky_sessions s) = Some x"
    "scanSticky D x = Inr ss"
    by (auto dest: query_row_InrD)
  with that show ?thesis
    by (auto simp: scanSticky_def dest!: find_row_SomeD split: option.splits)
qed

end
