(* ===== verification/Pool.thy ===== *)
theory Pool
  imports Sticky_Store
begin

text \<open>
  internal/token/pool.go: the cached list of active real tokens with round-robin selection.
  The atomic counter is a \<open>64 word\<close>; the read-locked snapshot and the counter bump of
  \<open>Select\<close> are one step, since a refresh replaces the slice and never writes into it.
\<close>

record pool =
  pl_tokens :: "RealToken list"
  pl_counter :: "64 word"
  pl_maxFailures :: int

definition NewTokenPool :: "int \<Rightarrow> pool" where
  "NewTokenPool maxFailures = \<lparr>pl_tokens = [], pl_counter = 0, pl_maxFailures = maxFailures\<rparr>"

definition Refresh :: "driver \<Rightarrow> callenv \<Rightarrow> db \<Rightarrow> pool \<Rightarrow> go_error option \<times> pool" where
  "Refresh D c s p =
     (case ListActiveRealTokens D c (pl_maxFailures p) s of
        Inl e \<Rightarrow> (Some e, p)
      | Inr tokens \<Rightarrow> (None, p\<lparr>pl_tokens := tokens\<rparr>))"

text \<open>\<open>excludeIDs\<close> is a Go map, possibly nil.\<close>

type_synonym exclusion = "(string \<rightharpoonup> bool) option"

definition excluded :: "exclusion \<Rightarrow> string \<Rightarrow> bool" where
  "excluded excl i \<longleftrightarrow> (case excl of None \<Rightarrow> False | Some m \<Rightarrow> m i = Some True)"

definition slot :: "64 word \<Rightarrow> nat \<Rightarrow> nat \<Rightarrow> nat" where
  "slot start i n = unat ((start + of_nat i) mod of_nat n)"

text \<open>The \<open>for i := range n\<close> loop over the remaining values of \<open>i\<close>.\<close>

fun select_loop :: "RealToken list \<Rightarrow> exclusion \<Rightarrow> 64 word \<Rightarrow> nat list \<Rightarrow> go_error + RealToken" where
  "select_loop tokens excl start [] = Inl ErrNoAvailableTokens"
| "select_loop tokens excl start (i # is) =
     (let t = tokens ! slot start i (length tokens) in
      if excluded excl (rt_ID t) then select_loop tokens excl start is else Inr t)"

definition Select :: "exclusion \<Rightarrow> pool \<Rightarrow> (go_error + RealToken) \<times> pool" where
  "Select excl p =
     (let tokens = pl_tokens p; n = length tokens in
      if n = 0 then (Inl ErrNoAvailableTokens, p)
      else let start = pl_counter p in
        (select_loop tokens excl start [0..<n], p\<lparr>pl_counter := pl_counter p + 1\<rparr>))"

definition Len :: "pool \<Rightarrow> nat" where
  "Len p = length (pl_tokens p)"

definition GetByID :: "string \<Rightarrow> pool \<Rightarrow> RealToken option" where
  "GetByID i p = find_row (\<lambda>t. rt_ID t = i) (pl_tokens p)"

section \<open>Lemmas\<close>

text \<open>
  The slice length of a Go program fits \<open>int\<close>, so \<open>uint64(n)\<close> is exact; the index is then in
  range whatever the counter is.
\<close>

definition pool_sized :: "pool \<Rightarrow> bool" where
  "pool_sized p \<longleftrightarrow> length (pl_tokens p) < 2 ^ 63"

lemma slot_unat:
  assumes "n < 2 ^ 63"
  shows "slot start i n = unat (start + of_nat i) mod n"
proof -
  have "unat (of_nat n :: 64 word) = n"
    using assms by (simp add: unat_of_nat)
  then show ?thesis by (simp add: slot_def unat_mod)
qed

lemma slot_less: "0 < n \<Longrightarrow> n < 2 ^ 63 \<Longrightarrow> slot start i n < n"
  by (simp add: slot_unat)

text \<open>While the counter does not wrap within the scan, the slots are a rotation of the list.\<close>

lemma slot_no_wrap:
  assumes "n < 2 ^ 63" "unat start + i < 2 ^ 64"
  shows "slot start i n = (unat start + i) mod n"
proof -
  have i: "unat (of_nat i :: 64 word) = i"
    using assms(2) by (simp add: unat_of_nat)
  have "unat (start + of_nat i) = unat start + i"
    using assms(2) i by (simp add: unat_word_ariths)
  then show ?thesis using assms(1) by (simp add: slot_unat)
qed

lemma select_loop_Inr:
  "select_loop tokens excl start is = Inr t \<Longrightarrow>
     \<exists>i\<in>set is. t = tokens ! slot start i (length tokens) \<and> \<not> excluded excl (rt_ID t)"
  by (induction "is") (auto simp: Let_def split: if_splits)

lemma select_loop_Inl:
  "select_loop tokens excl start is = Inl e \<longleftrightarrow>
     e = ErrNoAvailableTokens \<and> (\<forall>i\<in>set is. excluded excl (rt_ID (tokens ! slot start i (length tokens))))"
  by (induction "is") (auto simp: Let_def)

lemma Select_in_pool:
  assumes "pool_sized p" "fst (Select excl p) = Inr t"
  shows "t \<in> set (pl_tokens p) \<and> \<not> excluded excl (rt_ID t)"
proof -
  let ?n = "length (pl_tokens p)"
  from assms(2) have n: "?n \<noteq> 0"
    and loop: "select_loop (pl_tokens p) excl (pl_counter p) [0..<?n] = Inr t"
    by (auto simp: Select_def Let_def split: if_splits)
  from select_loop_Inr [OF loop] obtain i where
    t: "t = pl_tokens p ! slot (pl_counter p) i ?n" and ex: "\<not> excluded excl (rt_ID t)" by blast
  have "slot (pl_counter p) i ?n < ?n"
    using n assms(1) by (simp add: slot_less pool_sized_def)
  with t ex show ?thesis by simp
qed

lemma rotation_surj:
  fixes s n :: nat
  assumes "j < n"
  shows "\<exists>i<n. (s + i) mod n = j"
proof (intro exI conjI)
  define r where "r = s mod n"
  have "r < n" using assms by (simp add: r_def)
  show "(j + n - r) mod n < n" using assms by simp
  have "(s + (j + n - r) mod n) mod n = (r + (j + n - r)) mod n"
    by (simp only: r_def mod_add_left_eq mod_add_right_eq)
  also have "r + (j + n - r) = j + n" using \<open>r < n\<close> by linarith
  finally show "(s + (j + n - r) mod n) mod n = j" using assms by simp
qed

text \<open>Selection fails exactly when every token is excluded (no wrap inside the scan).\<close>

lemma Select_fails_iff:
  assumes "pool_sized p" "unat (pl_counter p) + length (pl_tokens p) < 2 ^ 64"
  shows "fst (Select excl p) = Inl ErrNoAvailableTokens \<longleftrightarrow>
    (\<forall>t\<in>set (pl_tokens p). excluded excl (rt_ID t))"
proof (cases "pl_tokens p = []")
  case True
  then show ?thesis by (simp add: Select_def)
next
  case False
  let ?n = "length (pl_tokens p)" and ?s = "pl_counter p"
  have slots: "slot ?s i ?n = (unat ?s + i) mod ?n" if "i < ?n" for i
    using that assms by (intro slot_no_wrap) (auto simp: pool_sized_def)
  have "(\<forall>i<?n. excluded excl (rt_ID (pl_tokens p ! slot ?s i ?n))) \<longleftrightarrow>
        (\<forall>j<?n. excluded excl (rt_ID (pl_tokens p ! j)))"
  proof
    assume L: "\<forall>i<?n. excluded excl (rt_ID (pl_tokens p ! slot ?s i ?n))"
    show "\<forall>j<?n. excluded excl (rt_ID (pl_tokens p ! j))"
    proof (intro allI impI)
      fix j assume "j < ?n"
      then obtain i where "i < ?n" "(unat ?s + i) mod ?n = j"
        using rotation_surj by blast
      with L slots show "excluded excl (rt_ID (pl_tokens p ! j))" by metis
    qed
  next
    assume "\<forall>j<?n. excluded excl (rt_ID (pl_tokens p ! j))"
    then show "\<forall>i<?n. excluded excl (rt_ID (pl_tokens p ! slot ?s i ?n))"
      using False assms(1) by (simp add: slot_less pool_sized_def)
  qed
  with False show ?thesis
    by (simp add: Select_def Let_def select_loop_Inl all_set_conv_all_nth atLeast0LessThan lessThan_def)
qed

lemma Select_nil:
  assumes "pool_sized p" "pl_tokens p \<noteq> []"
  shows "fst (Select None p) = Inr (pl_tokens p ! (unat (pl_counter p) mod length (pl_tokens p)))"
    and "snd (Select None p) = p\<lparr>pl_counter := pl_counter p + 1\<rparr>"
proof -
  let ?n = "length (pl_tokens p)"
  have "[0..<?n] = 0 # [1..<?n]"
    using assms(2) by (simp add: upt_conv_Cons)
  then show "fst (Select None p) = Inr (pl_tokens p ! (unat (pl_counter p) mod ?n))"
    using assms by (simp add: Select_def Let_def excluded_def slot_unat pool_sized_def)
  show "snd (Select None p) = p\<lparr>pl_counter := pl_counter p + 1\<rparr>"
    using assms(2) by (simp add: Select_def Let_def)
qed

lemma Select_None_error:
  "pool_sized p \<Longrightarrow> fst (Select None p) = Inl e \<longleftrightarrow> e = ErrNoAvailableTokens \<and> pl_tokens p = []"
  by (cases "pl_tokens p = []") (auto simp: Select_nil, auto simp: Select_def)

lemma Select_frame [frame]:
  "pl_tokens (snd (Select excl p)) = pl_tokens p"
  "pl_maxFailures (snd (Select excl p)) = pl_maxFailures p"
  by (simp_all add: Select_def Let_def)

text \<open>A run of consecutive selections without exclusions.\<close>

fun select_run :: "nat \<Rightarrow> pool \<Rightarrow> (go_error + RealToken) list \<times> pool" where
  "select_run 0 p = ([], p)"
| "select_run (Suc k) p =
     (let (r, p') = Select None p; (rs, p'') = select_run k p' in (r # rs, p''))"

lemma select_run_tokens:
  assumes "pool_sized p" "pl_tokens p \<noteq> []" "unat (pl_counter p) + k < 2 ^ 64"
  shows "fst (select_run k p) =
    map (\<lambda>i. Inr (pl_tokens p ! ((unat (pl_counter p) + i) mod length (pl_tokens p)))) [0..<k]"
  using assms
proof (induction k arbitrary: p)
  case 0
  then show ?case by simp
next
  case (Suc k)
  let ?q = "snd (Select None p)" and ?n = "length (pl_tokens p)"
  have q: "?q = p\<lparr>pl_counter := pl_counter p + 1\<rparr>"
    using Suc.prems by (simp add: Select_nil)
  have "unat (pl_counter p) + 1 < 2 ^ 64" using Suc.prems(3) by simp
  then have bump: "unat (pl_counter ?q) = Suc (unat (pl_counter p))"
    by (simp add: q unat_word_ariths)
  have "fst (select_run k ?q) =
      map (\<lambda>i. Inr (pl_tokens p ! ((Suc (unat (pl_counter p)) + i) mod ?n))) [0..<k]"
    using Suc.IH [of ?q] Suc.prems bump by (simp add: q pool_sized_def)
  moreover have "fst (select_run (Suc k) p) = fst (Select None p) # fst (select_run k ?q)"
    by (simp add: case_prod_beta Let_def)
  moreover have "[0..<Suc k] = 0 # map Suc [0..<k]"
    by (simp only: map_Suc_upt upt_conv_Cons [OF zero_less_Suc])
  ultimately show ?case
    using Suc.prems by (simp add: Select_nil)
qed

lemma GetByID_SomeD: "GetByID i p = Some t \<Longrightarrow> t \<in> set (pl_tokens p) \<and> rt_ID t = i"
  by (auto simp: GetByID_def dest: find_row_SomeD)

text \<open>What a snapshot is worth: every cached token was usable when it was read.\<close>

definition usable :: "int \<Rightarrow> RealToken \<Rightarrow> bool" where
  "usable maxFailures t \<longleftrightarrow> rt_IsActive t \<and> rt_FailureCount t < maxFailures"

definition pool_ok :: "pool \<Rightarrow> bool" where
  "pool_ok p \<longleftrightarrow> (\<forall>t\<in>set (pl_tokens p). usable (pl_maxFailures p) t)"

lemma ListActive_usable:
  "ListActiveRealTokens D c mx s = Inr ts \<Longrightarrow> t \<in> set ts \<Longrightarrow> usable mx t"
  by (auto simp: usable_def active_below_def elim!: ListActiveRealTokens_set dest!: scanRealToken_InrD)

lemma Refresh_pool_ok: "pool_ok p \<Longrightarrow> pool_ok (snd (Refresh D c s p))"
  by (auto simp: Refresh_def pool_ok_def usable_def active_below_def split: sum.splits
      elim!: ListActiveRealTokens_set dest!: scanRealToken_InrD)

lemma Refresh_frame [frame]:
  "pl_counter (snd (Refresh D c s p)) = pl_counter p"
  "pl_maxFailures (snd (Refresh D c s p)) = pl_maxFailures p"
  by (simp_all add: Refresh_def split: sum.splits)

end
