(* ===== verification/Sticky.thy ===== *)
theory Sticky
  imports Pool
begin

text \<open>
  internal/token/sticky.go: gate-token to real-token affinity, an in-memory cache in front of
  the \<open>sticky_sessions\<close> table.  The cache is the third-party \<open>ttlcache\<close>, a parameter.
\<close>

section \<open>The cache\<close>

text \<open>
  The operations the program calls, each with the instant it runs at, and the documented
  observer \<open>tc_entry\<close> of an item: its value, its TTL and its expiry.
\<close>

record ('c, 'v) ttlcache =
  tc_get :: "'c \<Rightarrow> int \<Rightarrow> string \<Rightarrow> 'v option \<times> 'c"
  tc_set :: "'c \<Rightarrow> int \<Rightarrow> string \<Rightarrow> 'v \<Rightarrow> int \<Rightarrow> 'c"
  tc_delete :: "'c \<Rightarrow> string \<Rightarrow> 'c"
  tc_entry :: "'c \<Rightarrow> string \<Rightarrow> ('v \<times> int \<times> int) option"

text \<open>
  Documented behaviour of ttlcache v3, for items with a positive TTL: \<open>Set\<close> stores the item
  with expiry now + TTL; \<open>Get\<close> returns the value of an item that has not expired and, unless
  \<open>WithDisableTouchOnHit\<close> is given (the program does not give it), extends the expiry by the
  item's own TTL; an expired item is a miss and may be evicted; \<open>Delete\<close> removes the item.  At
  the very instant of expiry nothing is promised.
\<close>

definition cache_set_law :: "('c, 'v) ttlcache \<Rightarrow> bool" where
  "cache_set_law K \<longleftrightarrow>
     (\<forall>ch t k v ttl. 0 < ttl \<longrightarrow>
        tc_entry K (tc_set K ch t k v ttl) = (tc_entry K ch)(k := Some (v, ttl, t + ttl)))"

definition cache_hit_law :: "('c, 'v) ttlcache \<Rightarrow> bool" where
  "cache_hit_law K \<longleftrightarrow>
     (\<forall>ch t k v ttl e. tc_entry K ch k = Some (v, ttl, e) \<longrightarrow> 0 < ttl \<longrightarrow> t < e \<longrightarrow>
        fst (tc_get K ch t k) = Some v \<and>
        tc_entry K (snd (tc_get K ch t k)) = (tc_entry K ch)(k := Some (v, ttl, t + ttl)))"

definition cache_miss_law :: "('c, 'v) ttlcache \<Rightarrow> bool" where
  "cache_miss_law K \<longleftrightarrow>
     (\<forall>ch t k. (case tc_entry K ch k of None \<Rightarrow> True | Some (v, ttl, e) \<Rightarrow> 0 < ttl \<and> e < t) \<longrightarrow>
        fst (tc_get K ch t k) = None \<and>
        (\<forall>k'. k' \<noteq> k \<longrightarrow> tc_entry K (snd (tc_get K ch t k)) k' = tc_entry K ch k'))"

definition cache_delete_law :: "('c, 'v) ttlcache \<Rightarrow> bool" where
  "cache_delete_law K \<longleftrightarrow> (\<forall>ch k. tc_entry K (tc_delete K ch k) = (tc_entry K ch)(k := None))"

text \<open>
  Whatever the TTL and the instant, a \<open>Get\<close> concerns one item, which it leaves, evicts, or returns
  and touches.
\<close>

definition cache_get_law :: "('c, 'v) ttlcache \<Rightarrow> bool" where
  "cache_get_law K \<longleftrightarrow>
     (\<forall>ch t k.
        (\<forall>k'. k' \<noteq> k \<longrightarrow> tc_entry K (snd (tc_get K ch t k)) k' = tc_entry K ch k') \<and>
        (tc_entry K (snd (tc_get K ch t k)) k \<in> {None, tc_entry K ch k} \<or>
         (\<exists>v ttl e. tc_entry K ch k = Some (v, ttl, e) \<and> fst (tc_get K ch t k) = Some v \<and>
            tc_entry K (snd (tc_get K ch t k)) k = Some (v, ttl, t + ttl))))"

definition cache_laws :: "('c, 'v) ttlcache \<Rightarrow> bool" where
  "cache_laws K \<longleftrightarrow> cache_set_law K \<and> cache_hit_law K \<and> cache_miss_law K \<and> cache_delete_law K \<and>
     cache_get_law K"

text \<open>A cache with these laws, a map from keys to items.\<close>

type_synonym 'v items = "string \<Rightarrow> ('v \<times> int \<times> int) option"

definition items_get :: "'v items \<Rightarrow> int \<Rightarrow> string \<Rightarrow> 'v option \<times> 'v items" where
  "items_get ch t k =
     (case ch k of
        None \<Rightarrow> (None, ch)
      | Some (v, ttl, e) \<Rightarrow>
          if ttl \<le> 0 then (Some v, ch)
          else if t < e then (Some v, ch(k := Some (v, ttl, t + ttl)))
          else (None, ch(k := None)))"

definition item_cache :: "('v items, 'v) ttlcache" where
  "item_cache =
     \<lparr>tc_get = items_get, tc_set = (\<lambda>ch t k v ttl. ch(k := Some (v, ttl, t + ttl))),
      tc_delete = (\<lambda>ch k. ch(k := None)), tc_entry = (\<lambda>ch. ch)\<rparr>"

lemma item_cache_sel [simp]:
  "tc_get item_cache = items_get"
  "tc_set item_cache = (\<lambda>ch t k v ttl. ch(k := Some (v, ttl, t + ttl)))"
  "tc_delete item_cache = (\<lambda>ch k. ch(k := None))" "tc_entry item_cache = (\<lambda>ch. ch)"
  by (simp_all add: item_cache_def)

lemma item_cache_laws [simp]: "cache_laws item_cache"
  by (auto simp: cache_laws_def cache_set_law_def cache_hit_law_def cache_miss_law_def
      cache_delete_law_def cache_get_law_def items_get_def split: option.splits prod.splits)

section \<open>Operations\<close>

definition dbCleanupInterval :: int where
  "dbCleanupInterval = 300 * second"

text \<open>\<open>("", false)\<close> is \<open>None\<close>, \<open>(id, true)\<close> is \<open>Some id\<close>.\<close>

definition Resolve ::
  "driver \<Rightarrow> ('c, string) ttlcache \<Rightarrow> callenv \<Rightarrow> string \<Rightarrow> db \<Rightarrow> 'c \<Rightarrow> string option \<times> 'c" where
  "Resolve D K c gateTokenID s ch =
     (case tc_get K ch (clock c) gateTokenID of
        (Some v, ch') \<Rightarrow> (Some v, ch')
      | (None, ch') \<Rightarrow>
          (case GetStickySession D c gateTokenID s of
             Inl _ \<Rightarrow> (None, ch')
           | Inr None \<Rightarrow> (None, ch')
           | Inr (Some ss) \<Rightarrow>
               let ttl = instant (ss_ExpiresAt ss) - clock c in
               if ttl \<le> 0 then (None, ch')
               else (Some (ss_RealTokenID ss), tc_set K ch' (clock c) gateTokenID (ss_RealTokenID ss) ttl)))"

definition Bind ::
  "('c, string) ttlcache \<Rightarrow> callenv \<Rightarrow> string \<Rightarrow> string \<Rightarrow> int \<Rightarrow> db \<Rightarrow> 'c \<Rightarrow> go_error option \<times> db \<times> 'c" where
  "Bind K c gateTokenID realTokenID ttl s ch =
     (let expiresAt = UTC (clock c + ttl) in
      case UpsertStickySession c gateTokenID realTokenID expiresAt s of
        (Some e, s') \<Rightarrow> (Some e, s', ch)
      | (None, s') \<Rightarrow> (None, s', tc_set K ch (clock c) gateTokenID realTokenID ttl))"

text \<open>One tick of \<open>dbCleanupLoop\<close>; its result is ignored.\<close>

definition dbCleanup :: "driver \<Rightarrow> callenv \<Rightarrow> db \<Rightarrow> db" where
  "dbCleanup D c s = snd (DeleteExpiredStickySessions D c s)"

section \<open>Lemmas\<close>

lemma cache_hit:
  "cache_laws K \<Longrightarrow> tc_entry K ch k = Some (v, ttl, e) \<Longrightarrow> 0 < ttl \<Longrightarrow> t < e \<Longrightarrow>
     \<exists>ch'. tc_get K ch t k = (Some v, ch') \<and>
       tc_entry K ch' = (tc_entry K ch)(k := Some (v, ttl, t + ttl))"
  unfolding cache_laws_def cache_hit_law_def by (metis prod.collapse)

lemma cache_set: "cache_laws K \<Longrightarrow> 0 < ttl \<Longrightarrow>
  tc_entry K (tc_set K ch t k v ttl) = (tc_entry K ch)(k := Some (v, ttl, t + ttl))"
  by (simp add: cache_laws_def cache_set_law_def)

lemma cache_empty_miss:
  assumes "cache_laws K" "tc_entry K ch k = None"
  shows "\<exists>ch'. tc_get K ch t k = (None, ch')"
  using assms unfolding cache_laws_def cache_miss_law_def by (metis option.case(1) prod.collapse)

lemma Resolve_hit:
  assumes "cache_laws K" "tc_entry K ch g = Some (v, ttl, e)" "0 < ttl" "clock c < e"
  shows "\<exists>ch'. Resolve D K c g s ch = (Some v, ch') \<and>
    tc_entry K ch' = (tc_entry K ch)(g := Some (v, ttl, clock c + ttl))"
  using cache_hit [OF assms] by (auto simp: Resolve_def)

text \<open>
  A binding that comes from the table is a live one: it is the row of the gate token, and its
  expiry lies in the future (the SQL filter compares whole seconds only, the \<open>ttl <= 0\<close> test in
  Go makes it exact).
\<close>

lemma Resolve_db:
  assumes "Resolve D K c g s ch = (Some r, ch')" "fst (tc_get K ch (clock c) g) = None"
  obtains x e where "x \<in> set (sticky_sessions s)" "sr_gate x = g" "sr_real x = r"
    "rd_time D (sr_expires x) = Some e" "clock c < instant e"
    "ch' = tc_set K (snd (tc_get K ch (clock c) g)) (clock c) g r (instant e - clock c)"
proof -
  obtain ch0 where get: "tc_get K ch (clock c) g = (None, ch0)"
    using assms(2) by (cases "tc_get K ch (clock c) g") auto
  from assms(1) obtain ss where ss: "GetStickySession D c g s = Inr (Some ss)"
    "clock c < instant (ss_ExpiresAt ss)" "r = ss_RealTokenID ss"
    "ch' = tc_set K ch0 (clock c) g r (instant (ss_ExpiresAt ss) - clock c)"
    by (auto simp: Resolve_def get Let_def split: sum.splits option.splits if_splits)
  from ss(1) show ?thesis
  proof (rule GetStickySession_InrD)
    fix x assume "x \<in> set (sticky_sessions s)" "sr_gate x = g" "ss_RealTokenID ss = sr_real x"
      "rd_time D (sr_expires x) = Some (ss_ExpiresAt ss)"
    with ss get that show ?thesis by simp
  qed
qed

lemma Bind_cases:
  "Bind K c g r ttl s ch =
     (case UpsertStickySession c g r (UTC (clock c + ttl)) s of
        (Some e, s') \<Rightarrow> (Some e, s', ch)
      | (None, s') \<Rightarrow> (None, s', tc_set K ch (clock c) g r ttl))"
  by (simp add: Bind_def Let_def)

lemma UpsertStickySession_no_fault:
  assumes "no_fault c" "g \<in> gate_ids s" "r \<in> real_ids s"
  shows "UpsertStickySession c g r e s = (None, put_sticky g r (Bound e) s)"
  using assms by (simp add: UpsertStickySession_def list_ex_key gate_ids_def real_ids_def)

lemma Bind_no_fault:
  assumes "no_fault c" "g \<in> gate_ids s" "r \<in> real_ids s"
  shows "Bind K c g r ttl s ch =
    (None, put_sticky g r (Bound (UTC (clock c + ttl))) s, tc_set K ch (clock c) g r ttl)"
  using assms by (simp add: Bind_cases UpsertStickySession_no_fault)

lemma Bind_db_ok [preserves]: "db_ok s \<Longrightarrow> db_ok (fst (snd (Bind K c g r ttl s ch)))"
  using UpsertStickySession_db_ok [of s c g r "UTC (clock c + ttl)"]
  by (auto simp: Bind_cases split: prod.splits option.splits)

lemma UpsertStickySession_frame [frame]:
  "real_tokens (snd (UpsertStickySession c g r e s)) = real_tokens s"
  "gate_tokens (snd (UpsertStickySession c g r e s)) = gate_tokens s"
  "usage_logs (snd (UpsertStickySession c g r e s)) = usage_logs s"
  by (simp_all add: UpsertStickySession_def)

lemma Bind_frame [frame]:
  "real_tokens (fst (snd (Bind K c g r ttl s ch))) = real_tokens s"
  "gate_tokens (fst (snd (Bind K c g r ttl s ch))) = gate_tokens s"
  "usage_logs (fst (snd (Bind K c g r ttl s ch))) = usage_logs s"
  using UpsertStickySession_frame [of c g r "UTC (clock c + ttl)" s]
  by (auto simp: Bind_cases split: prod.splits option.splits)

lemma dbCleanup_db_ok [preserves]: "db_ok s \<Longrightarrow> db_ok (dbCleanup D c s)"
  by (simp add: dbCleanup_def DeleteExpiredStickySessions_db_ok)

end
