(* ===== verification/Manager.thy ===== *)
theory Manager
  imports Sticky
begin

text \<open>
  internal/token/manager.go: the token manager, which resolves a real token for a gate token
  and deactivates tokens that fail.
\<close>

definition poolRefreshDebounce :: int where
  "poolRefreshDebounce = 100 * (second div 1000)"

text \<open>
  \<open>mg_refreshAt\<close> is the deadline of the pending \<open>refreshTimer\<close>; \<open>None\<close> when no timer is armed.
\<close>

record 'c manager =
  mg_pool :: pool
  mg_cache :: 'c
  mg_stickyTTL :: int
  mg_maxFailures :: int
  mg_refreshAt :: "int option"

definition NewManager :: "int \<Rightarrow> int \<Rightarrow> 'c \<Rightarrow> 'c manager" where
  "NewManager maxFailures stickyTTL emptyCache =
     \<lparr>mg_pool = NewTokenPool maxFailures, mg_cache = emptyCache, mg_stickyTTL = stickyTTL,
      mg_maxFailures = maxFailures, mg_refreshAt = None\<rparr>"

definition Start :: "driver \<Rightarrow> callenv \<Rightarrow> db \<Rightarrow> 'c manager \<Rightarrow> go_error option \<times> 'c manager" where
  "Start D c s m = (case Refresh D c s (mg_pool m) of (e, p) \<Rightarrow> (e, m\<lparr>mg_pool := p\<rparr>))"

definition RefreshPool :: "int \<Rightarrow> 'c manager \<Rightarrow> 'c manager" where
  "RefreshPool now m = m\<lparr>mg_refreshAt := Some (now + poolRefreshDebounce)\<rparr>"

text \<open>
  The timer fires: its function runs in a goroutine of its own, which reads the tokens from the database
  without a lock and installs them in the pool later, under the lock (\<open>Server\<close>).  A read that fails is only
  logged.  \<open>refreshFire\<close> is the whole refresh when nothing comes between its parts.
\<close>

definition timer_fires :: "'c manager \<Rightarrow> 'c manager" where
  "timer_fires m = m\<lparr>mg_refreshAt := None\<rparr>"

definition install :: "RealToken list \<Rightarrow> 'c manager \<Rightarrow> 'c manager" where
  "install tokens m = m\<lparr>mg_pool := (mg_pool m)\<lparr>pl_tokens := tokens\<rparr>\<rparr>"

definition refreshFire :: "driver \<Rightarrow> callenv \<Rightarrow> db \<Rightarrow> 'c manager \<Rightarrow> 'c manager" where
  "refreshFire D c s m = m\<lparr>mg_pool := snd (Refresh D c s (mg_pool m)), mg_refreshAt := None\<rparr>"

text \<open>The driver calls of one operation after its first \<open>k\<close>.\<close>

definition later :: "nat \<Rightarrow> callenv \<Rightarrow> callenv" where
  "later k c = c\<lparr>drv_fault := (\<lambda>j. drv_fault c (j + k))\<rparr>"

definition ResolveToken ::
  "driver \<Rightarrow> ('c, string) ttlcache \<Rightarrow> callenv \<Rightarrow> string \<Rightarrow> db \<Rightarrow> 'c manager \<Rightarrow>
     (go_error + RealToken) \<times> db \<times> 'c manager" where
  "ResolveToken D K c gateTokenID s m =
     (case Resolve D K c gateTokenID s (mg_cache m) of
        (sticky, ch) \<Rightarrow>
          (let m1 = m\<lparr>mg_cache := ch\<rparr> in
           case (case sticky of None \<Rightarrow> None | Some i \<Rightarrow> GetByID i (mg_pool m1)) of
             Some t \<Rightarrow> (Inr t, s, m1)
           | None \<Rightarrow>
               (case Select None (mg_pool m1) of
                  (Inl e, p) \<Rightarrow> (Inl e, s, m1\<lparr>mg_pool := p\<rparr>)
                | (Inr t, p) \<Rightarrow>
                    (case Bind K (later 1 c) gateTokenID (rt_ID t) (mg_stickyTTL m) s ch of
                       (_, s', ch') \<Rightarrow> (Inr t, s', m1\<lparr>mg_pool := p, mg_cache := ch'\<rparr>)))))"

definition RecordFailure ::
  "driver \<Rightarrow> callenv \<Rightarrow> string \<Rightarrow> db \<Rightarrow> 'c manager \<Rightarrow> go_error option \<times> db \<times> 'c manager" where
  "RecordFailure D c realTokenID s m =
     (case IncrementRealTokenFailure c realTokenID s of
        (Some e, s1) \<Rightarrow> (Some e, s1, m)
      | (None, s1) \<Rightarrow>
          (case GetRealToken D (later 1 c) realTokenID s1 of
             Inl e \<Rightarrow> (Some e, s1, m)
           | Inr t \<Rightarrow>
               if rt_FailureCount t \<ge> mg_maxFailures m then
                 (case SetRealTokenActive (later 2 c) realTokenID False s1 of
                    (Some e, s2) \<Rightarrow> (Some e, s2, m)
                  | (None, s2) \<Rightarrow> (None, s2, RefreshPool (clock c) m))
               else (None, s1, RefreshPool (clock c) m)))"

section \<open>Lemmas\<close>

lemma later_sel [simp]: "clock (later k c) = clock c" "ctx_done (later k c) = ctx_done c"
  "no_fault c \<Longrightarrow> no_fault (later k c)"
  by (simp_all add: later_def no_fault_def fails_def)

text \<open>
  The manager's invariant: the pool holds only tokens that were usable when they were read, under
  the manager's own limit.
\<close>

definition mgr_ok :: "'c manager \<Rightarrow> bool" where
  "mgr_ok m \<longleftrightarrow> pool_ok (mg_pool m) \<and> pl_maxFailures (mg_pool m) = mg_maxFailures m"

lemma mgr_ok_new: "mgr_ok (NewManager mx ttl ch)"
  by (simp add: mgr_ok_def NewManager_def NewTokenPool_def pool_ok_def)

lemma mgr_ok_start: "mgr_ok m \<Longrightarrow> mgr_ok (snd (Start D c s m))"
  using Refresh_pool_ok [of "mg_pool m" D c s] Refresh_frame(2) [of D c s "mg_pool m"]
  by (simp add: mgr_ok_def Start_def case_prod_beta)

lemma mgr_ok_refresh: "mgr_ok m \<Longrightarrow> mgr_ok (refreshFire D c s m)"
  by (simp add: mgr_ok_def refreshFire_def Refresh_pool_ok Refresh_frame)

lemma refresh_parts:
  "refreshFire D c s m =
     (case ListActiveRealTokens D c (pl_maxFailures (mg_pool m)) s of
        Inl e \<Rightarrow> timer_fires m
      | Inr tokens \<Rightarrow> install tokens (timer_fires m))"
  by (simp add: refreshFire_def Refresh_def timer_fires_def install_def split: sum.split)

lemma timer_install_sel [simp]:
  "mg_pool (timer_fires m) = mg_pool m" "mg_cache (timer_fires m) = mg_cache m" "mg_stickyTTL (timer_fires m) = mg_stickyTTL m"
  "mg_maxFailures (timer_fires m) = mg_maxFailures m" "mg_refreshAt (timer_fires m) = None"
  "mg_pool (install ts m) = (mg_pool m)\<lparr>pl_tokens := ts\<rparr>" "mg_cache (install ts m) = mg_cache m"
  "mg_stickyTTL (install ts m) = mg_stickyTTL m" "mg_maxFailures (install ts m) = mg_maxFailures m"
  "mg_refreshAt (install ts m) = mg_refreshAt m"
  by (simp_all add: timer_fires_def install_def)

lemma mgr_ok_timer [simp]: "mgr_ok (timer_fires m) = mgr_ok m"
  by (simp add: mgr_ok_def)

lemma mgr_ok_install: "mgr_ok m \<Longrightarrow> \<forall>t\<in>set ts. usable (mg_maxFailures m) t \<Longrightarrow> mgr_ok (install ts m)"
  by (simp add: mgr_ok_def pool_ok_def)

lemma mgr_ok_schedule [simp]: "mgr_ok (RefreshPool t m) = mgr_ok m"
  by (simp add: mgr_ok_def RefreshPool_def)

text \<open>The shape of a resolution: a sticky hit, or a round-robin choice.\<close>

lemma ResolveToken_cases:
  assumes "ResolveToken D K c g s m = (res, s', m')"
  obtains (sticky) i t ch where "Resolve D K c g s (mg_cache m) = (Some i, ch)"
      "GetByID i (mg_pool m) = Some t" "res = Inr t" "s' = s" "m' = m\<lparr>mg_cache := ch\<rparr>"
  | (chosen) o' ch t where "Resolve D K c g s (mg_cache m) = (o', ch)"
      "\<And>i. o' = Some i \<Longrightarrow> GetByID i (mg_pool m) = None"
      "fst (Select None (mg_pool m)) = Inr t" "res = Inr t"
      "s' = fst (snd (Bind K (later 1 c) g (rt_ID t) (mg_stickyTTL m) s ch))"
      "m' = m\<lparr>mg_pool := snd (Select None (mg_pool m)),
             mg_cache := snd (snd (Bind K (later 1 c) g (rt_ID t) (mg_stickyTTL m) s ch))\<rparr>"
  | (none) o' ch e where "Resolve D K c g s (mg_cache m) = (o', ch)"
      "\<And>i. o' = Some i \<Longrightarrow> GetByID i (mg_pool m) = None"
      "fst (Select None (mg_pool m)) = Inl e" "res = Inl e" "s' = s"
      "m' = m\<lparr>mg_cache := ch, mg_pool := snd (Select None (mg_pool m))\<rparr>"
proof -
  obtain o' ch where r: "Resolve D K c g s (mg_cache m) = (o', ch)" by fastforce
  show ?thesis
  proof (cases "case o' of None \<Rightarrow> None | Some i \<Rightarrow> GetByID i (mg_pool m)")
    case (Some t)
    then obtain i where "o' = Some i" "GetByID i (mg_pool m) = Some t"
      by (auto split: option.splits)
    with r assms show ?thesis
      by (intro sticky [of i ch t]) (auto simp: ResolveToken_def Let_def)
  next
    case None
    then have nomatch: "\<And>i. o' = Some i \<Longrightarrow> GetByID i (mg_pool m) = None" by auto
    from None have target:
      "(case o' of None \<Rightarrow> None | Some i \<Rightarrow> GetByID i (mg_pool (m\<lparr>mg_cache := ch\<rparr>))) = None"
      by (cases o') auto
    obtain se p where sel: "Select None (mg_pool m) = (se, p)" by fastforce
    show ?thesis
    proof (cases se)
      case (Inl e)
      with r sel assms nomatch target show ?thesis
        by (intro none [of o' ch e]) (simp_all add: ResolveToken_def Let_def)
    next
      case (Inr t)
      obtain be bs bch where "Bind K (later 1 c) g (rt_ID t) (mg_stickyTTL m) s ch = (be, bs, bch)"
        by (metis prod_cases3)
      with Inr r sel assms nomatch target show ?thesis
        by (intro chosen [of o' ch t]) (simp_all add: ResolveToken_def Let_def)
    qed
  qed
qed

lemma ResolveToken_member:
  assumes "pool_sized (mg_pool m)" "fst (ResolveToken D K c g s m) = Inr t"
  shows "t \<in> set (pl_tokens (mg_pool m))"
proof -
  obtain res s' m' where r: "ResolveToken D K c g s m = (res, s', m')" by (metis prod_cases3)
  with assms(2) have "res = Inr t" by simp
  with r show ?thesis
    by (cases rule: ResolveToken_cases)
      (use assms(1) in \<open>auto dest: GetByID_SomeD Select_in_pool\<close>)
qed

lemma ResolveToken_frame [frame]:
  assumes "ResolveToken D K c g s m = (res, s', m')"
  shows "real_tokens s' = real_tokens s" "gate_tokens s' = gate_tokens s" "usage_logs s' = usage_logs s"
    "pl_tokens (mg_pool m') = pl_tokens (mg_pool m)"
    "pl_maxFailures (mg_pool m') = pl_maxFailures (mg_pool m)"
    "mg_stickyTTL m' = mg_stickyTTL m" "mg_maxFailures m' = mg_maxFailures m"
    "mg_refreshAt m' = mg_refreshAt m"
  using assms by (cases rule: ResolveToken_cases; simp add: frame)+

lemma ResolveToken_db_ok [preserves]:
  assumes "db_ok s" "ResolveToken D K c g s m = (res, s', m')"
  shows "db_ok s'"
  using assms(2) by (cases rule: ResolveToken_cases) (use assms(1) in \<open>simp_all add: Bind_db_ok\<close>)

lemma ResolveToken_mgr_ok:
  assumes "mgr_ok m" "ResolveToken D K c g s m = (res, s', m')"
  shows "mgr_ok m'"
  using assms(1) ResolveToken_frame [OF assms(2)] by (auto simp: mgr_ok_def pool_ok_def)

lemma GetRealToken_row:
  assumes "no_fault c" "find_real s i = Some r" "real_readable D r"
  shows "GetRealToken D c i s = Inr (view_real D r)"
  using assms by (simp add: GetRealToken_def query_row_def find_real_def scan_view_real)

lemma RecordFailure_db_ok [preserves]:
  assumes "db_ok s"
  shows "db_ok (fst (snd (RecordFailure D c i s m)))"
proof -
  have 1: "db_ok (snd (IncrementRealTokenFailure c i s))"
    by (rule IncrementRealTokenFailure_db_ok [OF assms])
  have 2: "db_ok (snd (SetRealTokenActive (later 2 c) i False (snd (IncrementRealTokenFailure c i s))))"
    by (rule SetRealTokenActive_db_ok [OF 1])
  from 1 2 show ?thesis
    by (auto simp: RecordFailure_def split: prod.splits option.splits sum.splits)
qed

lemma RecordFailure_mgr [frame]:
  "snd (snd (RecordFailure D c i s m)) \<in> {m, RefreshPool (clock c) m}"
  by (auto simp: RecordFailure_def split: prod.splits option.splits sum.splits)

end
