(* ===== verification/Token_Properties.thy ===== *)
theory Token_Properties
  imports Manager
begin

text \<open>
  What the token package promises: fair rotation, exclusion, sticky affinity, automatic
  deactivation and the effect of a pool refresh.
\<close>

section \<open>Round robin\<close>

lemma mset_rotate: "mset (rotate n xs) = mset xs"
  by (metis append_take_drop_id mset_append rotate_drop_take union_commute)

lemma rotated_scan:
  assumes "xs \<noteq> []"
  shows "map (\<lambda>i. xs ! ((c + i) mod length xs)) [0..<length xs] = rotate c xs"
  by (rule nth_equalityI) (use assms in \<open>auto simp: nth_rotate\<close>)

lemma rotated_scans:
  assumes "xs \<noteq> []"
  shows "map (\<lambda>i. xs ! ((c + i) mod length xs)) [0..<k * length xs] = concat (replicate k (rotate c xs))"
proof (induction k)
  case 0
  then show ?case by simp
next
  case (Suc k)
  let ?n = "length xs" and ?f = "\<lambda>i. xs ! ((c + i) mod length xs)"
  have split: "[0..<Suc k * ?n] = [0..<?n] @ map (\<lambda>i. i + ?n) [0..<k * ?n]"
    using upt_add_eq_append [of 0 ?n "k * ?n"] by (simp only: map_add_upt mult_Suc le0 add.commute [of "k * ?n"])
  have shift: "?f (i + ?n) = ?f i" for i
    by (simp add: add.assoc [symmetric])
  have "map ?f [0..<Suc k * ?n] = map ?f [0..<?n] @ map ?f [0..<k * ?n]"
    by (simp only: split map_append map_map comp_def shift)
  then show ?case by (simp only: Suc.IH rotated_scan [OF assms] replicate_Suc concat.simps)
qed

text \<open>
  C27: Fairness of the round robin.  Over \<open>k\<close> full rounds of consecutive selections without
  exclusions, every token of the pool is handed out exactly \<open>k\<close> times, wherever the atomic
  counter stands, as long as the 64-bit counter does not wrap during them.
\<close>
theorem round_robin_fair:
  assumes "pool_sized p" "pl_tokens p \<noteq> []"
    and "unat (pl_counter p) + k * length (pl_tokens p) < 2 ^ 64"
  shows "mset (fst (select_run (k * length (pl_tokens p)) p)) = repeat_mset k (mset (map Inr (pl_tokens p)))"
proof -
  let ?xs = "map Inr (pl_tokens p) :: (go_error + RealToken) list"
  have "fst (select_run (k * length (pl_tokens p)) p) =
      map (\<lambda>i. ?xs ! ((unat (pl_counter p) + i) mod length ?xs)) [0..<k * length ?xs]"
    using assms by (simp add: select_run_tokens)
  also have "\<dots> = concat (replicate k (rotate (unat (pl_counter p)) ?xs))"
    using assms(2) by (intro rotated_scans) simp
  finally have "mset (fst (select_run (k * length (pl_tokens p)) p)) =
      mset (concat (replicate k (rotate (unat (pl_counter p)) ?xs)))"
    by simp
  also have "\<dots> = repeat_mset k (mset ?xs)"
    by (induction k) (simp_all add: mset_rotate)
  finally show ?thesis .
qed

definition sample_token :: "string \<Rightarrow> RealToken" where
  "sample_token i =
     \<lparr>rt_ID = i, rt_Name = i, rt_AccessToken = i, rt_RefreshToken = [], rt_IsActive = True,
      rt_FailureCount = 0, rt_LastFailureAt = None, rt_LastUsedAt = None,
      rt_TotalInputTokens = 0, rt_TotalOutputTokens = 0, rt_CreatedAt = UTC 0, rt_UpdatedAt = UTC 0\<rparr>"

definition sample_pool :: pool where
  "sample_pool = \<lparr>pl_tokens = [sample_token ''a'', sample_token ''b''], pl_counter = 1, pl_maxFailures = 5\<rparr>"

theorem round_robin_fair_witness:
  "mset (fst (select_run (3 * 2) sample_pool))
    = repeat_mset 3 {#Inr (sample_token ''a''), Inr (sample_token ''b'')#}"
  using round_robin_fair [of sample_pool 3]
  by (simp add: sample_pool_def pool_sized_def)

text \<open>
  Exclusion.  \<open>Select\<close> with an exclusion set returns a pool token that is not excluded, and it
  returns \<open>ErrNoAvailableTokens\<close> exactly when every token of the pool is excluded: the scan
  visits every slot.
\<close>
theorem select_respects_exclusion:
  assumes "pool_sized p" "unat (pl_counter p) + length (pl_tokens p) < 2 ^ 64"
  shows "(case fst (Select excl p) of
            Inr t \<Rightarrow> t \<in> set (pl_tokens p) \<and> \<not> excluded excl (rt_ID t)
          | Inl e \<Rightarrow> e = ErrNoAvailableTokens \<and> (\<forall>t\<in>set (pl_tokens p). excluded excl (rt_ID t)))"
proof (cases "fst (Select excl p)")
  case (Inl e)
  then have "e = ErrNoAvailableTokens"
    by (auto simp: Select_def Let_def select_loop_Inl split: if_splits)
  with Inl Select_fails_iff [OF assms, of excl] show ?thesis by simp
next
  case (Inr t)
  with Select_in_pool [OF assms(1)] show ?thesis by simp
qed

theorem select_respects_exclusion_witness:
  "fst (Select (Some [''b'' \<mapsto> True]) sample_pool) = Inr (sample_token ''a'')"
  using select_respects_exclusion [of sample_pool "Some [''b'' \<mapsto> True]"]
  by (auto simp: sample_pool_def pool_sized_def sample_token_def excluded_def split: sum.splits)

section \<open>Resolution\<close>

text \<open>
  A resolved token is usable.  Whatever the cache, the database and the failures of the
  calls, \<open>ResolveToken\<close> only returns a token of the current pool snapshot, and every token of
  a snapshot was active and below the failure limit when it was read.
\<close>
theorem resolve_returns_usable:
  assumes "mgr_ok m" "pool_sized (mg_pool m)" "fst (ResolveToken D K c g s m) = Inr t"
  shows "t \<in> set (pl_tokens (mg_pool m)) \<and> rt_IsActive t \<and> rt_FailureCount t < mg_maxFailures m"
  using ResolveToken_member [OF assms(2,3)] assms(1)
  by (auto simp: mgr_ok_def pool_ok_def usable_def)

definition sample_manager :: "string items manager" where
  "sample_manager = (NewManager 5 600 (\<lambda>_. None))\<lparr>mg_pool := sample_pool\<rparr>"

lemma sample_manager_ok: "mgr_ok sample_manager" "pool_sized (mg_pool sample_manager)"
  by (simp_all add: sample_manager_def mgr_ok_def sample_pool_def pool_ok_def usable_def
      sample_token_def NewManager_def pool_sized_def)

lemma sample_resolve:
  "fst (ResolveToken text_driver item_cache (call_at 0) ''g'' empty_db sample_manager) = Inr (sample_token ''b'')"
proof -
  have "Resolve text_driver item_cache (call_at 0) ''g'' empty_db (mg_cache sample_manager) = (None, \<lambda>_. None)"
    by (simp add: Resolve_def sample_manager_def NewManager_def items_get_def GetStickySession_def
        query_row_def empty_db_def)
  moreover have "fst (Select None (mg_pool sample_manager)) = Inr (sample_token ''b'')"
    using sample_manager_ok(2) by (simp add: Select_nil sample_manager_def sample_pool_def)
  ultimately show ?thesis
    by (auto simp: ResolveToken_def Let_def sample_manager_def split: prod.splits sum.splits)
qed

theorem resolve_returns_usable_witness:
  "sample_token ''b'' \<in> set (pl_tokens (mg_pool sample_manager)) \<and>
   rt_IsActive (sample_token ''b'') \<and> rt_FailureCount (sample_token ''b'') < mg_maxFailures sample_manager"
  by (rule resolve_returns_usable [OF sample_manager_ok sample_resolve])

text \<open>
  Resolution fails only for want of tokens.  \<open>ResolveToken\<close> returns an error exactly when
  the pool is empty, and the error is \<open>ErrNoAvailableTokens\<close>: a database that is down, a full
  miss of the cache or a binding to a token that has left the pool never fail a request.
\<close>
theorem resolve_error_iff_empty:
  assumes "pool_sized (mg_pool m)"
  shows "fst (ResolveToken D K c g s m) = Inl e \<longleftrightarrow> e = ErrNoAvailableTokens \<and> pl_tokens (mg_pool m) = []"
proof -
  obtain res s' m' where r: "ResolveToken D K c g s m = (res, s', m')" by (metis prod_cases3)
  then show ?thesis
  proof (cases rule: ResolveToken_cases)
    case (sticky i t ch)
    then have "t \<in> set (pl_tokens (mg_pool m))" by (simp add: GetByID_SomeD)
    with sticky r show ?thesis by auto
  next
    case (chosen o' ch t)
    then have "pl_tokens (mg_pool m) \<noteq> []"
      using Select_None_error [OF assms, of ErrNoAvailableTokens] by auto
    with chosen r show ?thesis by auto
  next
    case (none o' ch e')
    with r Select_None_error [OF assms, of e'] show ?thesis by auto
  qed
qed

theorem resolve_error_iff_empty_witness:
  "fst (ResolveToken text_driver item_cache (call_at 0) ''g'' empty_db (NewManager 5 600 (\<lambda>_. None)))
     = Inl ErrNoAvailableTokens"
proof -
  have "pool_sized (mg_pool (NewManager 5 600 (\<lambda>_. None) :: string items manager))"
    by (simp add: pool_sized_def NewManager_def NewTokenPool_def)
  from resolve_error_iff_empty [OF this, of text_driver item_cache "call_at 0" "''g''" empty_db ErrNoAvailableTokens]
  show ?thesis by (simp add: NewManager_def NewTokenPool_def)
qed

section \<open>Sticky sessions\<close>

text \<open>A sequence of requests of one gate token, at given instants, over an unchanged pool.\<close>

fun resolve_run ::
  "driver \<Rightarrow> ('c, string) ttlcache \<Rightarrow> callenv list \<Rightarrow> string \<Rightarrow> db \<Rightarrow> 'c manager \<Rightarrow>
     (go_error + RealToken) list" where
  "resolve_run D K [] g s m = []"
| "resolve_run D K (c # cs) g s m =
     (case ResolveToken D K c g s m of (r, s', m') \<Rightarrow> r # resolve_run D K cs g s' m')"

text \<open>Each request comes less than \<open>ttl\<close> after the one before.\<close>

fun close_together :: "int \<Rightarrow> int \<Rightarrow> callenv list \<Rightarrow> bool" where
  "close_together ttl t [] = True"
| "close_together ttl t (c # cs) = (t \<le> clock c \<and> clock c < t + ttl \<and> close_together ttl (clock c) cs)"

lemma ResolveToken_sticky_hit:
  assumes "cache_laws K" "tc_entry K (mg_cache m) g = Some (i, ttl, t0 + ttl)" "0 < ttl"
    "clock c < t0 + ttl" "GetByID i (mg_pool m) = Some t"
  shows "\<exists>ch. ResolveToken D K c g s m = (Inr t, s, m\<lparr>mg_cache := ch\<rparr>) \<and>
    tc_entry K ch = (tc_entry K (mg_cache m))(g := Some (i, ttl, clock c + ttl))"
  using Resolve_hit [OF assms(1-4), of D s] assms(5)
  by (auto simp: ResolveToken_def Let_def)

lemma resolve_run_sticky:
  assumes "cache_laws K" "0 < ttl"
    "tc_entry K (mg_cache m) g = Some (i, ttl, t0 + ttl)"
    "GetByID i (mg_pool m) = Some t" "close_together ttl t0 cs"
  shows "resolve_run D K cs g s m = replicate (length cs) (Inr t)"
  using assms(3-)
proof (induction cs arbitrary: m t0)
  case Nil
  then show ?case by simp
next
  case (Cons c cs)
  then obtain ch where step: "ResolveToken D K c g s m = (Inr t, s, m\<lparr>mg_cache := ch\<rparr>)"
    and entry: "tc_entry K ch = (tc_entry K (mg_cache m))(g := Some (i, ttl, clock c + ttl))"
    using ResolveToken_sticky_hit [OF assms(1) _ assms(2), of m g i t0 c t D s] by auto
  have "resolve_run D K cs g s (m\<lparr>mg_cache := ch\<rparr>) = replicate (length cs) (Inr t)"
    using Cons.prems by (intro Cons.IH [of _ "clock c"]) (simp_all add: entry)
  with step show ?case by simp
qed

lemma ResolveToken_binds:
  assumes "no_fault c" "cache_laws K" "0 < mg_stickyTTL m" "g \<in> gate_ids s" "rt_ID t \<in> real_ids s"
    "fst (Resolve D K c g s (mg_cache m)) = None" "ResolveToken D K c g s m = (Inr t, s', m')"
  shows "tc_entry K (mg_cache m') g = Some (rt_ID t, mg_stickyTTL m, clock c + mg_stickyTTL m)"
    and "mg_pool m' = snd (Select None (mg_pool m))"
    and "s' = put_sticky g (rt_ID t) (Bound (UTC (clock c + mg_stickyTTL m))) s"
proof -
  obtain ch where r: "Resolve D K c g s (mg_cache m) = (None, ch)"
    using assms(6) by (cases "Resolve D K c g s (mg_cache m)") auto
  from assms(7) r have m': "m' = m\<lparr>mg_pool := snd (Select None (mg_pool m)),
      mg_cache := snd (snd (Bind K (later 1 c) g (rt_ID t) (mg_stickyTTL m) s ch))\<rparr>"
    and s': "s' = fst (snd (Bind K (later 1 c) g (rt_ID t) (mg_stickyTTL m) s ch))"
    by (cases rule: ResolveToken_cases; simp)+
  have "Bind K (later 1 c) g (rt_ID t) (mg_stickyTTL m) s ch =
      (None, put_sticky g (rt_ID t) (Bound (UTC (clock c + mg_stickyTTL m))) s,
       tc_set K ch (clock c) g (rt_ID t) (mg_stickyTTL m))"
    using assms by (simp add: Bind_no_fault)
  with m' s' assms(2,3) show
    "tc_entry K (mg_cache m') g = Some (rt_ID t, mg_stickyTTL m, clock c + mg_stickyTTL m)"
    "mg_pool m' = snd (Select None (mg_pool m))"
    "s' = put_sticky g (rt_ID t) (Bound (UTC (clock c + mg_stickyTTL m))) s"
    by (simp_all add: cache_set)
qed

text \<open>
  C32: Affinity, and its sliding window.  Once a gate token without a live binding has been
  given a real token \<open>t\<close> (the calls succeed, the two rows exist), every further request that
  comes less than the TTL after the previous one is served by the pool entry with \<open>t\<close>'s
  identifier, however long the sequence of requests lasts: each hit renews the binding for
  a full TTL.
\<close>
theorem sticky_affinity_slides:
  assumes "no_fault c" "cache_laws K" "0 < mg_stickyTTL m" "g \<in> gate_ids s" "rt_ID t \<in> real_ids s"
    and "fst (Resolve D K c g s (mg_cache m)) = None"
    and "ResolveToken D K c g s m = (Inr t, s', m')"
    and "GetByID (rt_ID t) (mg_pool m') = Some t'"
    and "close_together (mg_stickyTTL m) (clock c) cs"
  shows "resolve_run D K cs g s' m' = replicate (length cs) (Inr t')"
proof -
  have "tc_entry K (mg_cache m') g = Some (rt_ID t, mg_stickyTTL m, clock c + mg_stickyTTL m)"
    using assms(1-7) by (rule ResolveToken_binds)
  from resolve_run_sticky [OF assms(2,3) this assms(8,9)] show ?thesis .
qed

text \<open>A concrete store, manager and request, for the witnesses.\<close>

definition sample_real :: "string \<Rightarrow> real_row" where
  "sample_real i =
     \<lparr>rr_id = i, rr_name = i, rr_access = i, rr_refresh = [], rr_active = 1, rr_failures = 0,
      rr_last_failure = None, rr_last_used = None, rr_in = 0, rr_out = 0,
      rr_created = Bound (UTC 0), rr_updated = Bound (UTC 0)\<rparr>"

definition sample_gate :: "string \<Rightarrow> gate_row" where
  "sample_gate i =
     \<lparr>gr_id = i, gr_token = ''gate-'' @ i, gr_name = i, gr_active = 1, gr_in = 0, gr_out = 0,
      gr_created = Bound (UTC 0), gr_updated = Bound (UTC 0)\<rparr>"

definition sample_db :: db where
  "sample_db = empty_db\<lparr>real_tokens := [sample_real ''a'', sample_real ''b''],
     gate_tokens := [sample_gate ''g'', sample_gate ''h'']\<rparr>"

lemma sample_db_ok: "db_ok sample_db"
  by (simp add: sample_db_def sample_real_def sample_gate_def empty_db_def db_ok_defs)

lemma sample_resolve_steps:
  "fst (Resolve text_driver item_cache (call_at 0) ''g'' sample_db (mg_cache sample_manager)) = None"
  "ResolveToken text_driver item_cache (call_at 0) ''g'' sample_db sample_manager =
     (Inr (sample_token ''b''),
      put_sticky ''g'' ''b'' (Bound (UTC 600)) sample_db,
      sample_manager\<lparr>mg_pool := sample_pool\<lparr>pl_counter := 2\<rparr>,
        mg_cache := (\<lambda>_. None)(''g'' := Some (''b'', 600, 600))\<rparr>)"
proof -
  have r: "Resolve text_driver item_cache (call_at 0) ''g'' sample_db (\<lambda>_. None) = (None, \<lambda>_. None)"
    by (simp add: Resolve_def items_get_def GetStickySession_def query_row_def sample_db_def empty_db_def)
  then show "fst (Resolve text_driver item_cache (call_at 0) ''g'' sample_db (mg_cache sample_manager)) = None"
    by (simp add: sample_manager_def NewManager_def)
  have "pool_sized sample_pool" "pl_tokens sample_pool \<noteq> []"
    by (simp_all add: sample_pool_def pool_sized_def)
  then have sel: "Select None sample_pool = (Inr (sample_token ''b''), sample_pool\<lparr>pl_counter := 2\<rparr>)"
    using Select_nil [of sample_pool] by (simp add: sample_pool_def prod_eq_iff)
  have bind: "Bind item_cache (later 1 (call_at 0)) ''g'' ''b'' 600 sample_db (\<lambda>_. None) =
      (None, put_sticky ''g'' ''b'' (Bound (UTC 600)) sample_db,
       (\<lambda>_. None)(''g'' := Some (''b'', 600, 600)))"
    by (subst Bind_no_fault)
      (simp_all add: sample_db_def empty_db_def gate_ids_def real_ids_def sample_gate_def sample_real_def)
  have id: "rt_ID (sample_token ''b'') = ''b''" by (simp add: sample_token_def)
  show "ResolveToken text_driver item_cache (call_at 0) ''g'' sample_db sample_manager =
     (Inr (sample_token ''b''),
      put_sticky ''g'' ''b'' (Bound (UTC 600)) sample_db,
      sample_manager\<lparr>mg_pool := sample_pool\<lparr>pl_counter := 2\<rparr>,
        mg_cache := (\<lambda>_. None)(''g'' := Some (''b'', 600, 600))\<rparr>)"
    using r sel bind id by (simp add: ResolveToken_def sample_manager_def NewManager_def Let_def)
qed

theorem sticky_affinity_slides_witness:
  "resolve_run text_driver item_cache (map call_at [400, 900, 1400]) ''g''
     (put_sticky ''g'' ''b'' (Bound (UTC 600)) sample_db)
     (sample_manager\<lparr>mg_pool := sample_pool\<lparr>pl_counter := 2\<rparr>,
        mg_cache := (\<lambda>_. None)(''g'' := Some (''b'', 600, 600))\<rparr>)
   = replicate 3 (Inr (sample_token ''b''))"
proof -
  have rt: "rt_ID (sample_token ''b'') = ''b''" by (simp add: sample_token_def)
  have ids: "''g'' \<in> gate_ids sample_db" "rt_ID (sample_token ''b'') \<in> real_ids sample_db"
    by (simp_all add: sample_db_def empty_db_def gate_ids_def real_ids_def sample_gate_def sample_real_def
        sample_token_def)
  have ttl: "mg_stickyTTL sample_manager = 600" by (simp add: sample_manager_def NewManager_def)
  show ?thesis
    using sticky_affinity_slides [OF _ item_cache_laws _ ids sample_resolve_steps,
        of "sample_token ''b''" "map call_at [400, 900, 1400]"]
    by (simp add: ttl GetByID_def sample_pool_def sample_token_def numeral_3_eq_3)
qed

text \<open>
  Requests of one gate token do not disturb the others.  A resolution for \<open>g\<close> leaves the
  cached binding and the persisted binding of every other gate token as they were, and all
  other tables.
\<close>
theorem resolve_isolated:
  assumes "cache_laws K" "0 < mg_stickyTTL m" "h \<noteq> g"
    and "\<And>v ttl e. tc_entry K (mg_cache m) g = Some (v, ttl, e) \<Longrightarrow> 0 < ttl \<and> e \<noteq> clock c"
    and "ResolveToken D K c g s m = (res, s', m')"
  shows "tc_entry K (mg_cache m') h = tc_entry K (mg_cache m) h \<and>
    find_sticky s' h = find_sticky s h \<and> real_tokens s' = real_tokens s \<and>
    gate_tokens s' = gate_tokens s \<and> usage_logs s' = usage_logs s"
proof -
  let ?ch = "mg_cache m"
  have get: "tc_entry K (snd (tc_get K ?ch (clock c) g)) h = tc_entry K ?ch h"
  proof (cases "tc_entry K ?ch g")
    case None
    with assms(1,3) show ?thesis by (simp add: cache_laws_def cache_miss_law_def)
  next
    case (Some x)
    obtain v ttl e where x: "x = (v, ttl, e)" by (metis prod_cases3)
    with Some assms(4) have "0 < ttl" "e \<noteq> clock c" by blast+
    with Some x assms(1,3) show ?thesis
      by (cases "clock c < e")
        (simp_all add: cache_laws_def cache_hit_law_def cache_miss_law_def)
  qed
  have resolve: "tc_entry K (snd (Resolve D K c g s ?ch)) h = tc_entry K ?ch h"
    using get assms(1,3)
    by (auto simp: Resolve_def Let_def cache_set split: prod.splits option.splits sum.splits)
  have bind: "tc_entry K (snd (snd (Bind K c' g r (mg_stickyTTL m) s ch))) h = tc_entry K ch h"
    "find_sticky (fst (snd (Bind K c' g r (mg_stickyTTL m) s ch))) h = find_sticky s h" for c' r ch
    using assms(1-3)
    by (auto simp: Bind_cases UpsertStickySession_def cache_set find_put_sticky split: prod.splits)
  from assms(5) show ?thesis
    by (cases rule: ResolveToken_cases) (use resolve bind ResolveToken_frame [OF assms(5)] in simp_all)
qed

theorem resolve_isolated_witness:
  "find_sticky (put_sticky ''g'' ''b'' (Bound (UTC 600)) sample_db) ''h'' = find_sticky sample_db ''h''"
  using resolve_isolated [OF item_cache_laws, of sample_manager "''h''" "''g''" "call_at 0",
      OF _ _ _ sample_resolve_steps(2)]
  by (simp add: sample_manager_def NewManager_def)

end
