(* ===== verification/Failure_Properties.thy ===== *)
theory Failure_Properties
  imports Token_Properties
begin

text \<open>
  Automatic deactivation: what \<open>RecordFailure\<close> does on each outcome of its three store calls,
  when a failing token is switched off, and that a switched-off token leaves the pool.
\<close>

section \<open>One failure\<close>

definition failed_row :: "int \<Rightarrow> real_row \<Rightarrow> real_row" where
  "failed_row t r = r\<lparr>rr_failures := rr_failures r + 1, rr_last_failure := Some (DtNow t),
     rr_updated := DtNow t\<rparr>"

definition switched_off :: "int \<Rightarrow> real_row \<Rightarrow> real_row" where
  "switched_off t r = r\<lparr>rr_active := 0, rr_updated := DtNow t\<rparr>"

lemma failed_row_sel [simp]:
  "rr_id (failed_row t r) = rr_id r" "rr_failures (failed_row t r) = rr_failures r + 1"
  "rr_active (failed_row t r) = rr_active r" "rr_access (failed_row t r) = rr_access r"
  by (simp_all add: failed_row_def)

lemma switched_off_sel [simp]:
  "rr_id (switched_off t r) = rr_id r" "rr_failures (switched_off t r) = rr_failures r"
  "rr_active (switched_off t r) = 0" "rr_access (switched_off t r) = rr_access r"
  by (simp_all add: switched_off_def)

lemma readable_now: "driver_reads D \<Longrightarrow> era t \<Longrightarrow> readable D (DtNow t)"
  by (simp add: driver_reads_def readable_def)

lemma failed_row_readable:
  "driver_reads D \<Longrightarrow> era t \<Longrightarrow> real_readable D r \<Longrightarrow> real_readable D (failed_row t r)"
  by (simp add: real_readable_def failed_row_def readable_now)

lemma switched_off_readable:
  "driver_reads D \<Longrightarrow> era t \<Longrightarrow> real_readable D r \<Longrightarrow> real_readable D (switched_off t r)"
  by (simp add: real_readable_def switched_off_def readable_now)

lemma Increment_no_fault:
  "no_fault c \<Longrightarrow> IncrementRealTokenFailure c i s = (None, update_real i (failed_row (clock c)) s)"
  by (simp add: IncrementRealTokenFailure_def failed_row_def [abs_def])

lemma Deactivate_no_fault:
  assumes "no_fault c" "i \<in> real_ids s"
  shows "SetRealTokenActive c i False s = (None, update_real i (switched_off (clock c)) s)"
  using assms count_token_ids(1) [of i s]
  by (simp add: SetRealTokenActive_def Let_def boolToInt_def affected_err_def switched_off_def [abs_def])

lemma RecordFailure_no_fault:
  assumes "no_fault c" "driver_reads D" "era (clock c)" "find_real s i = Some r" "real_readable D r"
  shows "RecordFailure D c i s m =
    (None,
     (if mg_maxFailures m \<le> rr_failures r + 1
      then update_real i (switched_off (clock c)) (update_real i (failed_row (clock c)) s)
      else update_real i (failed_row (clock c)) s),
     RefreshPool (clock c) m)"
proof -
  let ?s1 = "update_real i (failed_row (clock c)) s" and ?r1 = "failed_row (clock c) r"
  have found: "find_real ?s1 i = Some ?r1"
    by (simp add: find_real_update_same assms(4))
  have ok: "real_readable D ?r1" by (rule failed_row_readable [OF assms(2,3,5)])
  have get: "GetRealToken D (later 1 c) i ?s1 = Inr (view_real D ?r1)"
    by (rule GetRealToken_row [OF _ found ok]) (simp add: assms(1))
  have "i \<in> real_ids ?s1" using found find_real_None [of ?s1 i] by auto
  then have "SetRealTokenActive (later 2 c) i False ?s1 =
      (None, update_real i (switched_off (clock c)) ?s1)"
    using assms(1) Deactivate_no_fault [of "later 2 c" i ?s1] by simp
  with get view_real_sel(4) [OF ok] show ?thesis
    by (simp add: RecordFailure_def Increment_no_fault [OF assms(1)])
qed

section \<open>A sequence of failures\<close>

fun record_failures :: "driver \<Rightarrow> callenv list \<Rightarrow> string \<Rightarrow> db \<Rightarrow> 'c manager \<Rightarrow> db \<times> 'c manager" where
  "record_failures D [] i s m = (s, m)"
| "record_failures D (c # cs) i s m =
     (case RecordFailure D c i s m of (_, s', m') \<Rightarrow> record_failures D cs i s' m')"

lemma find_after_failure:
  assumes "no_fault c" "driver_reads D" "era (clock c)" "find_real s i = Some r" "real_readable D r"
    "RecordFailure D c i s m = (e, s', m')"
  obtains r' where "find_real s' i = Some r'" "real_readable D r'" "rr_failures r' = rr_failures r + 1"
    "rr_active r' = (if mg_maxFailures m \<le> rr_failures r + 1 then 0 else rr_active r)"
    "mg_maxFailures m' = mg_maxFailures m"
proof -
  let ?r1 = "failed_row (clock c) r"
  define r' where "r' = (if mg_maxFailures m \<le> rr_failures r + 1 then switched_off (clock c) ?r1 else ?r1)"
  have "find_real s' i = Some r'"
    using assms(6) RecordFailure_no_fault [OF assms(1-5), of m] assms(4)
    by (auto simp: r'_def find_real_update_same)
  moreover have "real_readable D r'"
    using assms(2,3,5) by (simp add: r'_def failed_row_readable switched_off_readable)
  moreover have "mg_maxFailures m' = mg_maxFailures m"
    using assms(6) RecordFailure_no_fault [OF assms(1-5), of m] by (auto simp: RefreshPool_def)
  ultimately show ?thesis by (intro that [of r']) (simp_all add: r'_def)
qed

lemma failures_recorded:
  assumes "driver_reads D" "\<forall>c\<in>set cs. no_fault c \<and> era (clock c)" "cs \<noteq> []"
    and "find_real s i = Some r" "real_readable D r" "record_failures D cs i s m = (s', m')"
  shows "m' = RefreshPool (clock (last cs)) m \<and>
    (\<exists>r'. find_real s' i = Some r' \<and> rr_failures r' = rr_failures r + int (length cs) \<and>
       rr_active r' = (if mg_maxFailures m \<le> rr_failures r' then 0 else rr_active r))"
  using assms(2-)
proof (induction cs arbitrary: s m r)
  case Nil
  then show ?case by simp
next
  case (Cons c cs)
  then have c: "no_fault c" "era (clock c)" by simp_all
  obtain e s1 m1 where step: "RecordFailure D c i s m = (e, s1, m1)" by (metis prod_cases3)
  have m1: "m1 = RefreshPool (clock c) m"
    using step RecordFailure_no_fault [OF c(1) assms(1) c(2) Cons.prems(3,4), of m] by simp
  obtain r1 where r1: "find_real s1 i = Some r1" "real_readable D r1" "rr_failures r1 = rr_failures r + 1"
    "rr_active r1 = (if mg_maxFailures m \<le> rr_failures r + 1 then 0 else rr_active r)"
    "mg_maxFailures m1 = mg_maxFailures m"
    by (rule find_after_failure [OF c(1) assms(1) c(2) Cons.prems(3,4) step])
  show ?case
  proof (cases "cs = []")
    case True
    with Cons.prems(5) step have "s' = s1" "m' = m1" by simp_all
    with True r1 m1 show ?thesis by auto
  next
    case False
    have "record_failures D cs i s1 m1 = (s', m')"
      using Cons.prems(5) step by simp
    with Cons.IH [of s1 r1 m1] False r1 Cons.prems(1) obtain r' where
      "m' = RefreshPool (clock (last cs)) m1"
      "find_real s' i = Some r'" "rr_failures r' = rr_failures r1 + int (length cs)"
      "rr_active r' = (if mg_maxFailures m1 \<le> rr_failures r' then 0 else rr_active r1)"
      by auto
    with r1 m1 False show ?thesis by (auto simp: RefreshPool_def)
  qed
qed

text \<open>
  The failure limit.  After \<open>n > 0\<close> recorded failures of a token (the store answers), its
  failure count has grown by exactly \<open>n\<close>, and it is switched off from the moment the count
  reaches the limit and otherwise as active as before.
\<close>
theorem failure_limit:
  assumes "driver_reads D" "\<forall>c\<in>set cs. no_fault c \<and> era (clock c)" "cs \<noteq> []"
    and "find_real s i = Some r" "real_readable D r" "record_failures D cs i s m = (s', m')"
  shows "\<exists>r'. find_real s' i = Some r' \<and> rr_failures r' = rr_failures r + int (length cs) \<and>
    rr_active r' = (if mg_maxFailures m \<le> rr_failures r' then 0 else rr_active r)"
  using failures_recorded [OF assms] by blast

lemma sample_real_ok: "find_real sample_db ''a'' = Some (sample_real ''a'')"
  "real_readable text_driver (sample_real ''a'')"
  by (simp_all add: find_real_def sample_db_def sample_real_def real_readable_def readable_def)

lemma era_small [simp]: "0 \<le> t \<Longrightarrow> t \<le> 10 ^ 18 \<Longrightarrow> era t"
  by (simp add: era_def second_def)

theorem failure_limit_witness:
  "\<exists>r'. find_real (fst (record_failures text_driver (replicate 5 (call_at 7)) ''a'' sample_db sample_manager)) ''a'' = Some r'
     \<and> rr_failures r' = 5 \<and> rr_active r' = 0"
proof -
  let ?cs = "replicate 5 (call_at 7)"
  obtain s' m' where run: "record_failures text_driver ?cs ''a'' sample_db sample_manager = (s', m')"
    by fastforce
  have "\<forall>c\<in>set ?cs. no_fault c \<and> era (clock c)" "?cs \<noteq> []" by simp_all
  from failure_limit [OF text_driver_reads this sample_real_ok run] show ?thesis
    using run by (auto simp: sample_real_def sample_manager_def NewManager_def)
qed

section \<open>Every outcome\<close>

lemma RecordFailure_outcomes:
  assumes "RecordFailure D c i s m = (e, s', m')"
  shows "(fails c 0 \<longrightarrow> e = Some ErrDriver \<and> s' = s)"
    "(no_fault c \<and> i \<notin> real_ids s \<longrightarrow> e = Some ErrNoRows \<and> s' = s)"
    "m' = (if e = None then RefreshPool (clock c) m else m)"
    "(\<forall>j. j \<noteq> i \<longrightarrow> find_real s' j = find_real s j)"
    "gate_tokens s' = gate_tokens s \<and> usage_logs s' = usage_logs s \<and> sticky_sessions s' = sticky_sessions s"
proof -
  note defs = RecordFailure_def IncrementRealTokenFailure_def SetRealTokenActive_def Let_def
  show "fails c 0 \<longrightarrow> e = Some ErrDriver \<and> s' = s"
    using assms by (auto simp: defs)
  have "find_real (update_real i f s) i = None" "update_real i f s = s"
    if "i \<notin> real_ids s" "\<And>r. rr_id (f r) = rr_id r" for f
    using that find_real_None [of s i] count_token_ids(1) [of i s]
    by (simp_all add: find_real_update_same update_real_def count_token_def update_where_none)
  then show "no_fault c \<and> i \<notin> real_ids s \<longrightarrow> e = Some ErrNoRows \<and> s' = s"
    using assms by (auto simp: defs GetRealToken_def query_row_def find_real_def [symmetric])
  show "m' = (if e = None then RefreshPool (clock c) m else m)"
    using assms by (auto simp: defs split: if_splits sum.splits prod.splits option.splits)
  show "\<forall>j. j \<noteq> i \<longrightarrow> find_real s' j = find_real s j"
    using assms by (auto simp: defs find_real_update_other split: if_splits sum.splits prod.splits option.splits)
  show "gate_tokens s' = gate_tokens s \<and> usage_logs s' = usage_logs s \<and> sticky_sessions s' = sticky_sessions s"
    using assms by (auto simp: defs split: if_splits sum.splits prod.splits option.splits)
qed

text \<open>
  The outcomes of \<open>RecordFailure\<close>.  If the increment fails nothing changes; if the token
  does not exist the caller gets \<open>sql.ErrNoRows\<close> and the database is unchanged; in every case
  where an error is returned no pool refresh is scheduled, and on success exactly one is, at the
  debounce deadline.  Rows of other tokens, gate tokens, bindings and logs are never touched.
\<close>
theorem record_failure_outcomes:
  assumes "RecordFailure D c i s m = (e, s', m')"
  shows "(fails c 0 \<longrightarrow> e = Some ErrDriver \<and> s' = s) \<and>
    (no_fault c \<and> i \<notin> real_ids s \<longrightarrow> e = Some ErrNoRows \<and> s' = s) \<and>
    m' = (if e = None then RefreshPool (clock c) m else m) \<and>
    (\<forall>j. j \<noteq> i \<longrightarrow> find_real s' j = find_real s j) \<and>
    gate_tokens s' = gate_tokens s \<and> usage_logs s' = usage_logs s \<and> sticky_sessions s' = sticky_sessions s"
  using RecordFailure_outcomes [OF assms] by blast

theorem record_failure_outcomes_witness:
  "RecordFailure text_driver (call_at 7) ''zzz'' sample_db sample_manager = (Some ErrNoRows, sample_db, sample_manager)"
proof -
  obtain e s' m' where r: "RecordFailure text_driver (call_at 7) ''zzz'' sample_db sample_manager = (e, s', m')"
    by (metis prod_cases3)
  have "''zzz'' \<notin> real_ids sample_db"
    by (simp add: real_ids_def sample_db_def sample_real_def)
  with record_failure_outcomes [OF r] r show ?thesis by simp
qed

section \<open>Refresh\<close>

lemma refreshFire_tokens:
  assumes "no_fault c" "\<And>r. r \<in> set (real_tokens s) \<Longrightarrow> real_readable D r"
  shows "pl_tokens (mg_pool (refreshFire D c s m)) = map (view_real D)
    (order_by (txt_le D) rr_created (filter (active_below (pl_maxFailures (mg_pool m))) (real_tokens s)))"
  using assms by (simp add: refreshFire_def Refresh_def ListActiveRealTokens_no_fault)

text \<open>
  A refresh makes the pool the usable tokens of the database, in order of creation: after the
  timer fires with a working store, the pool's identifiers are exactly those of the rows that are
  active and below the limit, and a lookup finds a token exactly when its row is.  A token that
  was deactivated or has failed too often is gone.
\<close>
theorem refresh_reflects_database:
  assumes "no_fault c" "keys_ok s" "\<forall>r\<in>set (real_tokens s). real_readable D r"
    and "m' = refreshFire D c s m"
  shows "(GetByID i (mg_pool m') \<noteq> None \<longleftrightarrow>
           (\<exists>r. find_real s i = Some r \<and> rr_active r = 1 \<and> rr_failures r < pl_maxFailures (mg_pool m)))
    \<and> mset (map rt_ID (pl_tokens (mg_pool m'))) =
        mset (map rr_id (filter (active_below (pl_maxFailures (mg_pool m))) (real_tokens s)))"
proof -
  let ?act = "filter (active_below (pl_maxFailures (mg_pool m))) (real_tokens s)"
  have toks: "pl_tokens (mg_pool m') = map (view_real D) (order_by (txt_le D) rr_created ?act)"
    using assms by (simp add: refreshFire_tokens)
  have ids: "rt_ID (view_real D r) = rr_id r" if "r \<in> set (real_tokens s)" for r
    using that assms(3) by (simp add: view_real_sel)
  have "image_mset (\<lambda>r. rt_ID (view_real D r)) (mset ?act) = image_mset rr_id (mset ?act)"
    by (rule image_mset_cong) (use ids in auto)
  then have ms: "mset (map rt_ID (pl_tokens (mg_pool m'))) = mset (map rr_id ?act)"
    by (simp add: toks multiset.map_comp comp_def)
  have "GetByID i (mg_pool m') \<noteq> None \<longleftrightarrow> i \<in> set (map rt_ID (pl_tokens (mg_pool m')))"
    by (auto simp: GetByID_def find_row_None)
  also have "\<dots> \<longleftrightarrow> i \<in> set (map rr_id ?act)"
    using ms by (metis mset_eq_setD)
  also have "\<dots> \<longleftrightarrow> (\<exists>r. find_real s i = Some r \<and> rr_active r = 1 \<and> rr_failures r < pl_maxFailures (mg_pool m))"
    using assms(2) by (auto simp: find_real_iff active_below_def)
  finally show ?thesis using ms by blast
qed

theorem refresh_reflects_database_witness:
  "GetByID ''a'' (mg_pool (refreshFire text_driver (call_at 7) sample_db sample_manager)) \<noteq> None"
proof -
  have "keys_ok sample_db" "\<forall>r\<in>set (real_tokens sample_db). real_readable text_driver r"
    using sample_db_ok by (simp_all add: db_ok_def sample_db_def sample_real_def real_readable_def readable_def)
  from refresh_reflects_database [OF _ this refl, of "call_at 7" "''a''" sample_manager]
  show ?thesis
    by (simp add: sample_real_ok) (simp add: sample_real_def sample_manager_def sample_pool_def)
qed

end
