(* ===== verification/Store_Properties.thy ===== *)
theory Store_Properties
  imports Sticky_Store
begin

text \<open>
  What the store promises over its tables.  The interface of the token tables (\<open>token_table\<close>)
  is a locale with one interpretation for the real tokens and one for the gate tokens.
\<close>

section \<open>The token tables\<close>

text \<open>
  The contract that \<open>real_token.go\<close> and \<open>gate_token.go\<close> share, and that the admin handlers use
  through \<open>setTokenActive\<close> and \<open>deleteToken\<close>: \<open>ids\<close> are the stored identifiers, \<open>rename\<close>,
  \<open>set_active\<close> and \<open>remove\<close> the three checked writes, \<open>name_of\<close> and \<open>active_of\<close> what a lookup sees.
\<close>

locale token_table =
  fixes ids :: "db \<Rightarrow> string set"
    and rename :: "callenv \<Rightarrow> string \<Rightarrow> string \<Rightarrow> db \<Rightarrow> go_error option \<times> db"
    and set_active :: "callenv \<Rightarrow> string \<Rightarrow> bool \<Rightarrow> db \<Rightarrow> go_error option \<times> db"
    and remove :: "callenv \<Rightarrow> string \<Rightarrow> db \<Rightarrow> go_error option \<times> db"
    and name_of :: "db \<Rightarrow> string \<Rightarrow> string option"
    and active_of :: "db \<Rightarrow> string \<Rightarrow> bool option"
  assumes rename_result: "no_fault c \<Longrightarrow> fst (rename c i n s) = (if i \<in> ids s then None else Some ErrNoRows)"
    and set_active_result: "no_fault c \<Longrightarrow> fst (set_active c i b s) = (if i \<in> ids s then None else Some ErrNoRows)"
    and remove_result: "no_fault c \<Longrightarrow> fst (remove c i s) = (if i \<in> ids s then None else Some ErrNoRows)"
    and rename_norows: "fst (rename c i n s) = Some ErrNoRows \<Longrightarrow> i \<notin> ids s \<and> snd (rename c i n s) = s"
    and set_active_norows: "fst (set_active c i b s) = Some ErrNoRows \<Longrightarrow> i \<notin> ids s \<and> snd (set_active c i b s) = s"
    and remove_norows: "fst (remove c i s) = Some ErrNoRows \<Longrightarrow> i \<notin> ids s"
    and remove_error: "fst (remove c i s) = Some e \<Longrightarrow> snd (remove c i s) = s"
    and rename_name: "fst (rename c i n s) = None \<Longrightarrow>
      name_of (snd (rename c i n s)) j = (if j = i then Some n else name_of s j)"
    and set_active_active: "fst (set_active c i b s) = None \<Longrightarrow>
      active_of (snd (set_active c i b s)) j = (if j = i then Some b else active_of s j)"
    and remove_ids: "fst (remove c i s) = None \<Longrightarrow> ids (snd (remove c i s)) = ids s - {i}"
    and rename_ids: "ids (snd (rename c i n s)) = ids s"
    and set_active_ids: "ids (snd (set_active c i b s)) = ids s"
begin

lemma remove_twice:
  assumes "no_fault c" "no_fault c'"
  shows "fst (remove c' i (snd (remove c i s))) = Some ErrNoRows"
proof (cases "i \<in> ids s")
  case True
  with assms(1) have "ids (snd (remove c i s)) = ids s - {i}"
    by (intro remove_ids) (simp add: remove_result)
  with assms(2) show ?thesis by (simp add: remove_result)
next
  case False
  with assms(1) have "fst (remove c i s) = Some ErrNoRows" by (simp add: remove_result)
  then have "snd (remove c i s) = s" by (rule remove_error)
  with False assms(2) show ?thesis by (simp add: remove_result)
qed

lemma missing_token:
  assumes "no_fault c" "i \<notin> ids s"
  shows "rename c i n s = (Some ErrNoRows, s) \<and> set_active c i b s = (Some ErrNoRows, s) \<and>
    remove c i s = (Some ErrNoRows, s)"
  using assms rename_norows set_active_norows remove_error
  by (simp add: prod_eq_iff rename_result set_active_result remove_result)

lemma last_activation_wins:
  assumes "no_fault c" "no_fault c'" "i \<in> ids s"
  shows "active_of (snd (set_active c' i b' (snd (set_active c i b s)))) i = Some b'"
  using assms by (simp add: set_active_active set_active_result set_active_ids)

end

definition real_name :: "db \<Rightarrow> string \<Rightarrow> string option" where
  "real_name s i = map_option rr_name (find_real s i)"

definition real_active :: "db \<Rightarrow> string \<Rightarrow> bool option" where
  "real_active s i = map_option (\<lambda>r. rr_active r = 1) (find_real s i)"

definition gate_name :: "db \<Rightarrow> string \<Rightarrow> string option" where
  "gate_name s i = map_option gr_name (find_gate s i)"

definition gate_active :: "db \<Rightarrow> string \<Rightarrow> bool option" where
  "gate_active s i = map_option (\<lambda>g. gr_active g = 1) (find_gate s i)"

lemma affected_err_cases:
  "affected_err f msg n = None \<longleftrightarrow> \<not> f \<and> n \<noteq> 0"
  "affected_err f msg n = Some ErrNoRows \<longleftrightarrow> \<not> f \<and> n = 0"
  by (auto simp: affected_err_def)

lemma withTx_cascade_ok:
  "fst (withTx c k (cascadeDelete c tab i) s) = None \<Longrightarrow>
     snd (withTx c k (cascadeDelete c tab i) s) = delete_token tab i (delete_usage tab i (delete_sticky tab i s))
     \<and> count_token tab i s \<noteq> 0"
  by (metis withTx_ok cascadeDelete_ok prod.collapse)

lemma withTx_cascade_norows:
  "fst (withTx c k (cascadeDelete c tab i) s) = Some ErrNoRows \<Longrightarrow> count_token tab i s = 0"
  by (auto simp: withTx_def cascadeDelete_def Let_def frame split: if_splits)

lemma withTx_cascade_no_fault:
  "no_fault c \<Longrightarrow> fst (withTx c k (cascadeDelete c tab i) s) =
     (if count_token tab i s = 0 then Some ErrNoRows else None)"
  by (simp add: withTx_def cascadeDelete_no_fault)

lemma ids_after_cascade:
  "real_ids (delete_token RealTokens i (delete_usage t j (delete_sticky t' j' s))) = real_ids s - {i}"
  "gate_ids (delete_token GateTokens i (delete_usage t j (delete_sticky t' j' s))) = gate_ids s - {i}"
  by (simp_all add: real_ids_def gate_ids_def delete_token_def delete_usage_def delete_sticky_def)

lemma update_missing:
  "count_token RealTokens i s = 0 \<Longrightarrow> update_real i f s = s"
  "count_token GateTokens i s = 0 \<Longrightarrow> update_gate i f' s = s"
  by (simp_all add: count_token_def update_real_def update_gate_def update_where_none)

lemma stored_rows:
  "count_token RealTokens i s \<noteq> 0 \<Longrightarrow> \<exists>r. find_real s i = Some r"
  "count_token GateTokens i s \<noteq> 0 \<Longrightarrow> \<exists>g. find_gate s i = Some g"
  using find_real_None [of s i] find_gate_None [of s i] by (auto simp: count_token_ids)

interpretation reals: token_table real_ids UpdateRealToken SetRealTokenActive DeleteRealToken
  real_name real_active
proof (unfold_locales, goal_cases)
  case (1 c i n s) then show ?case by (simp add: UpdateRealToken_def affected_err_def count_token_ids)
next
  case (2 c i b s) then show ?case by (simp add: SetRealTokenActive_def Let_def affected_err_def count_token_ids)
next
  case (3 c i s) then show ?case by (simp add: DeleteRealToken_def withTx_cascade_no_fault count_token_ids)
next
  case (4 c i n s) then show ?case
    by (auto simp: UpdateRealToken_def affected_err_cases count_token_ids update_missing split: if_splits)
next
  case (5 c i b s) then show ?case
    by (auto simp: SetRealTokenActive_def Let_def affected_err_cases count_token_ids update_missing split: if_splits)
next
  case (6 c i s) then show ?case
    using withTx_cascade_norows by (simp add: DeleteRealToken_def count_token_ids(1) [symmetric])
next
  case (7 c i s e) then show ?case by (simp add: DeleteRealToken_def withTx_error)
next
  case (8 c i n s j) then show ?case
    using stored_rows(1) [of i s]
    by (auto simp: UpdateRealToken_def affected_err_cases real_name_def find_real_update_same
        find_real_update_other split: if_splits)
next
  case (9 c i b s j) then show ?case
    using stored_rows(1) [of i s]
    by (auto simp: SetRealTokenActive_def Let_def affected_err_cases real_active_def boolToInt_def
        find_real_update_same find_real_update_other split: if_splits)
next
  case (10 c i s) then show ?case
    by (simp add: DeleteRealToken_def withTx_cascade_ok ids_after_cascade)
next
  case (11 c i n s) then show ?case by (simp add: UpdateRealToken_def real_ids_update)
next
  case (12 c i b s) then show ?case by (simp add: SetRealTokenActive_def Let_def real_ids_update)
qed

interpretation gates: token_table gate_ids UpdateGateToken SetGateTokenActive DeleteGateToken
  gate_name gate_active
proof (unfold_locales, goal_cases)
  case (1 c i n s) then show ?case by (simp add: UpdateGateToken_def affected_err_def count_token_ids)
next
  case (2 c i b s) then show ?case by (simp add: SetGateTokenActive_def Let_def affected_err_def count_token_ids)
next
  case (3 c i s) then show ?case by (simp add: DeleteGateToken_def withTx_cascade_no_fault count_token_ids)
next
  case (4 c i n s) then show ?case
    by (auto simp: UpdateGateToken_def affected_err_cases count_token_ids update_missing split: if_splits)
next
  case (5 c i b s) then show ?case
    by (auto simp: SetGateTokenActive_def Let_def affected_err_cases count_token_ids update_missing split: if_splits)
next
  case (6 c i s) then show ?case
    using withTx_cascade_norows by (simp add: DeleteGateToken_def count_token_ids(2) [symmetric])
next
  case (7 c i s e) then show ?case by (simp add: DeleteGateToken_def withTx_error)
next
  case (8 c i n s j) then show ?case
    using stored_rows(2) [of i s]
    by (auto simp: UpdateGateToken_def affected_err_cases gate_name_def find_gate_update_same
        find_gate_update_other split: if_splits)
next
  case (9 c i b s j) then show ?case
    using stored_rows(2) [of i s]
    by (auto simp: SetGateTokenActive_def Let_def affected_err_cases gate_active_def boolToInt_def
        find_gate_update_same find_gate_update_other split: if_splits)
next
  case (10 c i s) then show ?case
    by (simp add: DeleteGateToken_def withTx_cascade_ok ids_after_cascade)
next
  case (11 c i n s) then show ?case by (simp add: UpdateGateToken_def gate_ids_update)
next
  case (12 c i b s) then show ?case by (simp add: SetGateTokenActive_def Let_def gate_ids_update)
qed

section \<open>Integrity\<close>

text \<open>Every write the store offers, with its arguments.\<close>

datatype store_op =
    WCreateReal callenv bytes string string string
  | WUpdateReal callenv string string
  | WSetRealActive callenv string bool
  | WDeleteReal callenv string
  | WIncrementFailure callenv string
  | WRealUsage callenv string int int
  | WCreateGate callenv bytes bytes string string
  | WUpdateGate callenv string string
  | WSetGateActive callenv string bool
  | WDeleteGate callenv string
  | WGateUsage callenv string int int
  | WInsertLog callenv UsageLog
  | WInsertLogs callenv "UsageLog list"
  | WUpsertSticky callenv string string gotime
  | WDeleteExpired callenv
  | WDeleteSticky callenv string

fun store_write :: "driver \<Rightarrow> db \<Rightarrow> store_op \<Rightarrow> db" where
  "store_write D s (WCreateReal c rnd n a r) = snd (CreateRealToken c rnd n a r s)"
| "store_write D s (WUpdateReal c i n) = snd (UpdateRealToken c i n s)"
| "store_write D s (WSetRealActive c i b) = snd (SetRealTokenActive c i b s)"
| "store_write D s (WDeleteReal c i) = snd (DeleteRealToken c i s)"
| "store_write D s (WIncrementFailure c i) = snd (IncrementRealTokenFailure c i s)"
| "store_write D s (WRealUsage c i a b) = snd (UpdateRealTokenUsage D c i a b s)"
| "store_write D s (WCreateGate c r1 r2 n t) = snd (CreateGateToken c r1 r2 n t s)"
| "store_write D s (WUpdateGate c i n) = snd (UpdateGateToken c i n s)"
| "store_write D s (WSetGateActive c i b) = snd (SetGateTokenActive c i b s)"
| "store_write D s (WDeleteGate c i) = snd (DeleteGateToken c i s)"
| "store_write D s (WGateUsage c i a b) = snd (UpdateGateTokenUsage D c i a b s)"
| "store_write D s (WInsertLog c l) = snd (InsertUsageLog c l s)"
| "store_write D s (WInsertLogs c ls) = snd (InsertUsageLogs c ls s)"
| "store_write D s (WUpsertSticky c g r e) = snd (UpsertStickySession c g r e s)"
| "store_write D s (WDeleteExpired c) = snd (DeleteExpiredStickySessions D c s)"
| "store_write D s (WDeleteSticky c g) = snd (DeleteStickySession c g s)"

lemma store_write_db_ok: "db_ok s \<Longrightarrow> db_ok (store_write D s w)"
  by (cases w) (simp_all add: preserves)

lemma store_writes_db_ok: "db_ok s \<Longrightarrow> db_ok (foldl (store_write D) s ws)"
  by (induction ws arbitrary: s) (simp_all add: store_write_db_ok)

text \<open>
  C28: Integrity of the database.  Whatever sequence of writes is made on a fresh database, in
  whatever order, with whatever failures of the driver, keys stay unique, every usage log and
  every sticky session refers to tokens that exist, flags stay 0 or 1 and failure counts do not
  go negative.
\<close>
theorem store_integrity: "db_ok (foldl (store_write D) empty_db ws)"
  by (rule store_writes_db_ok) simp

section \<open>Deletion\<close>

text \<open>
  Deleting a real token cascades, atomically.  On any error (a failure of any of the six
  driver calls, or an unknown identifier) the database is exactly as before.  On success the
  token is gone, and with it every binding and every usage log that refers to it, and nothing
  else.  With a working driver it succeeds exactly for a stored identifier.
\<close>
theorem delete_real_token_cascades:
  "(fst (DeleteRealToken c i s) \<noteq> None \<longrightarrow> snd (DeleteRealToken c i s) = s) \<and>
   (fst (DeleteRealToken c i s) = None \<longrightarrow>
      i \<in> real_ids s \<and>
      snd (DeleteRealToken c i s) =
        s\<lparr>real_tokens := filter (\<lambda>r. rr_id r \<noteq> i) (real_tokens s),
          sticky_sessions := filter (\<lambda>x. sr_real x \<noteq> i) (sticky_sessions s),
          usage_logs := filter (\<lambda>l. ur_real l \<noteq> i) (usage_logs s)\<rparr>) \<and>
   (no_fault c \<longrightarrow> fst (DeleteRealToken c i s) = (if i \<in> real_ids s then None else Some ErrNoRows))"
proof (intro conjI impI)
  show "snd (DeleteRealToken c i s) = s" if "fst (DeleteRealToken c i s) \<noteq> None"
    using that reals.remove_error [of c i s] by auto
  show "fst (DeleteRealToken c i s) = (if i \<in> real_ids s then None else Some ErrNoRows)" if "no_fault c"
    using that by (rule reals.remove_result)
next
  assume "fst (DeleteRealToken c i s) = None"
  then have "snd (DeleteRealToken c i s) = delete_token RealTokens i (delete_usage RealTokens i (delete_sticky RealTokens i s))"
    and cnt: "count_token RealTokens i s \<noteq> 0"
    using withTx_cascade_ok [of c 5 RealTokens i s] by (simp_all add: DeleteRealToken_def)
  then show "snd (DeleteRealToken c i s) =
        s\<lparr>real_tokens := filter (\<lambda>r. rr_id r \<noteq> i) (real_tokens s),
          sticky_sessions := filter (\<lambda>x. sr_real x \<noteq> i) (sticky_sessions s),
          usage_logs := filter (\<lambda>l. ur_real l \<noteq> i) (usage_logs s)\<rparr>"
    by (simp add: delete_token_def delete_usage_def delete_sticky_def)
  from cnt show "i \<in> real_ids s" by (simp add: count_token_ids)
qed

theorem delete_real_token_cascades_witness:
  "snd (DeleteRealToken (call_at 0) ''x'' empty_db) = empty_db"
  using delete_real_token_cascades [of "call_at 0" "''x''" empty_db]
  by (simp add: real_ids_def empty_db_def)

text \<open>
  Writes to a token that does not exist change nothing and say so.  For both tables, with a
  working driver, update, (de)activate and delete of an unknown identifier return the bare
  \<open>sql.ErrNoRows\<close>, which the admin API maps to 404, and leave the database as it is; deleting
  twice is therefore reported.
\<close>
theorem unknown_token_reported:
  assumes "no_fault c" "i \<notin> real_ids s" "j \<notin> gate_ids s"
  shows "UpdateRealToken c i n s = (Some ErrNoRows, s) \<and> SetRealTokenActive c i b s = (Some ErrNoRows, s) \<and>
    DeleteRealToken c i s = (Some ErrNoRows, s) \<and> UpdateGateToken c j n s = (Some ErrNoRows, s) \<and>
    SetGateTokenActive c j b s = (Some ErrNoRows, s) \<and> DeleteGateToken c j s = (Some ErrNoRows, s) \<and>
    fst (DeleteRealToken c k (snd (DeleteRealToken c k s))) = Some ErrNoRows"
  using reals.missing_token [OF assms(1,2)] gates.missing_token [OF assms(1,3)]
    reals.remove_twice [OF assms(1,1)]
  by simp

theorem unknown_token_reported_witness:
  "UpdateRealToken (call_at 0) ''x'' ''n'' empty_db = (Some ErrNoRows, empty_db)"
  using unknown_token_reported [of "call_at 0" "''x''" empty_db "''y''" "''n''"]
  by (simp add: real_ids_def gate_ids_def empty_db_def)

section \<open>Activation\<close>

text \<open>
  Re-activation gives a token a clean slate.  A successful \<open>SetRealTokenActive\<close> sets the
  flag; activating also resets the failure count to 0, so the token is usable again under any
  positive limit, while deactivating keeps the count; no other token changes.
\<close>
theorem activation_resets_failures:
  assumes "find_real s i = Some r" "SetRealTokenActive c i b s = (None, s')"
  shows "\<exists>r'. find_real s' i = Some r' \<and> rr_active r' = (if b then 1 else 0) \<and>
    rr_failures r' = (if b then 0 else rr_failures r) \<and> rr_access r' = rr_access r \<and>
    (b \<and> 0 < maxFailures \<longrightarrow> active_below maxFailures r') \<and>
    (\<not> b \<longrightarrow> \<not> active_below maxFailures r') \<and>
    (\<forall>j. j \<noteq> i \<longrightarrow> find_real s' j = find_real s j)"
  using assms
  by (auto simp: SetRealTokenActive_def Let_def boolToInt_def active_below_def
      find_real_update_same find_real_update_other split: if_splits)

definition one_real :: db where
  "one_real = empty_db\<lparr>real_tokens := [\<lparr>rr_id = ''a'', rr_name = ''n'', rr_access = ''t'', rr_refresh = [],
     rr_active = 0, rr_failures = 5, rr_last_failure = None, rr_last_used = None, rr_in = 0,
     rr_out = 0, rr_created = Bound (UTC 0), rr_updated = Bound (UTC 0)\<rparr>]\<rparr>"

theorem activation_resets_failures_witness:
  "\<exists>r'. find_real (snd (SetRealTokenActive (call_at 0) ''a'' True one_real)) ''a'' = Some r' \<and> rr_failures r' = 0"
proof -
  obtain r where r: "find_real one_real ''a'' = Some r"
    by (simp add: one_real_def find_real_def)
  have "fst (SetRealTokenActive (call_at 0) ''a'' True one_real) = None"
    by (simp add: one_real_def SetRealTokenActive_def Let_def affected_err_def count_token_def count_where_def)
  then have "SetRealTokenActive (call_at 0) ''a'' True one_real
      = (None, snd (SetRealTokenActive (call_at 0) ''a'' True one_real))"
    by (simp add: prod_eq_iff)
  from activation_resets_failures [OF r this, of 1] show ?thesis by auto
qed

section \<open>Listing\<close>

text \<open>
  The pool query.  With a readable table, \<open>ListActiveRealTokens\<close> returns the rows that are
  active and below the limit, each exactly once and as stored, oldest first.
\<close>
theorem list_active_exact:
  assumes "no_fault c" "driver_total D" "\<forall>r\<in>set (real_tokens s). real_readable D r"
  shows "\<exists>rows. ListActiveRealTokens D c m s = Inr (map (view_real D) rows) \<and>
    mset rows = mset (filter (active_below m) (real_tokens s)) \<and>
    sorted_wrt (\<lambda>a b. txt_le D (rr_created a) (rr_created b)) rows"
proof -
  let ?rows = "order_by (txt_le D) rr_created (filter (active_below m) (real_tokens s))"
  have "sorted_wrt (\<lambda>a b. txt_le D (rr_created a) (rr_created b)) ?rows"
    by (rule sorted_order_by) (use assms(2) in \<open>auto simp: driver_total_def\<close>)
  moreover have "ListActiveRealTokens D c m s = Inr (map (view_real D) ?rows)"
    using assms by (simp add: ListActiveRealTokens_no_fault)
  ultimately show ?thesis by (intro exI [of _ ?rows]) simp
qed

theorem list_active_exact_witness:
  "\<exists>rows. ListActiveRealTokens text_driver (call_at 0) 6 one_real = Inr (map (view_real text_driver) rows) \<and>
    mset rows = {#}"
  using list_active_exact [of "call_at 0" text_driver one_real 6]
  by (auto simp: one_real_def real_readable_def readable_def active_below_def)

section \<open>Creation and lookup\<close>

text \<open>
  A created gate token can be looked up.  When \<open>CreateGateToken\<close> succeeds it returns the very
  struct that \<open>GetGateTokenByToken\<close> (the proxy's authentication lookup) and \<open>GetGateToken\<close> read
  back, active and with zero usage, and all earlier tokens are still found as before.
\<close>
theorem create_gate_token_roundtrip:
  assumes "CreateGateToken c r1 r2 name custom s = (Inr t, s')"
    and "driver_reads D" "era (clock c)" "no_fault c'"
  shows "GetGateTokenByToken D c' (gt_Token t) s' = Inr t \<and> GetGateToken D c' (gt_ID t) s' = Inr t \<and>
    gt_IsActive t \<and> gt_TotalInputTokens t = 0 \<and> gt_TotalOutputTokens t = 0 \<and>
    gt_Token t = (if custom = [] then generateGateToken r2 else custom) \<and>
    (\<forall>tok. tok \<noteq> gt_Token t \<longrightarrow> GetGateTokenByToken D c' tok s' = GetGateTokenByToken D c' tok s)"
proof -
  let ?tok = "if custom = [] then generateGateToken r2 else custom"
  let ?g = "\<lparr>gr_id = newID r1, gr_token = ?tok, gr_name = name, gr_active = 1, gr_in = 0, gr_out = 0,
      gr_created = Bound (UTC (clock c)), gr_updated = Bound (UTC (clock c))\<rparr> :: gate_row"
  from assms(1) have fresh: "\<forall>g\<in>set (gate_tokens s). gr_id g \<noteq> newID r1 \<and> gr_token g \<noteq> ?tok"
    and s': "s' = s\<lparr>gate_tokens := gate_tokens s @ [?g]\<rparr>"
    and t: "gt_ID t = newID r1" "gt_Token t = ?tok" "gt_IsActive t" "gt_TotalInputTokens t = 0"
      "gt_TotalOutputTokens t = 0"
    and scan: "scanGateToken D ?g = Inr t"
    using assms(2,3) by (auto simp: CreateGateToken_def Let_def list_ex_iff scanGateToken_def driver_reads_def
        split: if_splits)
  have find: "find_row p (gate_tokens s') = Some ?g" if "p ?g" "\<forall>g\<in>set (gate_tokens s). \<not> p g" for p
    using that by (simp add: s' find_row_append find_row_None [symmetric])
  have "GetGateTokenByToken D c' (gt_Token t) s' = Inr t" "GetGateToken D c' (gt_ID t) s' = Inr t"
    using assms(4) fresh t scan
    by (simp_all add: GetGateTokenByToken_def GetGateToken_def query_row_def find)
  moreover have "GetGateTokenByToken D c' tok s' = GetGateTokenByToken D c' tok s" if "tok \<noteq> gt_Token t" for tok
    using that t(2) by (auto simp: GetGateTokenByToken_def query_row_def s' find_row_append split: option.splits)
  ultimately show ?thesis using t by simp
qed

theorem create_gate_token_roundtrip_witness:
  "\<exists>t s'. CreateGateToken (call_at 0) [] [] ''n'' ''gate-x'' empty_db = (Inr t, s') \<and>
     GetGateTokenByToken text_driver (call_at 1) ''gate-x'' s' = Inr t"
proof -
  obtain t s' where c: "CreateGateToken (call_at 0) [] [] ''n'' ''gate-x'' empty_db = (Inr t, s')"
    by (simp add: CreateGateToken_def empty_db_def Let_def)
  have "era (clock (call_at 0))" by (simp add: era_def second_def)
  from create_gate_token_roundtrip [OF c text_driver_reads this, of "call_at 1"] c show ?thesis by auto
qed

end
