(* ===== verification/Record_Properties.thy ===== *)
theory Record_Properties
  imports Store_Properties
begin

text \<open>
  The records the store keeps for the gate: usage logs and the statistics over them, persisted
  sticky sessions, and the generated token strings.
\<close>

section \<open>Usage logs\<close>

text \<open>
  A batch of usage logs is written whole or not at all.  On an error (a driver failure at any
  of the calls, or one entry that refers to a deleted token) the database is unchanged; on success
  the table grows by exactly the batch, in order, with every other table untouched.  With a
  working driver the batch is written exactly when every entry's two tokens exist.
\<close>
theorem insert_batch_all_or_nothing:
  assumes "InsertUsageLogs c logs s = (e, s')"
  shows "(e \<noteq> None \<longrightarrow> s' = s) \<and>
    (e = None \<longrightarrow> map log_of_row (usage_logs s') = map log_of_row (usage_logs s) @ map unsaved logs) \<and>
    real_tokens s' = real_tokens s \<and> gate_tokens s' = gate_tokens s \<and> sticky_sessions s' = sticky_sessions s \<and>
    (no_fault c \<longrightarrow> (e = None \<longleftrightarrow>
       (\<forall>l\<in>set logs. ul_GateTokenID l \<in> gate_ids s \<and> ul_RealTokenID l \<in> real_ids s)))"
proof (cases e)
  case None
  with assms have "s' = fold (add_usage (clock c)) logs s" by (auto dest: InsertUsageLogs_ok)
  with None assms InsertUsageLogs_no_fault [of c logs s] show ?thesis
    by (auto simp: fold_add_usage_logs usage_refs_ok_iff)
next
  case (Some err)
  with assms have "s' = s" using InsertUsageLogs_error [of c logs s err] by simp
  with Some assms InsertUsageLogs_no_fault [of c logs s] show ?thesis
    by (auto simp: usage_refs_ok_iff)
qed

definition sample_log :: UsageLog where
  "sample_log = \<lparr>ul_ID = 0, ul_GateTokenID = ''g'', ul_RealTokenID = ''a'', ul_Model = ''m'',
     ul_InputTokens = 25, ul_OutputTokens = 15, ul_CacheCreationInputTokens = 0,
     ul_CacheReadInputTokens = 0, ul_RequestPath = ''/v1/messages'', ul_StatusCode = 200,
     ul_CreatedAt = zero_time\<rparr>"

definition gate_and_real :: db where
  "gate_and_real = one_real\<lparr>gate_tokens := [\<lparr>gr_id = ''g'', gr_token = ''gate-g'', gr_name = ''n'',
     gr_active = 1, gr_in = 0, gr_out = 0, gr_created = Bound (UTC 0), gr_updated = Bound (UTC 0)\<rparr>]\<rparr>"

lemma gate_and_real_ids [simp]: "gate_ids gate_and_real = {''g''}" "real_ids gate_and_real = {''a''}"
  by (simp_all add: gate_ids_def real_ids_def gate_and_real_def one_real_def)

theorem insert_batch_all_or_nothing_witness:
  "fst (InsertUsageLogs (call_at 0) [sample_log, sample_log\<lparr>ul_RealTokenID := ''gone''\<rparr>] gate_and_real) \<noteq> None \<and>
   snd (InsertUsageLogs (call_at 0) [sample_log, sample_log\<lparr>ul_RealTokenID := ''gone''\<rparr>] gate_and_real) = gate_and_real"
proof -
  obtain e s' where r: "InsertUsageLogs (call_at 0) [sample_log, sample_log\<lparr>ul_RealTokenID := ''gone''\<rparr>] gate_and_real = (e, s')"
    by fastforce
  from insert_batch_all_or_nothing [OF r] r show ?thesis by (auto simp: sample_log_def)
qed

section \<open>Statistics\<close>

definition stats_of :: "usage_row list \<Rightarrow> UsageStats" where
  "stats_of rows =
     \<lparr>us_TotalInputTokens = sum_list (map ur_in rows), us_TotalOutputTokens = sum_list (map ur_out rows),
      us_CacheCreationInputTokens = sum_list (map ur_cache_creation rows),
      us_CacheReadInputTokens = sum_list (map ur_cache_read rows), us_RequestCount = int (length rows)\<rparr>"

definition sums_fit :: "usage_row list \<Rightarrow> bool" where
  "sums_fit rows \<longleftrightarrow> (\<forall>f\<in>{ur_in, ur_out, ur_cache_creation, ur_cache_read}. \<forall>n\<le>length rows.
     fits64 (sum_list (take n (map f rows))))"

lemma int_sum_exact:
  assumes "driver_adds D" "sums_fit rows" "f \<in> {ur_in, ur_out, ur_cache_creation, ur_cache_read}"
  shows "int_sum D (map f rows) = Some (sum_list (map f rows))"
proof -
  have law: "int_sum D xs = Some (sum_list xs)" if "\<forall>n\<le>length xs. fits64 (sum_list (take n xs))" for xs
    using assms(1) that unfolding driver_adds_def by blast
  show ?thesis by (rule law) (use assms(2,3) in \<open>unfold sums_fit_def length_map, blast\<close>)
qed

lemma queryUsageStats_sums:
  assumes "no_fault c" "driver_adds D" "sums_fit (filter w (usage_logs s))"
  shows "queryUsageStats D c w s = Inr (stats_of (filter w (usage_logs s)))"
  using assms(1) int_sum_exact [OF assms(2,3)] by (simp add: queryUsageStats_def stats_of_def Let_def)

text \<open>
  The logs of a period: \<open>created_at\<close> is the text of \<open>datetime('now')\<close>, in UTC, and is compared with the
  text of the bound, which shows the wall clock of the bound's zone.
\<close>

definition stamped :: "db \<Rightarrow> bool" where
  "stamped s \<longleftrightarrow> (\<forall>l\<in>set (usage_logs s). \<exists>t. ur_created l = DtNow t \<and> era t)"

fun log_second :: "usage_row \<Rightarrow> int" where
  "log_second l = (case ur_created l of DtNow t \<Rightarrow> sec t | Bound g \<Rightarrow> sec (wall g))"

definition logs_after :: "int \<Rightarrow> (usage_row \<Rightarrow> bool) \<Rightarrow> db \<Rightarrow> usage_row list" where
  "logs_after k p s = filter (\<lambda>l. p l \<and> k < log_second l) (usage_logs s)"

lemma logs_after_since:
  assumes "driver_wall D" "stamped s" "era (wall g)"
  shows "filter (\<lambda>l. p l \<and> logged_since D g l) (usage_logs s) = logs_after (sec (wall g)) p s"
  unfolding logs_after_def
proof (rule filter_cong [OF refl])
  fix l assume "l \<in> set (usage_logs s)"
  with assms(2) obtain t where "ur_created l = DtNow t" "era t" by (auto simp: stamped_def)
  with assms(1,3) show "p l \<and> logged_since D g l \<longleftrightarrow> p l \<and> sec (wall g) < log_second l"
    by (simp add: logged_since_def driver_wall_def)
qed

lemma queryUsageStats_after:
  assumes "no_fault c" "driver_adds D" "driver_wall D" "stamped s" "era (wall g)"
    "\<forall>w. sums_fit (filter w (usage_logs s))"
  shows "queryUsageStats D c (\<lambda>l. p l \<and> logged_since D g l) s = Inr (stats_of (logs_after (sec (wall g)) p s))"
proof -
  have "sums_fit (filter (\<lambda>l. p l \<and> logged_since D g l) (usage_logs s))" using assms(6) by blast
  from queryUsageStats_sums [OF assms(1,2) this] show ?thesis by (simp only: logs_after_since [OF assms(3-5)])
qed

lemma GetUsageStats_after:
  assumes "no_fault c" "driver_adds D" "driver_wall D" "stamped s" "era (wall g)"
    "\<forall>w. sums_fit (filter w (usage_logs s))"
  shows "GetUsageStats D c g s = Inr (stats_of (logs_after (sec (wall g)) (\<lambda>_. True) s))"
  using queryUsageStats_after [OF assms, of "\<lambda>_. True"] by (simp add: GetUsageStats_def)

text \<open>
  C39: The usage statistics are sums over the logs after a bound.  Let the driver work, the rows carry the
  times that \<open>datetime('now')\<close> gave them (all times in the four-digit years), and the totals fit 64 bits.
  Then the statistics of the whole gate, of a real token and of a gate token since any \<open>time.Time\<close> are the sums
  and the number of exactly the matching logs whose second is after the second that the wall clock of
  the bound's zone shows.  For a UTC bound this is the second of its instant; any other bound is
  shifted by its zone offset.  A request logged in that very second is not counted, because the
  stored text has whole seconds.
\<close>
theorem usage_stats_are_sums:
  assumes "no_fault c" "driver_adds D" "driver_wall D" "stamped s" "era (wall g)"
    and "\<forall>w. sums_fit (filter w (usage_logs s))"
  shows "GetUsageStats D c g s = Inr (stats_of (logs_after (sec (wall g)) (\<lambda>_. True) s)) \<and>
    GetUsageStatsByRealToken D c i g s = Inr (stats_of (logs_after (sec (wall g)) (\<lambda>l. ur_real l = i) s)) \<and>
    GetUsageStatsByGateToken D c i g s = Inr (stats_of (logs_after (sec (wall g)) (\<lambda>l. ur_gate l = i) s))"
  using GetUsageStats_after [OF assms] queryUsageStats_after [OF assms]
  by (simp add: GetUsageStatsByRealToken_def GetUsageStatsByGateToken_def)

definition logged_db :: db where
  "logged_db = add_usage (5 * second) sample_log (add_usage (2 * second) sample_log gate_and_real)"

lemma logged_db_logs:
  "usage_logs logged_db = (let row = (\<lambda>k t. \<lparr>ur_id = k, ur_gate = ''g'', ur_real = ''a'', ur_model = ''m'',
      ur_in = 25, ur_out = 15, ur_cache_creation = 0, ur_cache_read = 0, ur_path = ''/v1/messages'',
      ur_status = 200, ur_created = DtNow t\<rparr>) in [row 1 (2 * second), row 2 (5 * second)])"
  by (simp add: logged_db_def add_usage_def gate_and_real_def one_real_def empty_db_def sample_log_def Let_def)

lemma logged_db_ok: "stamped logged_db" "sums_fit (filter w (usage_logs logged_db))"
  by (auto simp: stamped_def logged_db_logs Let_def era_def second_def sums_fit_def fits64_def int64_min_def
      int64_max_def take_Cons split: nat.splits)

text \<open>The bound is 1 s in UTC; its wall clock, three seconds east of UTC, shows 4 s.\<close>

theorem usage_stats_are_sums_witness:
  "GetUsageStatsByRealToken text_driver (call_at 0) ''a'' (GoTime second (3 * second)) logged_db
     = Inr \<lparr>us_TotalInputTokens = 25, us_TotalOutputTokens = 15, us_CacheCreationInputTokens = 0,
            us_CacheReadInputTokens = 0, us_RequestCount = 1\<rparr>"
proof -
  have e: "era (wall (GoTime second (3 * second)))" by (simp add: era_def wall_def second_def)
  have "\<forall>w. sums_fit (filter w (usage_logs logged_db))" using logged_db_ok(2) by blast
  from usage_stats_are_sums [OF _ _ _ logged_db_ok(1) e this, of "call_at 0" text_driver "''a''"]
  show ?thesis
    by (simp add: logs_after_def logged_db_logs Let_def stats_of_def sec_def wall_def second_def)
qed

section \<open>Persisted bindings\<close>

text \<open>
  A persisted binding is read back until the end of the second it expires in.  After a
  successful upsert, \<open>GetStickySession\<close> returns exactly the binding that was written, with its
  expiry, while the current second is not after the expiry's second, and nothing afterwards; the
  bindings of other gate tokens are unaffected.
\<close>
theorem sticky_upsert_roundtrip:
  assumes "UpsertStickySession c g r (UTC e) s = (None, s')" "driver_utc D" "driver_reads D"
    and "no_fault c'" "era e" "era (clock c')" "keys_ok s"
  shows "GetStickySession D c' g s' =
      Inr (if sec (clock c') \<le> sec e
           then Some \<lparr>ss_GateTokenID = g, ss_RealTokenID = r, ss_ExpiresAt = UTC e\<rparr> else None) \<and>
    (h \<noteq> g \<longrightarrow> find_sticky s' h = find_sticky s h)"
proof -
  let ?x = "\<lparr>sr_gate = g, sr_real = r, sr_expires = Bound (UTC e)\<rparr>"
  from assms(1) have s': "s' = put_sticky g r (Bound (UTC e)) s"
    by (auto simp: UpsertStickySession_def split: if_splits)
  have only: "x = ?x" if "x \<in> set (sticky_sessions s')" "sr_gate x = g" for x
  proof -
    have "distinct (map sr_gate (sticky_sessions s'))"
      using assms(7) by (auto simp: s' put_sticky_def map_update_where list_ex_iff keys_ok_def)
    then have "find_sticky s' g = Some x"
      using that by (simp add: find_sticky_def find_row_eq_iff)
    then show ?thesis by (simp add: s' find_put_sticky)
  qed
  have mem: "?x \<in> set (sticky_sessions s')"
    using find_put_sticky [of g r "Bound (UTC e)" s g] find_row_SomeD
    by (fastforce simp: s' find_sticky_def)
  have live: "live_row D (clock c') ?x \<longleftrightarrow> sec (clock c') \<le> sec e"
    using assms(2,5,6) by (auto simp: live_row_def txt_lt_def driver_utc_def)
  have "find_row (\<lambda>x. sr_gate x = g \<and> live_row D (clock c') x) (sticky_sessions s') =
      (if sec (clock c') \<le> sec e then Some ?x else None)"
  proof (cases "find_row (\<lambda>x. sr_gate x = g \<and> live_row D (clock c') x) (sticky_sessions s')")
    case None
    with mem live show ?thesis by (auto simp: find_row_None)
  next
    case (Some x)
    then have "x \<in> set (sticky_sessions s')" "sr_gate x = g" "live_row D (clock c') x"
      by (auto dest: find_row_SomeD)
    with only live Some show ?thesis by auto
  qed
  moreover have "rd_time D (Bound (UTC e)) = Some (UTC e)"
    using assms(3,5) by (simp add: driver_reads_def)
  ultimately have "GetStickySession D c' g s' = Inr (if sec (clock c') \<le> sec e
      then Some \<lparr>ss_GateTokenID = g, ss_RealTokenID = r, ss_ExpiresAt = UTC e\<rparr> else None)"
    using assms(4) by (simp add: GetStickySession_def query_row_def scanSticky_def)
  then show ?thesis by (simp add: s' find_put_sticky)
qed

theorem sticky_upsert_roundtrip_witness:
  "GetStickySession text_driver (call_at 1500000000) ''g'' (put_sticky ''g'' ''a'' (Bound (UTC 1400000000)) gate_and_real)
     = Inr (Some \<lparr>ss_GateTokenID = ''g'', ss_RealTokenID = ''a'', ss_ExpiresAt = UTC 1400000000\<rparr>)"
proof -
  have u: "UpsertStickySession (call_at 0) ''g'' ''a'' (UTC 1400000000) gate_and_real
      = (None, put_sticky ''g'' ''a'' (Bound (UTC 1400000000)) gate_and_real)"
    by (simp add: UpsertStickySession_def gate_and_real_def one_real_def)
  have k: "keys_ok gate_and_real"
    by (simp add: keys_ok_def gate_and_real_def one_real_def empty_db_def)
  show ?thesis
    using sticky_upsert_roundtrip [OF u text_driver_utc text_driver_reads _ _ _ k, of "call_at 1500000000"]
    by (simp add: era_def sec_def second_def)
qed

text \<open>
  The cleanup removes only what no lookup would find.  After the periodic cleanup at time
  \<open>t\<close>, every lookup at \<open>t\<close> or later gives the same answer as without it, and what remains are
  exactly the bindings that were live at \<open>t\<close>.
\<close>
theorem cleanup_unobservable:
  assumes "driver_utc D" "\<forall>x\<in>set (sticky_sessions s). \<exists>e. sr_expires x = Bound (UTC e) \<and> era e"
    and "era (clock c)" "era (clock c')" "clock c \<le> clock c'" "\<not> fails c 0"
  shows "GetStickySession D c' g (snd (DeleteExpiredStickySessions D c s)) = GetStickySession D c' g s \<and>
    (\<forall>x. x \<in> set (sticky_sessions (snd (DeleteExpiredStickySessions D c s))) \<longleftrightarrow>
       x \<in> set (sticky_sessions s) \<and> live_row D (clock c) x)"
proof -
  have mono: "live_row D (clock c) x" if x: "x \<in> set (sticky_sessions s)" "live_row D (clock c') x" for x
  proof -
    from assms(2) x(1) obtain e where e: "sr_expires x = Bound (UTC e)" "era e" by blast
    have "sec (clock c) \<le> sec (clock c')" using assms(5) by (simp add: sec_def second_def zdiv_mono1)
    with assms(1,3,4) e x(2) show ?thesis
      by (auto simp: live_row_def txt_lt_def driver_utc_def)
  qed
  have "find_row (\<lambda>x. sr_gate x = g \<and> live_row D (clock c') x) (filter (live_row D (clock c)) xs)
      = find_row (\<lambda>x. sr_gate x = g \<and> live_row D (clock c') x) xs"
    if "set xs \<subseteq> set (sticky_sessions s)" for xs
    using that mono by (induction xs) auto
  then show ?thesis
    using assms(6) by (simp add: DeleteExpiredStickySessions_def GetStickySession_def query_row_def)
qed

theorem cleanup_unobservable_witness:
  "GetStickySession text_driver (call_at 9) ''g'' (snd (DeleteExpiredStickySessions text_driver (call_at 5) gate_and_real))
     = GetStickySession text_driver (call_at 9) ''g'' gate_and_real"
  using cleanup_unobservable [OF text_driver_utc, of gate_and_real "call_at 5" "call_at 9" "''g''"]
  by (simp add: gate_and_real_def one_real_def empty_db_def era_def second_def)

end
