(* ===== verification/Json.thy ===== *)
theory Json
  imports Prelude
begin

text \<open>
  What the program uses of Go's \<open>encoding/json\<close>: the syntax accepted by \<open>Unmarshal\<close> and
  \<open>Decoder.Decode\<close>, the decoded strings, and decoding into struct fields of type \<open>int64\<close> and
  \<open>string\<close>.  Numbers keep their literal, as Go converts them only when it stores them.
\<close>

section \<open>Values and lexical classes\<close>

datatype json =
    JNull
  | JBool bool
  | JNum string
  | JStr string
  | JArr "json list"
  | JObj "(string \<times> json) list"

definition is_space :: "char \<Rightarrow> bool" where
  "is_space c \<longleftrightarrow> c = CHR '' '' \<or> c = CHR 0x09 \<or> c = CHR 0x0A \<or> c = CHR 0x0D"

definition is_digit :: "char \<Rightarrow> bool" where
  "is_digit c \<longleftrightarrow> (48::nat) \<le> of_char c \<and> of_char c \<le> (57::nat)"

definition hex_value :: "char \<Rightarrow> nat option" where
  "hex_value c =
     (let n = of_char c :: nat in
      if 48 \<le> n \<and> n \<le> 57 then Some (n - 48)
      else if 97 \<le> n \<and> n \<le> 102 then Some (n - 87)
      else if 65 \<le> n \<and> n \<le> 70 then Some (n - 55) else None)"

definition is_hex :: "char \<Rightarrow> bool" where
  "is_hex c \<longleftrightarrow> hex_value c \<noteq> None"

definition skip_ws :: "bytes \<Rightarrow> bytes" where
  "skip_ws s = dropWhile is_space s"

section \<open>Strings\<close>

text \<open>
  The body of a string literal up to its closing quote: control characters are refused, a
  backslash must start one of the escapes of the grammar.
\<close>

definition simple_escape :: "char \<Rightarrow> bool" where
  "simple_escape c \<longleftrightarrow> c \<in> set [CHR 0x22, CHR 0x5C, CHR ''/'', CHR ''b'', CHR ''f'', CHR ''n'', CHR ''r'', CHR ''t'']"

fun str_body :: "bytes \<Rightarrow> (bytes \<times> bytes) option" where
  "str_body [] = None"
| "str_body (c # s) =
     (if c = CHR 0x22 then Some ([], s)
      else if c = CHR 0x5C then
        (case s of
           [] \<Rightarrow> None
         | e # s' \<Rightarrow>
             if simple_escape e then map_option (\<lambda>(b, r). (c # e # b, r)) (str_body s')
             else if e = CHR ''u'' then
               (case s' of
                  a # b # d # f # s'' \<Rightarrow>
                    if is_hex a \<and> is_hex b \<and> is_hex d \<and> is_hex f
                    then map_option (\<lambda>(x, r). (c # e # a # b # d # f # x, r)) (str_body s'')
                    else None
                | _ \<Rightarrow> None)
             else None)
      else if (of_char c :: nat) < 32 then None
      else map_option (\<lambda>(b, r). (c # b, r)) (str_body s))"

text \<open>UTF-8: encoding a code point, and one step of decoding (\<open>utf8.DecodeRune\<close>).\<close>

definition utf8_encode :: "nat \<Rightarrow> bytes" where
  "utf8_encode n =
     (if n < 0x80 then [char_of n]
      else if n < 0x800 then [char_of (0xC0 + n div 64), char_of (0x80 + n mod 64)]
      else if n < 0x10000 then
        [char_of (0xE0 + n div 4096), char_of (0x80 + n div 64 mod 64), char_of (0x80 + n mod 64)]
      else [char_of (0xF0 + n div 262144), char_of (0x80 + n div 4096 mod 64),
            char_of (0x80 + n div 64 mod 64), char_of (0x80 + n mod 64)])"

definition replacement :: bytes where
  "replacement = utf8_encode 0xFFFD"

definition cont_byte :: "nat \<Rightarrow> nat \<Rightarrow> bytes \<Rightarrow> bool" where
  "cont_byte lo hi s = (case s of [] \<Rightarrow> False | c # _ \<Rightarrow> lo \<le> of_char c \<and> of_char c \<le> hi)"

text \<open>The length of the valid sequence at the head, or \<open>None\<close> (Go then consumes one byte).\<close>

definition rune_len :: "bytes \<Rightarrow> nat option" where
  "rune_len s =
     (case s of
        [] \<Rightarrow> None
      | c # s1 \<Rightarrow>
          (let n = of_char c :: nat; s2 = drop 1 s1; s3 = drop 2 s1 in
           if n < 0x80 then Some 1
           else if 0xC2 \<le> n \<and> n \<le> 0xDF then (if cont_byte 0x80 0xBF s1 then Some 2 else None)
           else if 0xE0 \<le> n \<and> n \<le> 0xEF then
             (if cont_byte (if n = 0xE0 then 0xA0 else 0x80) (if n = 0xED then 0x9F else 0xBF) s1
                 \<and> cont_byte 0x80 0xBF s2 then Some 3 else None)
           else if 0xF0 \<le> n \<and> n \<le> 0xF4 then
             (if cont_byte (if n = 0xF0 then 0x90 else 0x80) (if n = 0xF4 then 0x8F else 0xBF) s1
                 \<and> cont_byte 0x80 0xBF s2 \<and> cont_byte 0x80 0xBF s3 then Some 4 else None)
           else None))"

definition hex4 :: "char \<Rightarrow> char \<Rightarrow> char \<Rightarrow> char \<Rightarrow> nat" where
  "hex4 a b d f =
     (let v = (\<lambda>x. case hex_value x of None \<Rightarrow> 0 | Some n \<Rightarrow> n)
      in v a * 4096 + v b * 256 + v d * 16 + v f)"

text \<open>
  \<open>unescape\<close> decodes what follows a backslash and returns the rest: the one-letter escapes, a
  \<open>\\u\<close> escape, and a surrogate pair of two; a lone surrogate becomes U+FFFD and only its own
  escape is consumed.
\<close>

definition second_unit :: "bytes \<Rightarrow> nat option" where
  "second_unit s =
     (case s of
        x # u # a # b # d # f # _ \<Rightarrow>
          if x = CHR 0x5C \<and> u = CHR ''u'' \<and> is_hex a \<and> is_hex b \<and> is_hex d \<and> is_hex f
          then Some (hex4 a b d f) else None
      | _ \<Rightarrow> None)"

definition unescape_unit :: "nat \<Rightarrow> bytes \<Rightarrow> bytes \<times> bytes" where
  "unescape_unit r rest =
     (if 0xD800 \<le> r \<and> r < 0xE000 then
        (case second_unit rest of
           Some r2 \<Rightarrow>
             if r < 0xDC00 \<and> 0xDC00 \<le> r2 \<and> r2 < 0xE000
             then (utf8_encode ((r - 0xD800) * 1024 + (r2 - 0xDC00) + 0x10000), drop 6 rest)
             else (replacement, rest)
         | None \<Rightarrow> (replacement, rest))
      else (utf8_encode r, rest))"

definition unescape :: "bytes \<Rightarrow> bytes \<times> bytes" where
  "unescape s =
     (case s of
        [] \<Rightarrow> ([], [])
      | e # t \<Rightarrow>
          if e = CHR ''b'' then ([CHR 0x08], t)
          else if e = CHR ''f'' then ([CHR 0x0C], t)
          else if e = CHR ''n'' then ([CHR 0x0A], t)
          else if e = CHR ''r'' then ([CHR 0x0D], t)
          else if e = CHR ''t'' then ([CHR 0x09], t)
          else if e = CHR ''u'' then
            (case t of a # b # d # f # t' \<Rightarrow> unescape_unit (hex4 a b d f) t' | _ \<Rightarrow> ([], t))
          else ([e], t))"

lemma unescape_length: "length (snd (unescape s)) \<le> length s"
  by (auto simp: unescape_def unescape_unit_def split: list.splits option.splits)

lemma rune_len_pos: "rune_len s = Some k \<Longrightarrow> 0 < k \<and> s \<noteq> []"
  by (auto simp: rune_len_def Let_def split: list.splits if_splits)

function unquote :: "bytes \<Rightarrow> bytes" where
  "unquote s =
     (case s of
        [] \<Rightarrow> []
      | c # t \<Rightarrow>
          if c = CHR 0x5C then fst (unescape t) @ unquote (snd (unescape t))
          else (case rune_len s of
                  Some k \<Rightarrow> take k s @ unquote (drop k s)
                | None \<Rightarrow> replacement @ unquote t))"
  by pat_completeness auto
termination
  by (relation "measure length")
    (auto dest: rune_len_pos simp: unescape_length le_imp_less_Suc)

declare unquote.simps [simp del]

section \<open>Numbers\<close>

text \<open>
  The longest number literal at the head, by the grammar: an optional minus, 0 or digits that
  do not start with 0, an optional fraction, an optional exponent.
\<close>

definition digits1 :: "bytes \<Rightarrow> (bytes \<times> bytes) option" where
  "digits1 s = (let d = takeWhile is_digit s in if d = [] then None else Some (d, drop (length d) s))"

definition num_int :: "bytes \<Rightarrow> (bytes \<times> bytes) option" where
  "num_int s =
     (case s of
        [] \<Rightarrow> None
      | c # t \<Rightarrow> if c = CHR ''0'' then Some ([c], t) else digits1 s)"

definition num_frac :: "bytes \<Rightarrow> (bytes \<times> bytes) option" where
  "num_frac s =
     (case s of
        c # t \<Rightarrow> if c = CHR ''.'' then map_option (\<lambda>(d, r). (c # d, r)) (digits1 t) else Some ([], s)
      | [] \<Rightarrow> Some ([], s))"

definition num_exp :: "bytes \<Rightarrow> (bytes \<times> bytes) option" where
  "num_exp s =
     (case s of
        c # t \<Rightarrow>
          if c = CHR ''e'' \<or> c = CHR ''E'' then
            (case t of
               g # u \<Rightarrow>
                 if g = CHR ''+'' \<or> g = CHR ''-''
                 then map_option (\<lambda>(d, r). (c # g # d, r)) (digits1 u)
                 else map_option (\<lambda>(d, r). (c # d, r)) (digits1 t)
             | [] \<Rightarrow> None)
          else Some ([], s)
      | [] \<Rightarrow> Some ([], s))"

definition parse_number :: "bytes \<Rightarrow> (bytes \<times> bytes) option" where
  "parse_number s =
     (let (sign, s0) = (case s of c # t \<Rightarrow> if c = CHR ''-'' then ([c], t) else ([], s) | [] \<Rightarrow> ([], s)) in
      case num_int s0 of
        None \<Rightarrow> None
      | Some (i, s1) \<Rightarrow>
          (case num_frac s1 of
             None \<Rightarrow> None
           | Some (f, s2) \<Rightarrow>
               (case num_exp s2 of
                  None \<Rightarrow> None
                | Some (e, s3) \<Rightarrow> Some (sign @ i @ f @ e, s3))))"

section \<open>The parser\<close>

text \<open>
  Recursive descent with fuel.  \<open>NoFuel\<close> is told apart from a syntax error, and
  \<open>json_fuel_enough\<close> below shows it is never reached from the fuel the entry points give.
  \<open>d\<close> is the nesting depth; Go refuses more than 10000 open arrays and objects.
\<close>

datatype 'a presult = POk 'a bytes | PBad | NoFuel

definition maxNestingDepth :: nat where
  "maxNestingDepth = 10000"

fun parse_value :: "nat \<Rightarrow> nat \<Rightarrow> bytes \<Rightarrow> json presult"
and parse_elems :: "nat \<Rightarrow> nat \<Rightarrow> bytes \<Rightarrow> json list presult"
and parse_members :: "nat \<Rightarrow> nat \<Rightarrow> bytes \<Rightarrow> (string \<times> json) list presult" where
  "parse_value 0 d s = NoFuel"
| "parse_value (Suc n) d s =
     (case skip_ws s of
        [] \<Rightarrow> PBad
      | c # t \<Rightarrow>
          if c = CHR ''{'' then
            (if maxNestingDepth \<le> d then PBad
             else if HasPrefix (skip_ws t) ''}'' then POk (JObj []) (tl (skip_ws t))
             else (case parse_members n (Suc d) t of
                     POk kvs r \<Rightarrow> POk (JObj kvs) r | PBad \<Rightarrow> PBad | NoFuel \<Rightarrow> NoFuel))
          else if c = CHR ''['' then
            (if maxNestingDepth \<le> d then PBad
             else if HasPrefix (skip_ws t) '']'' then POk (JArr []) (tl (skip_ws t))
             else (case parse_elems n (Suc d) t of
                     POk vs r \<Rightarrow> POk (JArr vs) r | PBad \<Rightarrow> PBad | NoFuel \<Rightarrow> NoFuel))
          else if c = CHR 0x22 then
            (case str_body t of None \<Rightarrow> PBad | Some (b, r) \<Rightarrow> POk (JStr (unquote b)) r)
          else if HasPrefix (c # t) ''true'' then POk (JBool True) (drop 4 (c # t))
          else if HasPrefix (c # t) ''false'' then POk (JBool False) (drop 5 (c # t))
          else if HasPrefix (c # t) ''null'' then POk JNull (drop 4 (c # t))
          else (case parse_number (c # t) of None \<Rightarrow> PBad | Some (lit, r) \<Rightarrow> POk (JNum lit) r))"
| "parse_elems 0 d s = NoFuel"
| "parse_elems (Suc n) d s =
     (case parse_value n d s of
        POk v r \<Rightarrow>
          (case skip_ws r of
             [] \<Rightarrow> PBad
           | c # t \<Rightarrow>
               if c = CHR '','' then
                 (case parse_elems n d t of POk vs r' \<Rightarrow> POk (v # vs) r' | PBad \<Rightarrow> PBad | NoFuel \<Rightarrow> NoFuel)
               else if c = CHR '']'' then POk [v] t
               else PBad)
      | PBad \<Rightarrow> PBad | NoFuel \<Rightarrow> NoFuel)"
| "parse_members 0 d s = NoFuel"
| "parse_members (Suc n) d s =
     (case skip_ws s of
        [] \<Rightarrow> PBad
      | q # t \<Rightarrow>
          if q \<noteq> CHR 0x22 then PBad
          else
            (case str_body t of
               None \<Rightarrow> PBad
             | Some (k, r) \<Rightarrow>
                 if \<not> HasPrefix (skip_ws r) '':'' then PBad
                 else
                   (case parse_value n d (tl (skip_ws r)) of
                      POk v r2 \<Rightarrow>
                        (case skip_ws r2 of
                           [] \<Rightarrow> PBad
                         | c # t2 \<Rightarrow>
                             if c = CHR '','' then
                               (case parse_members n d t2 of
                                  POk kvs r' \<Rightarrow> POk ((unquote k, v) # kvs) r'
                                | PBad \<Rightarrow> PBad | NoFuel \<Rightarrow> NoFuel)
                             else if c = CHR ''}'' then POk [(unquote k, v)] t2
                             else PBad)
                    | PBad \<Rightarrow> PBad | NoFuel \<Rightarrow> NoFuel)))"

definition json_fuel :: "bytes \<Rightarrow> nat" where
  "json_fuel s = 2 * length s + 2"

text \<open>\<open>json.Unmarshal\<close> wants one value and nothing but white space after it; \<open>Decoder.Decode\<close> takes
  the first value of the stream.\<close>

definition json_unmarshal :: "bytes \<Rightarrow> json option" where
  "json_unmarshal s =
     (case parse_value (json_fuel s) 0 s of
        POk v r \<Rightarrow> if skip_ws r = [] then Some v else None
      | _ \<Rightarrow> None)"

definition json_decode_first :: "bytes \<Rightarrow> json option" where
  "json_decode_first s =
     (case parse_value (json_fuel s) 0 s of POk v r \<Rightarrow> Some v | _ \<Rightarrow> None)"

section \<open>The fuel is enough\<close>

lemma skip_ws_length: "length (skip_ws s) \<le> length s"
  by (simp add: skip_ws_def length_dropWhile_le)

lemma skip_ws_Cons: "skip_ws s = c # t \<Longrightarrow> length t < length s"
  using skip_ws_length [of s] by simp

lemma str_body_length: "str_body s = Some (b, r) \<Longrightarrow> length r < length s"
proof (induction s arbitrary: b rule: str_body.induct)
  case 1
  then show ?case by simp
next
  case (2 c s)
  then show ?case
    by (fastforce split: if_splits list.splits)
qed

lemma digits1_length: "digits1 s = Some (d, r) \<Longrightarrow> length r < length s"
proof -
  assume "digits1 s = Some (d, r)"
  then have d: "d = takeWhile is_digit s" "d \<noteq> []" "r = drop (length d) s"
    by (auto simp: digits1_def Let_def split: if_splits)
  have "0 < length d" "length d \<le> length s" using d(1,2) by (simp_all add: length_takeWhile_le)
  then show ?thesis unfolding d(3) length_drop by linarith
qed

lemma num_parts_length:
  "num_int s = Some (i, r) \<Longrightarrow> length r < length s"
  "num_frac s = Some (f, r) \<Longrightarrow> length r \<le> length s"
  "num_exp s = Some (e, r) \<Longrightarrow> length r \<le> length s"
  by (fastforce simp: num_int_def num_frac_def num_exp_def dest: digits1_length split: list.splits if_splits)+

lemma parse_number_length: "parse_number s = Some (lit, r) \<Longrightarrow> length r < length s"
  by (fastforce simp: parse_number_def Let_def dest!: num_parts_length split: list.splits if_splits option.splits)

lemma drop_lit: "HasPrefix (c # t) p \<Longrightarrow> p \<noteq> [] \<Longrightarrow> length (drop (length p) (c # t)) < length (c # t)"
  by (cases p) auto

lemma tl_skip_ws_length: "HasPrefix (skip_ws t) [c] \<Longrightarrow> length (tl (skip_ws t)) < length t"
  using skip_ws_length [of t] by (cases "skip_ws t") auto

lemma parse_consumes:
  "parse_value n d s = POk v r \<Longrightarrow> length r < length s"
  "parse_elems n d s = POk vs r \<Longrightarrow> length r < length s"
  "parse_members n d s = POk kvs r \<Longrightarrow> length r < length s"
proof (induction n d s and n d s and n d s arbitrary: v r and vs r and kvs r
    rule: parse_value_parse_elems_parse_members.induct)
  case (2 n d s)
  show ?case
  proof (cases "skip_ws s")
    case Nil
    with "2.prems" show ?thesis by simp
  next
    case (Cons c t)
    then have "length t < length s" by (rule skip_ws_Cons)
    moreover have "length (c # t) \<le> length s" using skip_ws_length [of s] Cons by simp
    ultimately show ?thesis
      using "2.prems" Cons "2.IH"(1,2) [OF Cons]
      by (auto dest: tl_skip_ws_length str_body_length parse_number_length drop_lit
          split: if_splits presult.splits option.splits intro: less_trans less_le_trans)
  qed
next
  case (4 n d s)
  then show ?case
    by (fastforce dest: skip_ws_Cons split: presult.splits list.splits if_splits)
next
  case (6 n d s)
  then show ?case
    by (fastforce dest: skip_ws_Cons str_body_length tl_skip_ws_length
        split: presult.splits list.splits if_splits option.splits)
qed simp_all

declare parse_value.simps [simp del] parse_elems.simps [simp del] parse_members.simps [simp del]

lemmas parse_zero = parse_value.simps(1) parse_elems.simps(1) parse_members.simps(1)

lemma json_fuel_enough:
  "2 * length s + 1 \<le> n \<Longrightarrow> parse_value n d s \<noteq> NoFuel"
  "2 * length s + 2 \<le> n \<Longrightarrow> parse_elems n d s \<noteq> NoFuel"
  "2 * length s + 1 \<le> n \<Longrightarrow> parse_members n d s \<noteq> NoFuel"
proof (induction n d s and n d s and n d s rule: parse_value_parse_elems_parse_members.induct)
  case (2 n d s)
  show ?case
  proof (cases "skip_ws s")
    case Nil
    then show ?thesis by (simp add: parse_value.simps(2) [of n d s])
  next
    case (Cons c t)
    then have "length t < length s" by (rule skip_ws_Cons)
    with "2.prems" Cons "2.IH"(1,2) [OF Cons] show ?thesis
      by (cases "c = CHR ''{''"; cases "c = CHR ''[''")
        (auto simp: parse_value.simps(2) [of n d s] simp del: HasPrefix.simps split: presult.splits option.splits)
  qed
next
  case (4 n d s)
  show ?case
  proof (cases "parse_value n d s")
    case (POk v r)
    then have len: "length r < length s" by (rule parse_consumes)
    show ?thesis
    proof (cases "skip_ws r")
      case Nil
      with POk show ?thesis by (simp add: parse_elems.simps(2) [of n d s])
    next
      case (Cons c t)
      with len skip_ws_Cons [OF Cons] "4.prems" POk "4.IH"(2) [OF POk Cons] show ?thesis
        by (cases "c = CHR '',''") (auto simp: parse_elems.simps(2) [of n d s] split: presult.splits)
    qed
  qed (use "4.prems" "4.IH"(1) in \<open>simp_all add: parse_elems.simps(2) [of n d s]\<close>)
next
  case (6 n d s)
  show ?case
  proof (cases "skip_ws s")
    case Nil
    then show ?thesis by (simp add: parse_members.simps(2) [of n d s])
  next
    case (Cons q t)
    show ?thesis
    proof (cases "q = CHR 0x22 \<and> (\<exists>k r. str_body t = Some (k, r) \<and> HasPrefix (skip_ws r) '':'')")
      case False
      with Cons show ?thesis
        by (auto simp: parse_members.simps(2) [of n d s] simp del: HasPrefix.simps split: option.splits)
    next
      case True
      then obtain k r where q: "q = CHR 0x22" and b: "str_body t = Some (k, r)"
        and col: "HasPrefix (skip_ws r) '':''" by blast
      have len: "length (tl (skip_ws r)) + 2 < length s"
        using skip_ws_Cons [OF Cons] str_body_length [OF b] tl_skip_ws_length [OF col] by linarith
      note IH = "6.IH" [OF Cons _ b refl]
      show ?thesis
      proof (cases "parse_value n d (tl (skip_ws r))")
        case (POk v r2)
        then have len2: "length r2 < length (tl (skip_ws r))" by (rule parse_consumes)
        show ?thesis
        proof (cases "skip_ws r2")
          case Nil
          with POk Cons q b col show ?thesis
            by (simp add: parse_members.simps(2) [of n d s] del: HasPrefix.simps)
        next
          case r2: (Cons c t2)
          with len len2 skip_ws_Cons [OF r2] "6.prems" POk Cons q b col IH(2) [OF _ _ POk r2]
          show ?thesis
            by (cases "c = CHR '',''")
              (auto simp: parse_members.simps(2) [of n d s] simp del: HasPrefix.simps split: presult.splits)
        qed
      next
        case PBad
        with Cons q b col show ?thesis
          by (simp add: parse_members.simps(2) [of n d s] del: HasPrefix.simps)
      next
        case NoFuel
        with Cons q b col IH(1) "6.prems" len show ?thesis by simp
      qed
    qed
  qed
qed (simp_all add: parse_zero)

text \<open>More fuel never changes a result.\<close>

lemma parse_more_fuel:
  "parse_value n d s \<noteq> NoFuel \<Longrightarrow> parse_value (Suc n) d s = parse_value n d s"
  "parse_elems n d s \<noteq> NoFuel \<Longrightarrow> parse_elems (Suc n) d s = parse_elems n d s"
  "parse_members n d s \<noteq> NoFuel \<Longrightarrow> parse_members (Suc n) d s = parse_members n d s"
proof (induction n d s and n d s and n d s rule: parse_value_parse_elems_parse_members.induct)
  case (2 n d s)
  show ?case
  proof (cases "skip_ws s")
    case Nil
    then show ?thesis by (simp add: parse_value.simps(2) [of n d s] parse_value.simps(2) [of "Suc n" d s])
  next
    case (Cons c t)
    with "2.prems" "2.IH" [OF Cons] show ?thesis
      by (cases "c = CHR ''{''"; cases "c = CHR ''[''")
        (auto simp add: parse_value.simps(2) [of n d s] parse_value.simps(2) [of "Suc n" d s]
          simp del: HasPrefix.simps split: presult.splits if_splits)
  qed
next
  case (4 n d s)
  note eqs = parse_elems.simps(2) [of n d s] parse_elems.simps(2) [of "Suc n" d s]
  show ?case
  proof (cases "parse_value n d s")
    case (POk v r)
    with "4.IH"(1) have more: "parse_value (Suc n) d s = POk v r" by simp
    show ?thesis
    proof (cases "skip_ws r")
      case Nil
      with POk more show ?thesis by (simp add: eqs)
    next
      case (Cons c t)
      with POk more "4.prems" "4.IH"(2) [OF POk Cons] show ?thesis
        by (cases "c = CHR '',''") (auto simp: eqs split: presult.splits)
    qed
  qed (use "4.prems" "4.IH"(1) in \<open>simp_all add: eqs\<close>)
next
  case (6 n d s)
  note eqs = parse_members.simps(2) [of n d s] parse_members.simps(2) [of "Suc n" d s]
  show ?case
  proof (cases "\<exists>t k r. skip_ws s = CHR 0x22 # t \<and> str_body t = Some (k, r) \<and> HasPrefix (skip_ws r) '':''")
    case False
    then show ?thesis
      by (auto simp: eqs simp del: HasPrefix.simps split: list.splits option.splits)
  next
    case True
    then obtain t k r where h: "skip_ws s = CHR 0x22 # t" "str_body t = Some (k, r)"
      "HasPrefix (skip_ws r) '':''" by blast
    note IH = "6.IH" [OF h(1) _ h(2) refl]
    show ?thesis
    proof (cases "parse_value n d (tl (skip_ws r))")
      case (POk v r2)
      with "6.prems" h IH(1) IH(2) [OF _ _ POk] show ?thesis
        by (auto simp: eqs simp del: HasPrefix.simps split: list.splits presult.splits)
    next
      case PBad
      with "6.prems" h IH(1) show ?thesis by (simp add: eqs del: HasPrefix.simps)
    next
      case NoFuel
      with "6.prems" h show ?thesis by (simp add: eqs del: HasPrefix.simps)
    qed
  qed
qed (simp_all add: parse_zero)

lemma parse_value_fuel:
  assumes "parse_value n d s = x" "x \<noteq> NoFuel" "n \<le> m"
  shows "parse_value m d s = x"
  using assms(3,1,2)
proof (induction rule: dec_induct)
  case base
  then show ?case by simp
next
  case (step k)
  then show ?case using parse_more_fuel(1) [of k d s] by simp
qed

lemma json_unmarshal_fuel:
  assumes "parse_value n 0 s = POk v r" "n \<le> json_fuel s"
  shows "json_unmarshal s = (if skip_ws r = [] then Some v else None)"
  using parse_value_fuel [OF assms(1) _ assms(2)] by (simp add: json_unmarshal_def)

end
