(* ===== verification/Tap.thy ===== *)
theory Tap
  imports Json
begin

text \<open>
  internal/proxy/tap.go: the reader that streams a response body through while it collects the
  token usage from the SSE lines, and \<open>extractJSONUsage\<close> of proxy.go with the envelopes they
  share.  \<open>json.Unmarshal\<close> is \<open>json_unmarshal\<close> followed by decoding into the struct fields.
\<close>

section \<open>Decoding into struct fields\<close>

text \<open>
  Go matches an object key to a field name without regard to case: ASCII letters, and the two
  non-ASCII runes that fold to an ASCII letter (U+017F to \<open>s\<close>, U+212A to \<open>k\<close>).
\<close>

definition lower_char :: "char \<Rightarrow> char" where
  "lower_char c = (let n = of_char c :: nat in if 65 \<le> n \<and> n \<le> 90 then char_of (n + 32) else c)"

fun fold_key :: "string \<Rightarrow> string" where
  "fold_key [] = []"
| "fold_key (c # s) =
     (if c = CHR 0xC5 \<and> HasPrefix s [CHR 0xBF] then CHR ''s'' # fold_key (drop 1 s)
      else if c = CHR 0xE2 \<and> HasPrefix s [CHR 0x84, CHR 0xAA] then CHR ''k'' # fold_key (drop 2 s)
      else lower_char c # fold_key s)"

definition digit_value :: "char \<Rightarrow> int" where
  "digit_value c = int (of_char c) - 48"

definition digits_value :: "string \<Rightarrow> int" where
  "digits_value ds = foldl (\<lambda>n c. n * 10 + digit_value c) 0 ds"

text \<open>\<open>strconv.ParseInt(lit, 10, 64)\<close> on a number literal.\<close>

definition parse_int64 :: "string \<Rightarrow> int option" where
  "parse_int64 lit =
     (let (neg, ds) = (case lit of c # t \<Rightarrow> if c = CHR ''-'' then (True, t) else (False, lit) | [] \<Rightarrow> (False, []));
          n = (if neg then - digits_value ds else digits_value ds) in
      if ds \<noteq> [] \<and> list_all is_digit ds \<and> fits64 n then Some n else None)"

text \<open>
  A decoded field is its new value and whether it decoded: a JSON null leaves the field as it is,
  a value of the wrong kind leaves it too but makes \<open>Unmarshal\<close> return an error at the end.
\<close>

definition decode_int :: "json \<Rightarrow> int \<Rightarrow> int \<times> bool" where
  "decode_int v old =
     (case v of
        JNull \<Rightarrow> (old, True)
      | JNum lit \<Rightarrow> (case parse_int64 lit of Some n \<Rightarrow> (n, True) | None \<Rightarrow> (old, False))
      | _ \<Rightarrow> (old, False))"

definition decode_str :: "json \<Rightarrow> string \<Rightarrow> string \<times> bool" where
  "decode_str v old =
     (case v of JNull \<Rightarrow> (old, True) | JStr s \<Rightarrow> (s, True) | _ \<Rightarrow> (old, False))"

definition decode_struct :: "(string \<Rightarrow> json \<Rightarrow> 'a \<Rightarrow> 'a \<times> bool) \<Rightarrow> json \<Rightarrow> 'a \<Rightarrow> 'a \<times> bool" where
  "decode_struct field v a =
     (case v of
        JNull \<Rightarrow> (a, True)
      | JObj kvs \<Rightarrow>
          foldl (\<lambda>(x, ok) (k, w). (case field (fold_key k) w x of (x', ok') \<Rightarrow> (x', ok \<and> ok'))) (a, True) kvs
      | _ \<Rightarrow> (a, False))"

record usageFields =
  uf_InputTokens :: int
  uf_OutputTokens :: int
  uf_CacheCreationInputTokens :: int
  uf_CacheReadInputTokens :: int

definition zero_fields :: usageFields where
  "zero_fields = \<lparr>uf_InputTokens = 0, uf_OutputTokens = 0, uf_CacheCreationInputTokens = 0,
     uf_CacheReadInputTokens = 0\<rparr>"

definition usage_field :: "string \<Rightarrow> json \<Rightarrow> usageFields \<Rightarrow> usageFields \<times> bool" where
  "usage_field k v u =
     (if k = ''input_tokens'' then (case decode_int v (uf_InputTokens u) of (n, ok) \<Rightarrow> (u\<lparr>uf_InputTokens := n\<rparr>, ok))
      else if k = ''output_tokens'' then (case decode_int v (uf_OutputTokens u) of (n, ok) \<Rightarrow> (u\<lparr>uf_OutputTokens := n\<rparr>, ok))
      else if k = ''cache_creation_input_tokens'' then
        (case decode_int v (uf_CacheCreationInputTokens u) of (n, ok) \<Rightarrow> (u\<lparr>uf_CacheCreationInputTokens := n\<rparr>, ok))
      else if k = ''cache_read_input_tokens'' then
        (case decode_int v (uf_CacheReadInputTokens u) of (n, ok) \<Rightarrow> (u\<lparr>uf_CacheReadInputTokens := n\<rparr>, ok))
      else (u, True))"

text \<open>
  \<open>jsonUsageEnvelope\<close> (and the \<open>message\<close> object of \<open>messageStartEnvelope\<close>, which has the same two
  fields): a model name and the counters.
\<close>

record modelUsage =
  mu_Model :: string
  mu_Usage :: usageFields

definition zero_model_usage :: modelUsage where
  "zero_model_usage = \<lparr>mu_Model = [], mu_Usage = zero_fields\<rparr>"

definition model_usage_field :: "string \<Rightarrow> json \<Rightarrow> modelUsage \<Rightarrow> modelUsage \<times> bool" where
  "model_usage_field k v e =
     (if k = ''model'' then (case decode_str v (mu_Model e) of (s, ok) \<Rightarrow> (e\<lparr>mu_Model := s\<rparr>, ok))
      else if k = ''usage'' then
        (case decode_struct usage_field v (mu_Usage e) of (u, ok) \<Rightarrow> (e\<lparr>mu_Usage := u\<rparr>, ok))
      else (e, True))"

definition start_field :: "string \<Rightarrow> json \<Rightarrow> modelUsage \<Rightarrow> modelUsage \<times> bool" where
  "start_field k v e = (if k = ''message'' then decode_struct model_usage_field v e else (e, True))"

definition delta_field :: "string \<Rightarrow> json \<Rightarrow> usageFields \<Rightarrow> usageFields \<times> bool" where
  "delta_field k v u = (if k = ''usage'' then decode_struct usage_field v u else (u, True))"

text \<open>\<open>json.Unmarshal(data, &env)\<close> with a zero \<open>env\<close>: \<open>None\<close> is a returned error.\<close>

definition unmarshal_into :: "(string \<Rightarrow> json \<Rightarrow> 'a \<Rightarrow> 'a \<times> bool) \<Rightarrow> 'a \<Rightarrow> bytes \<Rightarrow> 'a option" where
  "unmarshal_into field z data =
     (case json_unmarshal data of
        None \<Rightarrow> None
      | Some v \<Rightarrow> (case decode_struct field v z of (e, ok) \<Rightarrow> if ok then Some e else None))"

section \<open>The tapping reader\<close>

record UsageData =
  ud_InputTokens :: int
  ud_OutputTokens :: int
  ud_CacheCreationInputTokens :: int
  ud_CacheReadInputTokens :: int
  ud_Model :: string

definition zero_usage :: UsageData where
  "zero_usage = \<lparr>ud_InputTokens = 0, ud_OutputTokens = 0, ud_CacheCreationInputTokens = 0,
     ud_CacheReadInputTokens = 0, ud_Model = []\<rparr>"

definition parseMessageStart :: "bytes \<Rightarrow> UsageData \<Rightarrow> UsageData" where
  "parseMessageStart data u =
     (case unmarshal_into start_field zero_model_usage data of
        None \<Rightarrow> u
      | Some e \<Rightarrow> u\<lparr>ud_Model := mu_Model e, ud_InputTokens := uf_InputTokens (mu_Usage e),
                   ud_CacheCreationInputTokens := uf_CacheCreationInputTokens (mu_Usage e),
                   ud_CacheReadInputTokens := uf_CacheReadInputTokens (mu_Usage e)\<rparr>)"

definition parseMessageDelta :: "bytes \<Rightarrow> UsageData \<Rightarrow> UsageData" where
  "parseMessageDelta data u =
     (case unmarshal_into delta_field zero_fields data of
        None \<Rightarrow> u
      | Some f \<Rightarrow> u\<lparr>ud_OutputTokens := uf_OutputTokens f\<rparr>)"

definition sseDataPrefix :: bytes where
  "sseDataPrefix = ''data: ''"

definition sseEventMessageStart :: bytes where
  "sseEventMessageStart = ''message_start''"

definition sseEventMessageDelta :: bytes where
  "sseEventMessageDelta = ''message_delta''"

definition processLine :: "UsageData \<Rightarrow> bytes \<Rightarrow> UsageData" where
  "processLine u line =
     (if \<not> HasPrefix line sseDataPrefix then u
      else let payload = drop (length sseDataPrefix) line;
               hasStart = Contains payload sseEventMessageStart;
               hasDelta = Contains payload sseEventMessageDelta in
        if \<not> hasStart \<and> \<not> hasDelta then u
        else if hasStart then parseMessageStart payload u
        else parseMessageDelta payload u)"

text \<open>\<open>tp_onComplete\<close> tells whether the callback is still set.\<close>

record tappingReader =
  tp_usage :: UsageData
  tp_onComplete :: bool
  tp_lineBuf :: bytes

definition newTappingReader :: tappingReader where
  "newTappingReader = \<lparr>tp_usage = zero_usage, tp_onComplete = True, tp_lineBuf = []\<rparr>"

definition NL :: char where
  "NL = CHR 0x0A"

text \<open>
  The loop of \<open>scan\<close>: the usage and what is left in the line buffer.  The line buffer is empty
  when the loop starts, as \<open>scan\<close> has moved it in front of the chunk.
\<close>

function scan_loop :: "UsageData \<Rightarrow> bytes \<Rightarrow> UsageData \<times> bytes" where
  "scan_loop u chunk =
     (if chunk = [] then (u, [])
      else if NL \<notin> set chunk then (u, chunk)
      else scan_loop (processLine u (takeWhile (\<lambda>c. c \<noteq> NL) chunk)) (tl (dropWhile (\<lambda>c. c \<noteq> NL) chunk)))"
  by pat_completeness auto
termination
proof (relation "measure (\<lambda>(u, s). length s)")
  fix u :: UsageData and chunk :: bytes
  assume "chunk \<noteq> []" "\<not> NL \<notin> set chunk"
  moreover have "length (dropWhile (\<lambda>c. c \<noteq> NL) chunk) \<le> length chunk" by (rule length_dropWhile_le)
  ultimately show "((processLine u (takeWhile (\<lambda>c. c \<noteq> NL) chunk), tl (dropWhile (\<lambda>c. c \<noteq> NL) chunk)), u, chunk)
      \<in> measure (\<lambda>(u, s). length s)"
    by (cases chunk) auto
qed simp

declare scan_loop.simps [simp del]

definition scan :: "tappingReader \<Rightarrow> bytes \<Rightarrow> tappingReader" where
  "scan t chunk =
     (case scan_loop (tp_usage t) (tp_lineBuf t @ chunk) of
        (u, buf) \<Rightarrow> t\<lparr>tp_usage := u, tp_lineBuf := buf\<rparr>)"

text \<open>
  One \<open>Read\<close>: \<open>data\<close> and \<open>err\<close> are what the wrapped reader returns; the caller gets the same
  two, and \<open>onComplete\<close> is called with the third component when there is one.
\<close>

datatype read_err = EOF | ReadFailed

definition Read ::
  "tappingReader \<Rightarrow> bytes \<times> read_err option \<Rightarrow> (bytes \<times> read_err option) \<times> UsageData option \<times> tappingReader" where
  "Read t r =
     (case r of (data, err) \<Rightarrow>
       let t1 = (if data \<noteq> [] then scan t data else t) in
       if err = Some EOF \<and> tp_onComplete t1
       then ((data, err), Some (tp_usage t1), t1\<lparr>tp_onComplete := False\<rparr>)
       else ((data, err), None, t1))"

fun read_all ::
  "tappingReader \<Rightarrow> (bytes \<times> read_err option) list \<Rightarrow> (bytes \<times> read_err option) list \<times> UsageData list \<times> tappingReader" where
  "read_all t [] = ([], [], t)"
| "read_all t (r # rs) =
     (case Read t r of (out, e, t1) \<Rightarrow>
      case read_all t1 rs of (outs, es, t2) \<Rightarrow>
        (out # outs, (case e of None \<Rightarrow> es | Some u \<Rightarrow> u # es), t2))"

definition extractJSONUsage :: "bytes \<Rightarrow> UsageData" where
  "extractJSONUsage body =
     (case unmarshal_into model_usage_field zero_model_usage body of
        None \<Rightarrow> zero_usage
      | Some e \<Rightarrow> \<lparr>ud_InputTokens = uf_InputTokens (mu_Usage e), ud_OutputTokens = uf_OutputTokens (mu_Usage e),
                   ud_CacheCreationInputTokens = uf_CacheCreationInputTokens (mu_Usage e),
                   ud_CacheReadInputTokens = uf_CacheReadInputTokens (mu_Usage e), ud_Model = mu_Model e\<rparr>)"

section \<open>The specification: lines of the whole stream\<close>

text \<open>The newline-terminated lines of a byte string, and what follows the last newline.\<close>

fun lines_of :: "bytes \<Rightarrow> bytes list \<times> bytes" where
  "lines_of [] = ([], [])"
| "lines_of (c # s) =
     (case lines_of s of (ls, r) \<Rightarrow>
       if c = NL then ([] # ls, r)
       else (case ls of [] \<Rightarrow> ([], c # r) | l # ls' \<Rightarrow> ((c # l) # ls', r)))"

definition stream_usage :: "bytes \<Rightarrow> UsageData" where
  "stream_usage s = foldl processLine zero_usage (fst (lines_of s))"

lemma lines_of_no_nl: "NL \<notin> set s \<Longrightarrow> lines_of s = ([], s)"
  by (induction s) auto

lemma lines_of_nl: "NL \<notin> set l \<Longrightarrow> lines_of (l @ NL # s) = (l # fst (lines_of s), snd (lines_of s))"
  by (induction l) (auto split: prod.splits)

lemma lines_of_rest: "NL \<notin> set (snd (lines_of s))"
  by (induction s) (auto split: prod.splits list.splits)

lemma lines_of_append:
  "lines_of (a @ b) = (fst (lines_of a) @ fst (lines_of (snd (lines_of a) @ b)), snd (lines_of (snd (lines_of a) @ b)))"
proof (induction a)
  case Nil
  then show ?case by simp
next
  case (Cons c a)
  show ?case
  proof (cases "c = NL")
    case True
    with Cons show ?thesis by (simp split: prod.splits)
  next
    case False
    show ?thesis
    proof (cases "fst (lines_of a)")
      case Nil
      with Cons False show ?thesis by (cases "lines_of a") (simp split: prod.splits)
    next
      case (Cons l ls)
      with Cons.IH False show ?thesis by (cases "lines_of a") (simp split: prod.splits)
    qed
  qed
qed

lemma scan_loop_lines: "scan_loop u s = (foldl processLine u (fst (lines_of s)), snd (lines_of s))"
proof (induction u s rule: scan_loop.induct)
  case (1 u s)
  show ?case
  proof (cases "NL \<in> set s")
    case False
    then show ?thesis by (cases "s = []") (simp_all add: scan_loop.simps [of u s] scan_loop.simps [of u "[]"] lines_of_no_nl)
  next
    case True
    let ?l = "takeWhile (\<lambda>c. c \<noteq> NL) s" and ?r = "tl (dropWhile (\<lambda>c. c \<noteq> NL) s)"
    have "s = ?l @ NL # ?r"
      using True by (metis (mono_tags, lifting) dropWhile_eq_Nil_conv hd_dropWhile list.collapse takeWhile_dropWhile_id)
    then have "lines_of s = (?l # fst (lines_of ?r), snd (lines_of ?r))"
      by (metis (mono_tags, lifting) lines_of_nl set_takeWhileD)
    moreover have "s \<noteq> []" using True by auto
    ultimately show ?thesis
      using "1.IH" True by (simp add: scan_loop.simps [of u s])
  qed
qed

end
