(* ===== verification/Testutil.thy ===== *)
theory Testutil
  imports Tap
begin

text \<open>
  testutil/testutil.go: the builders of mock upstream responses.  They are the other end of the
  wire format the tapping reader understands, and the round trip between the two is proved in
  \<open>Tap_Properties\<close>.
\<close>

text \<open>\<open>fmt.Sprintf("%d", n)\<close>.\<close>

definition digit_char :: "nat \<Rightarrow> char" where
  "digit_char d = char_of (48 + d)"

fun nat_digits :: "nat \<Rightarrow> string" where
  "nat_digits n = (if n < 10 then [digit_char n] else nat_digits (n div 10) @ [digit_char (n mod 10)])"

declare nat_digits.simps [simp del]

definition fmt_d :: "int \<Rightarrow> string" where
  "fmt_d n = (if n < 0 then CHR ''-'' # nat_digits (nat (- n)) else nat_digits (nat n))"

record SSEEvent =
  ev_Event :: string
  ev_Data :: string

text \<open>\<open>""\<close> stands for the quote of a JSON string; the source writes the data in raw Go literals.\<close>

definition quote :: string where
  "quote = [CHR 0x22]"

definition BuildSSEResponse :: "SSEEvent list \<Rightarrow> string" where
  "BuildSSEResponse events =
     concat (map (\<lambda>e.
       (if ev_Event e \<noteq> [] then ''event: '' @ ev_Event e @ [NL] else []) @
       ''data: '' @ ev_Data e @ [NL, NL]) events)"

text \<open>A JSON object written without spaces, from quoted keys and raw values.\<close>

definition json_str :: "string \<Rightarrow> string" where
  "json_str s = quote @ s @ quote"

definition json_field :: "string \<Rightarrow> string \<Rightarrow> string" where
  "json_field k v = json_str k @ '':'' @ v"

fun json_fields :: "(string \<times> string) list \<Rightarrow> string" where
  "json_fields [] = []"
| "json_fields [(k, v)] = json_field k v"
| "json_fields ((k, v) # kvs) = json_field k v @ '','' @ json_fields kvs"

definition json_object :: "(string \<times> string) list \<Rightarrow> string" where
  "json_object kvs = ''{'' @ json_fields kvs @ ''}''"

definition StandardSSEEvents :: "int \<Rightarrow> int \<Rightarrow> SSEEvent list" where
  "StandardSSEEvents inputTokens outputTokens =
     [\<lparr>ev_Event = ''message_start'',
       ev_Data = json_object
         [(''type'', json_str ''message_start''),
          (''message'', json_object
             [(''id'', json_str ''msg_test''), (''type'', json_str ''message''),
              (''role'', json_str ''assistant''), (''content'', ''[]''),
              (''model'', json_str ''claude-sonnet-4-20250514''),
              (''usage'', json_object
                 [(''input_tokens'', fmt_d inputTokens), (''output_tokens'', ''1'')])])]\<rparr>,
      \<lparr>ev_Event = ''content_block_start'',
       ev_Data = json_object
         [(''type'', json_str ''content_block_start''), (''index'', ''0''),
          (''content_block'', json_object [(''type'', json_str ''text''), (''text'', json_str [])])]\<rparr>,
      \<lparr>ev_Event = ''content_block_delta'',
       ev_Data = json_object
         [(''type'', json_str ''content_block_delta''), (''index'', ''0''),
          (''delta'', json_object [(''type'', json_str ''text_delta''), (''text'', json_str ''Hello'')])]\<rparr>,
      \<lparr>ev_Event = ''content_block_stop'',
       ev_Data = json_object [(''type'', json_str ''content_block_stop''), (''index'', ''0'')]\<rparr>,
      \<lparr>ev_Event = ''message_delta'',
       ev_Data = json_object
         [(''type'', json_str ''message_delta''),
          (''delta'', json_object [(''stop_reason'', json_str ''end_turn'')]),
          (''usage'', json_object [(''output_tokens'', fmt_d outputTokens)])]\<rparr>,
      \<lparr>ev_Event = ''message_stop'',
       ev_Data = json_object [(''type'', json_str ''message_stop'')]\<rparr>]"

text \<open>
  The handlers of the two mock upstreams: the status, the header they set, and the pieces they write, each
  flushed.  The JSON encoder sorts the keys of a map and ends with a newline.
\<close>

record written_response =
  wr_status :: int
  wr_header :: "(string \<times> string) list"
  wr_writes :: "string list"

definition write_event :: "SSEEvent \<Rightarrow> string" where
  "write_event e = (if ev_Event e \<noteq> [] then ''event: '' @ ev_Event e @ [NL] else []) @ ''data: '' @ ev_Data e @ [NL, NL]"

definition NewMockUpstream :: written_response where
  "NewMockUpstream =
     \<lparr>wr_status = 200, wr_header = [(''Content-Type'', ''text/event-stream''), (''Cache-Control'', ''no-cache'')],
      wr_writes = map write_event (StandardSSEEvents 25 15)\<rparr>"

definition mock_json_body :: string where
  "mock_json_body = json_object
     [(''content'', ''['' @ json_object [(''text'', json_str ''Hello''), (''type'', json_str ''text'')] @ '']''),
      (''id'', json_str ''msg_test''), (''model'', json_str ''claude-sonnet-4-20250514''),
      (''role'', json_str ''assistant''), (''type'', json_str ''message''),
      (''usage'', json_object [(''input_tokens'', fmt_d 25), (''output_tokens'', fmt_d 15)])] @ [NL]"

definition NewMockUpstreamJSON :: written_response where
  "NewMockUpstreamJSON =
     \<lparr>wr_status = 200, wr_header = [(''Content-Type'', ''application/json'')], wr_writes = [mock_json_body]\<rparr>"

lemma mock_body: "concat (wr_writes NewMockUpstream) = BuildSSEResponse (StandardSSEEvents 25 15)"
  by (simp add: NewMockUpstream_def BuildSSEResponse_def write_event_def [abs_def])

end
