(* ===== verification/Tap_Properties.thy ===== *)
theory Tap_Properties
  imports Testutil
begin

text \<open>
  What the tapping reader promises: it forwards the body untouched, its result does not depend on
  how the body is cut into reads, it reports exactly once and only at the end, and it recovers
  the counters of a well-formed event stream.
\<close>

section \<open>Streaming\<close>

text \<open>The state after some reads is the state after one read of everything.\<close>

definition tapped :: "tappingReader \<Rightarrow> bytes \<Rightarrow> bool" where
  "tapped t s \<longleftrightarrow> tp_usage t = stream_usage s \<and> tp_lineBuf t = snd (lines_of s)"

lemma tapped_new: "tapped newTappingReader []"
  by (simp add: tapped_def newTappingReader_def stream_usage_def)

lemma tapped_scan: "tapped t s \<Longrightarrow> tapped (scan t d) (s @ d)"
  by (auto simp: tapped_def scan_def scan_loop_lines stream_usage_def lines_of_append [of s d] foldl_append)

lemma scan_onComplete [simp]: "tp_onComplete (scan t d) = tp_onComplete t"
  by (simp add: scan_def split: prod.splits)

lemma tapped_Read:
  assumes "tapped t s" "Read t (d, e) = (out, u, t')"
  shows "tapped t' (s @ d)" "out = (d, e)"
    "u = (if e = Some EOF \<and> tp_onComplete t then Some (stream_usage (s @ d)) else None)"
    "tp_onComplete t' = (tp_onComplete t \<and> e \<noteq> Some EOF)"
proof -
  let ?t1 = "if d \<noteq> [] then scan t d else t"
  have t1: "tapped ?t1 (s @ d)" "tp_onComplete ?t1 = tp_onComplete t"
    using assms(1) by (auto simp: tapped_scan)
  from assms(2) have "out = (d, e)"
    and r: "(u, t') = (if e = Some EOF \<and> tp_onComplete ?t1
        then (Some (tp_usage ?t1), ?t1\<lparr>tp_onComplete := False\<rparr>) else (None, ?t1))"
    by (auto simp: Read_def Let_def split: if_splits)
  then show "tapped t' (s @ d)" "out = (d, e)"
    "u = (if e = Some EOF \<and> tp_onComplete t then Some (stream_usage (s @ d)) else None)"
    "tp_onComplete t' = (tp_onComplete t \<and> e \<noteq> Some EOF)"
    using t1 by (auto simp: tapped_def split: if_splits)
qed

text \<open>The bytes up to and including the read that first reports \<open>EOF\<close>, if one does.\<close>

fun until_eof :: "(bytes \<times> read_err option) list \<Rightarrow> bytes option" where
  "until_eof [] = None"
| "until_eof ((d, e) # rs) = (if e = Some EOF then Some d else map_option (\<lambda>s. d @ s) (until_eof rs))"

lemma read_all_silent:
  assumes "\<not> tp_onComplete t" "tapped t s" "read_all t rs = (outs, us, t')"
  shows "us = [] \<and> outs = rs"
  using assms
proof (induction rs arbitrary: t s outs us)
  case Nil
  then show ?case by simp
next
  case (Cons r rs)
  obtain d e where r: "r = (d, e)" by fastforce
  obtain out u t1 where R: "Read t (d, e) = (out, u, t1)" by (metis prod_cases3)
  obtain outs' us' where A: "read_all t1 rs = (outs', us', t')"
    using Cons.prems(3) r R by (auto split: prod.splits)
  note step = tapped_Read [OF Cons.prems(2) R]
  have "us' = [] \<and> outs' = rs"
    by (rule Cons.IH [OF _ step(1) A]) (simp add: step Cons.prems(1))
  with step R r A Cons.prems show ?case by auto
qed

lemma read_all_tapped:
  assumes "tp_onComplete t" "tapped t s" "read_all t rs = (outs, us, t')"
  shows "outs = rs \<and> us = (case until_eof rs of None \<Rightarrow> [] | Some d \<Rightarrow> [stream_usage (s @ d)])"
  using assms
proof (induction rs arbitrary: t s outs us)
  case Nil
  then show ?case by simp
next
  case (Cons r rs)
  obtain d e where r: "r = (d, e)" by fastforce
  obtain out u t1 where R: "Read t (d, e) = (out, u, t1)" by (metis prod_cases3)
  obtain outs' us' where A: "read_all t1 rs = (outs', us', t')"
    using Cons.prems(3) r R by (auto split: prod.splits)
  note step = tapped_Read [OF Cons.prems(2) R]
  from Cons.prems(3) r R A have os: "outs = out # outs'" "us = (case u of None \<Rightarrow> us' | Some x \<Rightarrow> x # us')"
    by auto
  show ?case
  proof (cases "e = Some EOF")
    case True
    then have "us' = [] \<and> outs' = rs"
      by (intro read_all_silent [OF _ step(1) A]) (simp add: step)
    with True step os r Cons.prems(1) show ?thesis by simp
  next
    case False
    then have "outs' = rs \<and> us' = (case until_eof rs of None \<Rightarrow> [] | Some x \<Rightarrow> [stream_usage ((s @ d) @ x)])"
      by (intro Cons.IH [OF _ step(1) A]) (simp add: step Cons.prems(1))
    with False step os r show ?thesis by (simp split: option.splits)
  qed
qed

lemma read_all_new:
  "fst (read_all newTappingReader rs) = rs"
  "fst (snd (read_all newTappingReader rs)) =
     (case until_eof rs of None \<Rightarrow> [] | Some s \<Rightarrow> [stream_usage s])"
proof -
  obtain outs us t' where A: "read_all newTappingReader rs = (outs, us, t')" by (metis prod_cases3)
  moreover have "tp_onComplete newTappingReader" by (simp add: newTappingReader_def)
  ultimately show "fst (read_all newTappingReader rs) = rs"
    "fst (snd (read_all newTappingReader rs)) = (case until_eof rs of None \<Rightarrow> [] | Some s \<Rightarrow> [stream_usage s])"
    using read_all_tapped [OF _ tapped_new A] by (simp_all split: option.splits)
qed

text \<open>
  C29: The tap is transparent and independent of chunking.  Whatever sequence of reads the wrapped
  reader answers, the caller sees exactly those answers, bytes and errors; the callback fires at
  most once, exactly when an \<open>EOF\<close> is seen, and then with the usage of the concatenated bytes,
  so where the network cuts the stream makes no difference.  A stream that is broken off by
  another error, or never read to its end, reports nothing.
\<close>
theorem tap_transparent:
  "fst (read_all newTappingReader rs) = rs \<and>
   fst (snd (read_all newTappingReader rs)) =
     (case until_eof rs of None \<Rightarrow> [] | Some s \<Rightarrow> [stream_usage s])"
  by (simp add: read_all_new)

text \<open>
  The usage is a function of the complete lines.  Cutting a body anywhere gives the same
  result; bytes after the last newline are never interpreted, so an unterminated final event is
  lost.
\<close>
theorem tap_lines_only:
  "stream_usage (a @ b) = foldl processLine (stream_usage a) (fst (lines_of (snd (lines_of a) @ b))) \<and>
   (NL \<notin> set b \<longrightarrow> stream_usage (a @ [NL] @ b) = stream_usage (a @ [NL]))"
proof -
  have app: "stream_usage (x @ y) = foldl processLine (stream_usage x) (fst (lines_of (snd (lines_of x) @ y)))" for x y
    by (simp add: stream_usage_def lines_of_append [of x y] foldl_append)
  have "snd (lines_of (a @ [NL])) = []"
    using lines_of_nl [of "snd (lines_of a)" "[]"] by (simp add: lines_of_append [of a "[NL]"] lines_of_rest)
  then have "stream_usage ((a @ [NL]) @ b) = stream_usage (a @ [NL])" if "NL \<notin> set b"
    using app [of "a @ [NL]" b] lines_of_no_nl [OF that] by simp
  with app [of a b] show ?thesis by simp
qed

theorem tap_lines_only_witness:
  "stream_usage (''data: x'' @ [NL] @ ''data: y'') = stream_usage (''data: x'' @ [NL])"
  using tap_lines_only [of "''data: x''" "''data: y''"] by (simp add: NL_def)

end
