(* ===== verification/Json_Print.thy ===== *)
theory Json_Print
  imports Testutil
begin

text \<open>
  The parser reads back what the builders of testutil.go print: numbers, plain strings and
  objects, at any nesting depth below Go's limit.
\<close>

section \<open>Decimal numbers\<close>

lemma digit_char_digit: "d < 10 \<Longrightarrow> is_digit (digit_char d) \<and> digit_value (digit_char d) = int d"
  by (simp add: is_digit_def digit_char_def digit_value_def)

lemma digit_char_zero [simp]: "digit_char 0 = CHR ''0''"
  unfolding digit_char_def by code_simp

lemma digits_value_snoc: "digits_value (ds @ [c]) = digits_value ds * 10 + digit_value c"
  by (simp add: digits_value_def)

lemma nat_digits_value: "digits_value (nat_digits n) = int n"
proof (induction n rule: nat_digits.induct)
  case (1 n)
  show ?case
  proof (cases "n < 10")
    case True
    then show ?thesis by (simp add: nat_digits.simps [of n] digits_value_def digit_char_digit)
  next
    case False
    with 1 show ?thesis
      by (simp add: nat_digits.simps [of n] digits_value_snoc digit_char_digit zdiv_int zmod_int)
  qed
qed

lemma nat_digits_digits: "list_all is_digit (nat_digits n)"
proof (induction n rule: nat_digits.induct)
  case (1 n)
  then show ?case by (simp add: nat_digits.simps [of n] digit_char_digit)
qed

lemma nat_digits_nonempty [simp]: "nat_digits n \<noteq> []"
  by (simp add: nat_digits.simps [of n])

lemma nat_digits_zero: "hd (nat_digits n) = CHR ''0'' \<longleftrightarrow> n = 0"
proof (induction n rule: nat_digits.induct)
  case (1 n)
  show ?case
  proof (cases "n < 10")
    case True
    have "digit_char n = CHR ''0'' \<longleftrightarrow> n = 0"
    proof
      assume "digit_char n = CHR ''0''"
      then have "digit_value (digit_char n) = digit_value (CHR ''0'')" by simp
      with True show "n = 0" by (simp add: digit_char_digit) (simp add: digit_value_def)
    qed simp
    with True show ?thesis by (simp add: nat_digits.simps [of n])
  next
    case False
    with 1 show ?thesis by (simp add: nat_digits.simps [of n])
  qed
qed

lemma digit_not_special:
  "is_digit c \<Longrightarrow> c \<notin> {CHR ''-'', CHR ''.'', CHR ''e'', CHR ''E'', CHR '' '', CHR 0x09, CHR 0x0A, CHR 0x0D,
     CHR ''{'', CHR ''['', CHR 0x22, CHR ''t'', CHR ''f'', CHR ''n'', CHR ''m'', CHR '','', CHR ''}''}"
  by (auto simp: is_digit_def)

text \<open>What may follow a value inside an object, an array or a stream.\<close>

definition delim :: "bytes \<Rightarrow> bool" where
  "delim s \<longleftrightarrow> (case s of [] \<Rightarrow> True | c # _ \<Rightarrow> c \<in> {CHR '','', CHR ''}'', CHR '']''})"

lemma delim_cases:
  assumes "delim s"
  obtains "s = []" | c t where "s = c # t" "c \<in> {CHR '','', CHR ''}'', CHR '']''}"
  using assms by (cases s) (auto simp: delim_def)

lemma takeWhile_digits: "list_all is_digit ds \<Longrightarrow> delim s \<Longrightarrow> takeWhile is_digit (ds @ s) = ds"
  by (induction ds) (auto simp: is_digit_def elim!: delim_cases)

lemma num_tail: "delim s \<Longrightarrow> num_frac s = Some ([], s)" "delim s \<Longrightarrow> num_exp s = Some ([], s)"
  by (auto simp: num_frac_def num_exp_def elim!: delim_cases)

lemma num_int_digits:
  assumes "delim s"
  shows "num_int (nat_digits n @ s) = Some (nat_digits n, s)"
proof (cases "n = 0")
  case True
  have "nat_digits 0 = ''0''" by (simp add: nat_digits.simps [of 0])
  with True show ?thesis by (simp add: num_int_def)
next
  case False
  obtain c t where ct: "nat_digits n = c # t" by (metis nat_digits_nonempty neq_Nil_conv)
  with False have "c \<noteq> CHR ''0''" using nat_digits_zero [of n] by simp
  moreover have "takeWhile is_digit (nat_digits n @ s) = nat_digits n"
    using takeWhile_digits [OF nat_digits_digits assms] .
  ultimately show ?thesis by (simp add: num_int_def digits1_def ct Let_def)
qed

lemma nat_digits_head: "\<exists>c t. nat_digits n = c # t \<and> is_digit c"
  using nat_digits_digits [of n] by (cases "nat_digits n") auto

lemma parse_number_fmt:
  assumes "delim s"
  shows "parse_number (fmt_d n @ s) = Some (fmt_d n, s)"
proof -
  obtain c t where ct: "nat_digits (nat n) = c # t" "is_digit c" using nat_digits_head by blast
  show ?thesis
    using num_int_digits [OF assms, of "nat n"] num_int_digits [OF assms, of "nat (- n)"] num_tail [OF assms]
      digit_not_special [OF ct(2)] ct(1)
    by (auto simp: parse_number_def fmt_d_def Let_def)
qed

lemma parse_int64_exact: "parse_int64 (fmt_d n) = (if fits64 n then Some n else None)"
proof -
  obtain c t where ct: "nat_digits (nat n) = c # t" "is_digit c" using nat_digits_head by blast
  show ?thesis
    using nat_digits_value [of "nat n"] nat_digits_value [of "nat (- n)"]
      nat_digits_digits [of "nat n"] nat_digits_digits [of "nat (- n)"] digit_not_special [OF ct(2)] ct(1)
    by (auto simp: parse_int64_def fmt_d_def Let_def)
qed

lemma parse_int64_fmt: "fits64 n \<Longrightarrow> parse_int64 (fmt_d n) = Some n"
  by (simp add: parse_int64_exact)

section \<open>Plain strings\<close>

text \<open>ASCII without control characters, quotes and backslashes: printed and read as it is.\<close>

definition plain_char :: "char \<Rightarrow> bool" where
  "plain_char c \<longleftrightarrow> 32 \<le> (of_char c :: nat) \<and> (of_char c :: nat) < 128 \<and> c \<noteq> CHR 0x22 \<and> c \<noteq> CHR 0x5C"

definition plain :: "string \<Rightarrow> bool" where
  "plain s \<longleftrightarrow> list_all plain_char s"

lemma str_body_plain: "plain s \<Longrightarrow> str_body (s @ CHR 0x22 # r) = Some (s, r)"
  by (induction s) (auto simp: plain_def plain_char_def)

lemma unquote_plain: "plain s \<Longrightarrow> unquote s = s"
proof (induction s)
  case Nil
  then show ?case by (simp add: unquote.simps)
next
  case (Cons c s)
  then have "rune_len (c # s) = Some 1" "c \<noteq> CHR 0x5C"
    by (auto simp: plain_def plain_char_def rune_len_def Let_def)
  with Cons show ?case by (simp add: unquote.simps [of "c # s"] plain_def)
qed

section \<open>Values\<close>

definition parses :: "nat \<Rightarrow> bytes \<Rightarrow> json \<Rightarrow> bool" where
  "parses k tx v \<longleftrightarrow>
     (\<forall>d s. d + k \<le> maxNestingDepth \<longrightarrow> delim s \<longrightarrow> (\<exists>n. parse_value n d (tx @ s) = POk v s))"

lemma parses_mono: "parses k tx v \<Longrightarrow> k \<le> k' \<Longrightarrow> parses k' tx v"
  unfolding parses_def by (meson add_le_mono le_trans order_refl)

lemma parses_str: "plain x \<Longrightarrow> parses 0 (json_str x) (JStr x)"
  unfolding parses_def
proof (intro allI impI exI)
  fix d s assume "plain x"
  then show "parse_value 1 d (json_str x @ s) = POk (JStr x) s"
    by (simp add: One_nat_def parse_value.simps json_str_def quote_def skip_ws_def is_space_def
        str_body_plain unquote_plain)
qed

lemma parses_empty_array: "parses 1 ''[]'' (JArr [])"
  unfolding parses_def
proof (intro allI impI exI)
  fix d s assume "d + 1 \<le> maxNestingDepth"
  then show "parse_value 1 d (''[]'' @ s) = POk (JArr []) s"
    by (simp add: One_nat_def parse_value.simps skip_ws_def is_space_def)
qed

lemma parses_num: "parses 0 (fmt_d n) (JNum (fmt_d n))"
  unfolding parses_def
proof (intro allI impI exI)
  fix d s assume "delim s"
  then have num: "parse_number (fmt_d n @ s) = Some (fmt_d n, s)" by (rule parse_number_fmt)
  obtain c t where ct: "fmt_d n = c # t" "c = CHR ''-'' \<or> is_digit c"
    using nat_digits_head [of "nat n"] by (cases "n < 0") (auto simp: fmt_d_def)
  have c: "c \<notin> {CHR '' '', CHR 0x09, CHR 0x0A, CHR 0x0D, CHR ''{'', CHR ''['', CHR 0x22, CHR ''t'', CHR ''f'', CHR ''n''}"
    using ct(2)
  proof
    assume "c = CHR ''-''"
    then show ?thesis by simp
  next
    assume "is_digit c"
    then show ?thesis by (auto simp: is_digit_def)
  qed
  have ws: "skip_ws (c # t @ s) = c # t @ s"
    using c by (simp add: skip_ws_def is_space_def)
  have lit: "\<not> HasPrefix (c # t @ s) ''true''" "\<not> HasPrefix (c # t @ s) ''false''" "\<not> HasPrefix (c # t @ s) ''null''"
    using c by simp_all
  have "parse_value (Suc 0) d (c # t @ s) =
      (case parse_number (c # t @ s) of None \<Rightarrow> PBad | Some (lit, r) \<Rightarrow> POk (JNum lit) r)"
    unfolding parse_value.simps(2) ws list.case using c lit by (simp del: HasPrefix.simps)
  with num show "parse_value (Suc 0) d (fmt_d n @ s) = POk (JNum (fmt_d n)) s"
    by (simp add: ct(1))
qed

text \<open>An object of printed fields.\<close>

definition field_ok :: "nat \<Rightarrow> (string \<times> string) \<times> (string \<times> json) \<Rightarrow> bool" where
  "field_ok k x \<longleftrightarrow> (case x of ((key, tx), (key', v)) \<Rightarrow> key' = key \<and> plain key \<and> parses k tx v)"

lemma parse_value_more: "parse_value n d s = POk v r \<Longrightarrow> n \<le> m \<Longrightarrow> parse_value m d s = POk v r"
  using parse_value_fuel by blast

lemma parse_members_fuel:
  assumes "parse_members n d s = POk v r" "n \<le> m"
  shows "parse_members m d s = POk v r"
  using assms(2,1)
proof (induction rule: dec_induct)
  case base
  then show ?case .
next
  case (step k)
  then show ?case using parse_more_fuel(3) [of k d s] by simp
qed

lemma member_key:
  assumes "plain key" "parse_value n d (tx @ s) = POk v s"
  shows "parse_members (Suc n) d (json_field key tx @ s) =
    (case skip_ws s of
       [] \<Rightarrow> PBad
     | c # t2 \<Rightarrow>
         if c = CHR '','' then
           (case parse_members n d t2 of POk kvs r' \<Rightarrow> POk ((key, v) # kvs) r' | PBad \<Rightarrow> PBad | NoFuel \<Rightarrow> NoFuel)
         else if c = CHR ''}'' then POk [(key, v)] t2 else PBad)"
proof -
  have "str_body (key @ CHR 0x22 # CHR '':'' # tx @ s) = Some (key, CHR '':'' # tx @ s)"
    using assms(1) by (rule str_body_plain)
  with assms have "parse_members (Suc n) d (json_field key tx @ s) =
    (case skip_ws s of
       [] \<Rightarrow> PBad
     | c # t2 \<Rightarrow>
         if c = CHR '','' then
           (case parse_members n d t2 of POk kvs r' \<Rightarrow> POk ((unquote key, v) # kvs) r' | PBad \<Rightarrow> PBad | NoFuel \<Rightarrow> NoFuel)
         else if c = CHR ''}'' then POk [(unquote key, v)] t2 else PBad)"
    by (simp add: parse_members.simps(2) json_field_def json_str_def quote_def skip_ws_def is_space_def)
  then show ?thesis unfolding unquote_plain [OF assms(1)] .
qed

lemma parse_fields:
  assumes "kvs \<noteq> []" "list_all (field_ok k) (zip kvs ws)" "length ws = length kvs" "d + k \<le> maxNestingDepth"
  shows "\<exists>n. parse_members n d (json_fields kvs @ CHR ''}'' # s) = POk ws s"
  using assms
proof (induction kvs arbitrary: ws rule: json_fields.induct)
  case 1
  then show ?case by simp
next
  case (2 key tx)
  then obtain v where ws: "ws = [(key, v)]" "plain key" "parses k tx v"
    by (cases ws) (auto simp: field_ok_def)
  have "delim (CHR ''}'' # s)" by (simp add: delim_def)
  with ws(3) "2.prems"(4) obtain n where "parse_value n d (tx @ CHR ''}'' # s) = POk v (CHR ''}'' # s)"
    unfolding parses_def by blast
  from member_key [OF ws(2) this] ws(1) show ?case
    by (intro exI [of _ "Suc n"]) (simp add: skip_ws_def is_space_def)
next
  case (3 key tx kv kvs)
  then obtain v ws' where ws: "ws = (key, v) # ws'" "plain key" "parses k tx v"
    and rest: "list_all (field_ok k) (zip (kv # kvs) ws')" "length ws' = length (kv # kvs)"
    by (cases ws) (auto simp: field_ok_def [of k "((key, tx), _)"])
  let ?tail = "CHR '','' # json_fields (kv # kvs) @ CHR ''}'' # s"
  have "delim ?tail" by (simp add: delim_def)
  with ws(3) "3.prems"(4) obtain n1 where n1: "parse_value n1 d (tx @ ?tail) = POk v ?tail"
    unfolding parses_def by blast
  obtain n2 where n2: "parse_members n2 d (json_fields (kv # kvs) @ CHR ''}'' # s) = POk ws' s"
    using "3.IH" [OF _ rest "3.prems"(4)] by auto
  define n where "n = max n1 n2"
  have v: "parse_value n d (tx @ ?tail) = POk v ?tail"
    using n1 by (rule parse_value_more) (simp add: n_def)
  have m: "parse_members n d (json_fields (kv # kvs) @ CHR ''}'' # s) = POk ws' s"
    using n2 by (rule parse_members_fuel) (simp add: n_def)
  from member_key [OF ws(2) v] m ws(1) show ?case
    by (intro exI [of _ "Suc n"]) (simp add: skip_ws_def is_space_def)
qed

lemma parses_object:
  assumes "kvs \<noteq> []" "list_all (field_ok k) (zip kvs ws)" "length ws = length kvs"
  shows "parses (Suc k) (json_object kvs) (JObj ws)"
  unfolding parses_def
proof (intro allI impI)
  fix d s assume d: "d + Suc k \<le> maxNestingDepth"
  then obtain n where n: "parse_members n (Suc d) (json_fields kvs @ CHR ''}'' # s) = POk ws s"
    using parse_fields [OF assms, of "Suc d" s] by auto
  have "\<exists>t. json_fields kvs = CHR 0x22 # t"
    using assms(1) by (cases kvs rule: json_fields.cases) (auto simp: json_field_def json_str_def quote_def)
  with n d show "\<exists>n. parse_value n d (json_object kvs @ s) = POk (JObj ws) s"
    by (intro exI [of _ "Suc n"])
      (auto simp: parse_value.simps(2) json_object_def skip_ws_def is_space_def)
qed

lemma parses_unmarshal:
  assumes "parses k tx v" "k \<le> maxNestingDepth"
  shows "json_unmarshal tx = Some v"
proof -
  have "delim []" by (simp add: delim_def)
  moreover have "0 + k \<le> maxNestingDepth" using assms(2) by simp
  ultimately obtain n where n: "parse_value n 0 (tx @ []) = POk v []"
    using assms(1) unfolding parses_def by blast
  have enough: "parse_value (json_fuel tx) 0 tx \<noteq> NoFuel"
    by (rule json_fuel_enough) (simp add: json_fuel_def)
  have "parse_value (max n (json_fuel tx)) 0 tx = parse_value (json_fuel tx) 0 tx"
    by (rule parse_value_fuel [OF refl enough]) (rule max.cobounded2)
  moreover have "parse_value (max n (json_fuel tx)) 0 tx = POk v []"
    using n unfolding append_Nil2 by (rule parse_value_more) (rule max.cobounded1)
  ultimately have "parse_value (json_fuel tx) 0 tx = POk v []" by (rule trans [OF sym])
  then show ?thesis by (simp add: json_unmarshal_def skip_ws_def)
qed

end
