(* ===== verification/Sse_Properties.thy ===== *)
theory Sse_Properties
  imports Tap_Properties Json_Print
begin

text \<open>
  The wire format end to end: what the builders of testutil.go print, the tapping reader and
  \<open>extractJSONUsage\<close> read back; and what a line does that mentions an event name in its text.
\<close>

section \<open>The lines of an event stream\<close>

definition event_lines :: "SSEEvent \<Rightarrow> bytes list" where
  "event_lines e = (if ev_Event e \<noteq> [] then [''event: '' @ ev_Event e] else []) @ [''data: '' @ ev_Data e, []]"

definition one_line :: "SSEEvent \<Rightarrow> bool" where
  "one_line e \<longleftrightarrow> NL \<notin> set (ev_Event e) \<and> NL \<notin> set (ev_Data e)"

lemma lines_of_event:
  assumes "one_line e"
  shows "lines_of (BuildSSEResponse [e] @ s) = (event_lines e @ fst (lines_of s), snd (lines_of s))"
proof -
  have d: "lines_of ((''data: '' @ ev_Data e) @ NL # [] @ NL # s) =
      ((''data: '' @ ev_Data e) # [] # fst (lines_of s), snd (lines_of s))"
    using assms lines_of_nl [of "''data: '' @ ev_Data e"] lines_of_nl [of "[]" s]
    by (simp add: one_line_def NL_def)
  have "lines_of ((''event: '' @ ev_Event e) @ NL # t) = ((''event: '' @ ev_Event e) # fst (lines_of t), snd (lines_of t))" for t
    using assms by (intro lines_of_nl) (simp add: one_line_def NL_def)
  with d show ?thesis by (simp add: BuildSSEResponse_def event_lines_def)
qed

lemma BuildSSEResponse_Cons: "BuildSSEResponse (e # es) = BuildSSEResponse [e] @ BuildSSEResponse es"
  by (simp add: BuildSSEResponse_def)

lemma lines_of_events:
  "list_all one_line es \<Longrightarrow> lines_of (BuildSSEResponse es) = (concat (map event_lines es), [])"
proof (induction es)
  case Nil
  then show ?case by (simp add: BuildSSEResponse_def)
next
  case (Cons e es)
  then show ?case by (subst BuildSSEResponse_Cons) (simp add: lines_of_event)
qed

lemma process_event_lines:
  "foldl processLine u (event_lines e) = processLine u (''data: '' @ ev_Data e)"
proof -
  have "processLine v [] = v" "processLine v (''event: '' @ x) = v" for v x
    by (simp_all add: processLine_def sseDataPrefix_def)
  then show ?thesis by (cases "ev_Event e = []") (simp_all add: event_lines_def)
qed

lemma stream_usage_events:
  assumes "list_all one_line es"
  shows "stream_usage (BuildSSEResponse es) = foldl (\<lambda>u e. processLine u (''data: '' @ ev_Data e)) zero_usage es"
proof -
  have "foldl processLine u (concat (map event_lines xs)) =
      foldl (\<lambda>u e. processLine u (''data: '' @ ev_Data e)) u xs" for u xs
    by (induction xs arbitrary: u) (simp_all add: foldl_append process_event_lines)
  then show ?thesis by (simp add: stream_usage_def lines_of_events [OF assms])
qed

section \<open>Which parser a payload reaches\<close>

lemma processLine_data:
  "processLine u (''data: '' @ d) =
     (if Contains d ''message_start'' then parseMessageStart d u
      else if Contains d ''message_delta'' then parseMessageDelta d u else u)"
  by (simp add: processLine_def sseDataPrefix_def sseEventMessageStart_def sseEventMessageDelta_def)

lemma digit_char_set: "c \<in> set (nat_digits n) \<Longrightarrow> is_digit c"
  using nat_digits_digits [of n] by (simp add: list_all_iff)

lemma fmt_d_chars: "c \<in> set (fmt_d n) \<Longrightarrow> is_digit c \<or> c = CHR ''-''"
  by (auto simp: fmt_d_def dest: digit_char_set split: if_splits)

lemma fmt_d_not: "CHR ''m'' \<notin> set (fmt_d n)" "NL \<notin> set (fmt_d n)"
  by (auto dest!: fmt_d_chars simp: is_digit_def NL_def)

lemma Contains_fmt: "Contains (fmt_d n @ s) (CHR ''m'' # p) = Contains s (CHR ''m'' # p)"
  by (rule Contains_skip) (rule fmt_d_not)

lemma parses_one: "parses 0 ''1'' (JNum ''1'')" and parses_zero: "parses 0 ''0'' (JNum ''0'')"
proof -
  have "fmt_d 1 = ''1''" "fmt_d 0 = ''0''" by code_simp+
  then show "parses 0 ''1'' (JNum ''1'')" "parses 0 ''0'' (JNum ''0'')"
    using parses_num [of 1] parses_num [of 0] by simp_all
qed

lemma field_ok_of: "plain key \<Longrightarrow> parses j tx v \<Longrightarrow> j \<le> k \<Longrightarrow> field_ok k ((key, tx), (key, v))"
  by (simp add: field_ok_def parses_mono)

section \<open>The message_start event\<close>

abbreviation "start_usage i \<equiv> json_object [(''input_tokens'', fmt_d i), (''output_tokens'', ''1'')]"

lemma parses_start_usage:
  "parses 1 (start_usage i) (JObj [(''input_tokens'', JNum (fmt_d i)), (''output_tokens'', JNum ''1'')])"
  unfolding One_nat_def
  by (rule parses_object) (simp_all add: field_ok_def parses_num parses_one plain_def plain_char_def)

lemma parses_start_message:
  "parses 2 (json_object
      [(''id'', json_str ''msg_test''), (''type'', json_str ''message''),
       (''role'', json_str ''assistant''), (''content'', ''[]''),
       (''model'', json_str ''claude-sonnet-4-20250514''), (''usage'', start_usage i)])
    (JObj [(''id'', JStr ''msg_test''), (''type'', JStr ''message''), (''role'', JStr ''assistant''),
       (''content'', JArr []), (''model'', JStr ''claude-sonnet-4-20250514''),
       (''usage'', JObj [(''input_tokens'', JNum (fmt_d i)), (''output_tokens'', JNum ''1'')])])"
proof -
  have "parses 1 (json_str x) (JStr x)" if "plain x" for x
    using parses_str [OF that] by (rule parses_mono) simp
  then show ?thesis
    unfolding numeral_2_eq_2
    by (intro parses_object)
      (simp_all add: field_ok_def parses_start_usage [simplified] parses_empty_array [simplified] plain_def plain_char_def)
qed

lemma start_event:
  fixes j :: int
  assumes "fits64 i"
  defines "d \<equiv> ev_Data (hd (StandardSSEEvents i j))"
  shows "processLine u (''data: '' @ d) = u\<lparr>ud_Model := ''claude-sonnet-4-20250514'', ud_InputTokens := i,
    ud_CacheCreationInputTokens := 0, ud_CacheReadInputTokens := 0\<rparr>"
proof -
  have "plain ''message_start''" by code_simp
  then have "parses 2 (json_str ''message_start'') (JStr ''message_start'')"
    using parses_str parses_mono by blast
  then have "parses (Suc 2) d (JObj [(''type'', JStr ''message_start''), (''message'',
      JObj [(''id'', JStr ''msg_test''), (''type'', JStr ''message''), (''role'', JStr ''assistant''),
       (''content'', JArr []), (''model'', JStr ''claude-sonnet-4-20250514''),
       (''usage'', JObj [(''input_tokens'', JNum (fmt_d i)), (''output_tokens'', JNum ''1'')])])])"
    unfolding d_def StandardSSEEvents_def list.sel SSEEvent.select_convs
    by (intro parses_object)
      (simp_all add: field_ok_def parses_start_message plain_def plain_char_def)
  then have "json_unmarshal d = Some (JObj [(''type'', JStr ''message_start''), (''message'',
      JObj [(''id'', JStr ''msg_test''), (''type'', JStr ''message''), (''role'', JStr ''assistant''),
       (''content'', JArr []), (''model'', JStr ''claude-sonnet-4-20250514''),
       (''usage'', JObj [(''input_tokens'', JNum (fmt_d i)), (''output_tokens'', JNum ''1'')])])])"
    by (rule parses_unmarshal) (simp add: maxNestingDepth_def)
  moreover have "parse_int64 ''1'' = Some 1" by code_simp
  ultimately have "unmarshal_into start_field zero_model_usage d =
      Some \<lparr>mu_Model = ''claude-sonnet-4-20250514'', mu_Usage = \<lparr>uf_InputTokens = i, uf_OutputTokens = 1,
        uf_CacheCreationInputTokens = 0, uf_CacheReadInputTokens = 0\<rparr>\<rparr>"
    using parse_int64_fmt [OF assms(1)]
    by (simp add: unmarshal_into_def decode_struct_def start_field_def model_usage_field_def usage_field_def
        decode_int_def decode_str_def zero_model_usage_def zero_fields_def lower_char_def)
  moreover have "Contains d ''message_start''"
    by (simp add: d_def StandardSSEEvents_def json_object_def json_field_def json_str_def quote_def)
  ultimately show ?thesis unfolding processLine_data by (simp add: parseMessageStart_def)
qed

section \<open>The message_delta event\<close>

definition delta_payload :: "int \<Rightarrow> string" where
  "delta_payload n = json_object
     [(''type'', json_str ''message_delta''),
      (''delta'', json_object [(''stop_reason'', json_str ''end_turn'')]),
      (''usage'', json_object [(''output_tokens'', fmt_d n)])]"

lemma delta_event:
  assumes "fits64 n"
  shows "processLine u (''data: '' @ delta_payload n) = u\<lparr>ud_OutputTokens := n\<rparr>"
proof -
  have plain: "plain ''message_delta''" "plain ''end_turn''" by code_simp+
  have "parses 1 (json_str ''message_delta'') (JStr ''message_delta'')"
    using parses_str [OF plain(1)] by (rule parses_mono) simp
  moreover have "parses (Suc 0) (json_object [(''stop_reason'', json_str ''end_turn'')]) (JObj [(''stop_reason'', JStr ''end_turn'')])"
    using parses_str [OF plain(2)]
    by (intro parses_object) (simp_all add: field_ok_def plain_def plain_char_def)
  moreover have "parses (Suc 0) (json_object [(''output_tokens'', fmt_d n)]) (JObj [(''output_tokens'', JNum (fmt_d n))])"
    by (intro parses_object) (simp_all add: field_ok_def plain_def plain_char_def parses_num)
  ultimately have "parses (Suc 1) (delta_payload n) (JObj [(''type'', JStr ''message_delta''),
      (''delta'', JObj [(''stop_reason'', JStr ''end_turn'')]), (''usage'', JObj [(''output_tokens'', JNum (fmt_d n))])])"
    unfolding delta_payload_def
    by (intro parses_object) (simp_all add: field_ok_def plain_def plain_char_def)
  then have "json_unmarshal (delta_payload n) = Some (JObj [(''type'', JStr ''message_delta''),
      (''delta'', JObj [(''stop_reason'', JStr ''end_turn'')]), (''usage'', JObj [(''output_tokens'', JNum (fmt_d n))])])"
    by (rule parses_unmarshal) (simp add: maxNestingDepth_def)
  then have "unmarshal_into delta_field zero_fields (delta_payload n) = Some (zero_fields\<lparr>uf_OutputTokens := n\<rparr>)"
    using parse_int64_fmt [OF assms]
    by (simp add: unmarshal_into_def decode_struct_def delta_field_def usage_field_def decode_int_def lower_char_def)
  moreover have "Contains (delta_payload n) ''message_delta''" "\<not> Contains (delta_payload n) ''message_start''"
    by (simp_all add: delta_payload_def json_object_def json_field_def json_str_def quote_def Contains_fmt)
  ultimately show ?thesis unfolding processLine_data by (simp add: parseMessageDelta_def)
qed

section \<open>Text deltas\<close>

definition text_payload :: "string \<Rightarrow> string" where
  "text_payload tx = json_object
     [(''type'', json_str ''content_block_delta''), (''index'', ''0''),
      (''delta'', json_object [(''type'', json_str ''text_delta''), (''text'', json_str tx)])]"

lemma unmarshal_text_payload:
  assumes "plain tx"
  shows "json_unmarshal (text_payload tx) = Some (JObj [(''type'', JStr ''content_block_delta''), (''index'', JNum ''0''),
     (''delta'', JObj [(''type'', JStr ''text_delta''), (''text'', JStr tx)])])"
proof -
  have plain: "plain ''content_block_delta''" "plain ''text_delta''" by code_simp+
  have "parses 1 (json_str ''content_block_delta'') (JStr ''content_block_delta'')"
    using parses_str [OF plain(1)] by (rule parses_mono) simp
  moreover have "parses 1 ''0'' (JNum ''0'')"
    using parses_zero by (rule parses_mono) simp
  moreover have "parses (Suc 0) (json_object [(''type'', json_str ''text_delta''), (''text'', json_str tx)])
      (JObj [(''type'', JStr ''text_delta''), (''text'', JStr tx)])"
    using parses_str [OF plain(2)] parses_str [OF assms]
    by (intro parses_object) (simp_all add: field_ok_def plain_def plain_char_def)
  ultimately have "parses (Suc 1) (text_payload tx) (JObj [(''type'', JStr ''content_block_delta''), (''index'', JNum ''0''),
     (''delta'', JObj [(''type'', JStr ''text_delta''), (''text'', JStr tx)])])"
    unfolding text_payload_def
    by (intro parses_object) (simp_all add: field_ok_def plain_def plain_char_def)
  then show ?thesis by (rule parses_unmarshal) (simp add: maxNestingDepth_def)
qed

lemma Contains_text_payload: "Contains tx p \<Longrightarrow> Contains (text_payload tx) p"
proof -
  assume "Contains tx p"
  then have "Contains ((''{\"type\":\"content_block_delta\",\"index\":0,\"delta\":{\"type\":\"text_delta\",\"text\":\"'') @ tx @ ''\"}}'') p"
    by (rule Contains_middle)
  then show ?thesis
    by (simp add: text_payload_def json_object_def json_field_def json_str_def quote_def)
qed

text \<open>
  C38: A text delta is taken for an event it only mentions.  The event type is found by searching
  the whole payload, so when the model's answer contains the word message_start, the model name,
  the input count and the cache counts collected so far are replaced by empty values; when it
  contains only message_delta, the output count is reset.
\<close>
theorem tap_text_resets_counters:
  assumes "plain tx"
  shows "(Contains tx ''message_start'' \<longrightarrow>
      processLine u (''data: '' @ text_payload tx) = u\<lparr>ud_Model := [], ud_InputTokens := 0,
        ud_CacheCreationInputTokens := 0, ud_CacheReadInputTokens := 0\<rparr>) \<and>
    (Contains tx ''message_delta'' \<and> \<not> Contains (text_payload tx) ''message_start'' \<longrightarrow>
      processLine u (''data: '' @ text_payload tx) = u\<lparr>ud_OutputTokens := 0\<rparr>)"
proof -
  have "unmarshal_into start_field zero_model_usage (text_payload tx) = Some zero_model_usage"
    "unmarshal_into delta_field zero_fields (text_payload tx) = Some zero_fields"
    by (simp_all add: unmarshal_into_def unmarshal_text_payload [OF assms] decode_struct_def start_field_def
        delta_field_def lower_char_def)
  then show ?thesis
    unfolding processLine_data
    by (simp add: Contains_text_payload parseMessageStart_def parseMessageDelta_def zero_model_usage_def zero_fields_def)
qed

theorem tap_text_resets_counters_witness:
  "ud_InputTokens (processLine (zero_usage\<lparr>ud_InputTokens := 25\<rparr>) (''data: '' @ text_payload ''the message_start event'')) = 0"
proof -
  have "plain ''the message_start event''" "Contains ''the message_start event'' ''message_start''" by code_simp+
  with tap_text_resets_counters [of "''the message_start event''"] show ?thesis by simp
qed

section \<open>Round trips\<close>

lemma other_event:
  assumes "n \<in> {1, 2, 3, 5}"
  shows "processLine u (''data: '' @ ev_Data (StandardSSEEvents i j ! n)) = u"
proof -
  have "\<not> Contains (ev_Data (StandardSSEEvents i j ! n)) ''message_start''"
    "\<not> Contains (ev_Data (StandardSSEEvents i j ! n)) ''message_delta''"
    using assms by (auto simp: StandardSSEEvents_def json_object_def json_field_def json_str_def quote_def)
  then show ?thesis by (simp only: processLine_data if_False)
qed

lemma standard_one_line: "list_all one_line (StandardSSEEvents i j)"
  by (simp add: StandardSSEEvents_def one_line_def json_object_def json_field_def json_str_def quote_def
      fmt_d_not(2) [unfolded NL_def] NL_def)

lemma standard_usage:
  assumes "fits64 i" "fits64 j"
  shows "stream_usage (BuildSSEResponse (StandardSSEEvents i j)) = \<lparr>ud_InputTokens = i, ud_OutputTokens = j,
    ud_CacheCreationInputTokens = 0, ud_CacheReadInputTokens = 0, ud_Model = ''claude-sonnet-4-20250514''\<rparr>"
proof -
  let ?e = "StandardSSEEvents i j"
  have "?e = [hd ?e, ?e ! 1, ?e ! 2, ?e ! 3, \<lparr>ev_Event = ''message_delta'', ev_Data = delta_payload j\<rparr>, ?e ! 5]"
    by (simp add: StandardSSEEvents_def delta_payload_def)
  then have "stream_usage (BuildSSEResponse ?e) = foldl (\<lambda>u e. processLine u (''data: '' @ ev_Data e)) zero_usage
      [hd ?e, ?e ! 1, ?e ! 2, ?e ! 3, \<lparr>ev_Event = ''message_delta'', ev_Data = delta_payload j\<rparr>, ?e ! 5]"
    using stream_usage_events [OF standard_one_line, of i j] by (simp only:)
  also have "\<dots> = zero_usage\<lparr>ud_Model := ''claude-sonnet-4-20250514'', ud_InputTokens := i,
    ud_CacheCreationInputTokens := 0, ud_CacheReadInputTokens := 0, ud_OutputTokens := j\<rparr>"
    unfolding foldl.simps start_event [OF assms(1)] SSEEvent.select_convs delta_event [OF assms(2)]
      other_event [of 1, OF insertI1] other_event [of 2, OF insertI2, OF insertI1]
      other_event [of 3, OF insertI2, OF insertI2, OF insertI1]
      other_event [of 5, OF insertI2, OF insertI2, OF insertI2, OF insertI1]
    by simp
  finally show ?thesis by (simp add: zero_usage_def)
qed

text \<open>
  C30: Builder and tap agree.  A standard response built by \<open>BuildSSEResponse\<close>, delivered in reads
  cut anywhere and ended by an \<open>EOF\<close>, makes the callback fire exactly once, with the input and
  output counts the response was built from (any 64-bit value) and the model of its first event.
\<close>
theorem sse_roundtrip:
  assumes "fits64 i" "fits64 j" "until_eof rs = Some (BuildSSEResponse (StandardSSEEvents i j))"
  shows "fst (snd (read_all newTappingReader rs)) =
    [\<lparr>ud_InputTokens = i, ud_OutputTokens = j, ud_CacheCreationInputTokens = 0, ud_CacheReadInputTokens = 0,
      ud_Model = ''claude-sonnet-4-20250514''\<rparr>]"
  by (simp add: read_all_new assms standard_usage)

theorem sse_roundtrip_witness:
  "fst (snd (read_all newTappingReader
      [(take 200 (BuildSSEResponse (StandardSSEEvents 25 15)), None),
       (drop 200 (BuildSSEResponse (StandardSSEEvents 25 15)), Some EOF)])) =
    [\<lparr>ud_InputTokens = 25, ud_OutputTokens = 15, ud_CacheCreationInputTokens = 0, ud_CacheReadInputTokens = 0,
      ud_Model = ''claude-sonnet-4-20250514''\<rparr>]"
  by (rule sse_roundtrip)
    (simp_all add: fits64_def int64_min_def int64_max_def del: take_append drop_append)

text \<open>
  A non-streaming response in the format of the Messages API.
\<close>

definition json_response :: "string \<Rightarrow> string \<Rightarrow> int \<Rightarrow> int \<Rightarrow> int \<Rightarrow> int \<Rightarrow> string" where
  "json_response ident model i j cc cr = json_object
     [(''id'', json_str ident), (''type'', json_str ''message''), (''model'', json_str model),
      (''usage'', json_object
        [(''input_tokens'', fmt_d i), (''output_tokens'', fmt_d j),
         (''cache_creation_input_tokens'', fmt_d cc), (''cache_read_input_tokens'', fmt_d cr)])]"

lemma unmarshal_response:
  assumes "plain ident" "plain model"
  shows "json_unmarshal (json_response ident model i j cc cr) =
    Some (JObj [(''id'', JStr ident), (''type'', JStr ''message''), (''model'', JStr model),
      (''usage'', JObj [(''input_tokens'', JNum (fmt_d i)), (''output_tokens'', JNum (fmt_d j)),
        (''cache_creation_input_tokens'', JNum (fmt_d cc)), (''cache_read_input_tokens'', JNum (fmt_d cr))])])"
proof -
  have str: "parses 1 (json_str x) (JStr x)" if "plain x" for x
    using parses_str [OF that] by (rule parses_mono) simp
  have "plain ''message''" by code_simp
  note strs = str [OF this] str [OF assms(1)] str [OF assms(2)]
  have "parses (Suc 0) (json_object
        [(''input_tokens'', fmt_d i), (''output_tokens'', fmt_d j),
         (''cache_creation_input_tokens'', fmt_d cc), (''cache_read_input_tokens'', fmt_d cr)])
      (JObj [(''input_tokens'', JNum (fmt_d i)), (''output_tokens'', JNum (fmt_d j)),
        (''cache_creation_input_tokens'', JNum (fmt_d cc)), (''cache_read_input_tokens'', JNum (fmt_d cr))])"
    by (intro parses_object) (simp_all add: field_ok_def plain_def plain_char_def parses_num)
  with strs have "parses (Suc 1) (json_response ident model i j cc cr)
      (JObj [(''id'', JStr ident), (''type'', JStr ''message''), (''model'', JStr model),
      (''usage'', JObj [(''input_tokens'', JNum (fmt_d i)), (''output_tokens'', JNum (fmt_d j)),
        (''cache_creation_input_tokens'', JNum (fmt_d cc)), (''cache_read_input_tokens'', JNum (fmt_d cr))])])"
    unfolding json_response_def
    by (intro parses_object) (simp_all add: field_ok_def plain_def plain_char_def)
  then show ?thesis by (rule parses_unmarshal) (simp add: maxNestingDepth_def)
qed

text \<open>
  Usage of a non-streaming response.  \<open>extractJSONUsage\<close> reads back the model and the four
  64-bit counters of a printed response exactly; a counter outside the 64-bit range makes the
  whole usage empty, the other counters included, and a body that is not one JSON value is no
  error but an empty usage too.
\<close>
theorem json_usage_roundtrip:
  assumes "plain ident" "plain model"
  shows "extractJSONUsage (json_response ident model i j cc cr) =
    (if fits64 i \<and> fits64 j \<and> fits64 cc \<and> fits64 cr
     then \<lparr>ud_InputTokens = i, ud_OutputTokens = j, ud_CacheCreationInputTokens = cc,
           ud_CacheReadInputTokens = cr, ud_Model = model\<rparr>
     else zero_usage)"
  using parse_int64_exact
  by (simp add: extractJSONUsage_def unmarshal_into_def unmarshal_response [OF assms] decode_struct_def
      model_usage_field_def usage_field_def decode_int_def decode_str_def zero_model_usage_def zero_fields_def
      lower_char_def)

theorem json_usage_roundtrip_witness:
  "extractJSONUsage (json_response ''msg_test'' ''claude-3'' 25 15 0 7) =
     \<lparr>ud_InputTokens = 25, ud_OutputTokens = 15, ud_CacheCreationInputTokens = 0,
      ud_CacheReadInputTokens = 7, ud_Model = ''claude-3''\<rparr>"
proof -
  have "plain ''msg_test''" "plain ''claude-3''" by code_simp+
  then show ?thesis
    using json_usage_roundtrip [of "''msg_test''" "''claude-3''" 25 15 0 7]
    by (simp add: fits64_def int64_min_def int64_max_def)
qed

end
