(* ===== verification/Usage_Writer.thy ===== *)
theory Usage_Writer
  imports Tap Manager
begin

text \<open>
  The usage pipeline: \<open>usageEntry\<close> and \<open>sendUsage\<close> of internal/proxy/proxy.go, the channel of
  setup.go and the background writer of usage_writer.go that batches entries into the store and
  then adds them to the token totals.
\<close>

section \<open>The channel\<close>

record usageEntry =
  ue_GateTokenID :: string
  ue_RealTokenID :: string
  ue_Usage :: UsageData
  ue_RequestPath :: string
  ue_StatusCode :: int

definition usageChannelSize :: nat where
  "usageChannelSize = 1024"

text \<open>\<open>sendUsage\<close> never blocks: a full channel drops the entry and counts it.\<close>

definition sendUsage :: "usageEntry \<Rightarrow> usageEntry list \<Rightarrow> int \<Rightarrow> usageEntry list \<times> int" where
  "sendUsage e ch dropped =
     (if length ch < usageChannelSize then (ch @ [e], dropped) else (ch, i64 (dropped + 1)))"

section \<open>The writer\<close>

definition usageFlushInterval :: int where
  "usageFlushInterval = second"

definition usageBatchSize :: nat where
  "usageBatchSize = 100"

definition usageMaxRetries :: nat where
  "usageMaxRetries = 3"

record writer =
  uw_buf :: "usageEntry list"
  uw_retryBuf :: "usageEntry list"
  uw_retryCount :: nat

definition NewUsageWriter :: writer where
  "NewUsageWriter = \<lparr>uw_buf = [], uw_retryBuf = [], uw_retryCount = 0\<rparr>"

definition log_of_entry :: "usageEntry \<Rightarrow> UsageLog" where
  "log_of_entry e =
     \<lparr>ul_ID = 0, ul_GateTokenID = ue_GateTokenID e, ul_RealTokenID = ue_RealTokenID e,
      ul_Model = ud_Model (ue_Usage e), ul_InputTokens = ud_InputTokens (ue_Usage e),
      ul_OutputTokens = ud_OutputTokens (ue_Usage e),
      ul_CacheCreationInputTokens = ud_CacheCreationInputTokens (ue_Usage e),
      ul_CacheReadInputTokens = ud_CacheReadInputTokens (ue_Usage e),
      ul_RequestPath = ue_RequestPath e, ul_StatusCode = ue_StatusCode e,
      ul_CreatedAt = zero_time\<rparr>"

text \<open>
  The maps \<open>gateAgg\<close> and \<open>realAgg\<close> as association lists with distinct keys; the counters are
  \<open>int64\<close>.
\<close>

type_synonym agg = "(string \<times> int \<times> int) list"

fun agg_add :: "string \<Rightarrow> int \<Rightarrow> int \<Rightarrow> agg \<Rightarrow> agg" where
  "agg_add k i j [] = [(k, i, j)]"
| "agg_add k i j ((k', a, b) # m) =
     (if k' = k then (k', i64 (a + i), i64 (b + j)) # m else (k', a, b) # agg_add k i j m)"

definition aggregate :: "(usageEntry \<Rightarrow> string) \<Rightarrow> usageEntry list \<Rightarrow> agg" where
  "aggregate key es =
     foldl (\<lambda>m e. agg_add (key e) (ud_InputTokens (ue_Usage e)) (ud_OutputTokens (ue_Usage e)) m) [] es"

text \<open>The update loops: an update that fails is logged and the loop goes on.\<close>

fun apply_updates ::
  "(callenv \<Rightarrow> string \<Rightarrow> int \<Rightarrow> int \<Rightarrow> db \<Rightarrow> go_error option \<times> db) \<Rightarrow> callenv \<Rightarrow> agg \<Rightarrow> db \<Rightarrow> db" where
  "apply_updates upd c [] s = s"
| "apply_updates upd c ((k, a, b) # us) s = apply_updates upd (later 1 c) us (snd (upd c k a b s))"

text \<open>
  What a flush meets: its calls, and the orders in which Go happens to iterate over the two maps.
\<close>

record flushenv =
  fe_call :: callenv
  fe_gates :: "agg \<Rightarrow> agg"
  fe_reals :: "agg \<Rightarrow> agg"

definition iteration_order :: "(agg \<Rightarrow> agg) \<Rightarrow> bool" where
  "iteration_order f \<longleftrightarrow> (\<forall>m. mset (f m) = mset m)"

text \<open>What became of the entries; the code logs it.\<close>

datatype flush_event =
    Nothing_to_flush
  | Flushed "usageEntry list"
  | Kept_for_retry "usageEntry list"
  | Discarded "usageEntry list"

definition flush :: "driver \<Rightarrow> flushenv \<Rightarrow> writer \<Rightarrow> db \<Rightarrow> flush_event \<times> writer \<times> db" where
  "flush D fe w s =
     (if uw_buf w = [] \<and> uw_retryBuf w = [] then (Nothing_to_flush, w, s)
      else
        let buf = uw_retryBuf w @ uw_buf w;
            logs = map log_of_entry buf;
            c = fe_call fe in
        (case InsertUsageLogs c logs s of
           (Some e, s1) \<Rightarrow>
             if uw_retryCount w < usageMaxRetries
             then (Kept_for_retry buf,
                   w\<lparr>uw_buf := [], uw_retryBuf := buf, uw_retryCount := uw_retryCount w + 1\<rparr>, s1)
             else (Discarded buf, w\<lparr>uw_buf := [], uw_retryBuf := [], uw_retryCount := 0\<rparr>, s1)
         | (None, s1) \<Rightarrow>
             let gateAgg = fe_gates fe (aggregate ue_GateTokenID buf);
                 realAgg = fe_reals fe (aggregate ue_RealTokenID buf);
                 c1 = later (3 + length logs) c;
                 s2 = apply_updates (UpdateGateTokenUsage D) c1 gateAgg s1;
                 s3 = apply_updates (UpdateRealTokenUsage D) (later (length gateAgg) c1) realAgg s2 in
             (Flushed buf, w\<lparr>uw_buf := [], uw_retryBuf := [], uw_retryCount := 0\<rparr>, s3)))"

text \<open>\<open>drain\<close> empties the channel into the buffer.\<close>

definition drain :: "usageEntry list \<Rightarrow> writer \<Rightarrow> usageEntry list \<times> writer" where
  "drain ch w = ([], w\<lparr>uw_buf := uw_buf w @ ch\<rparr>)"

text \<open>
  One turn of the loop of \<open>Run\<close>: the case that \<open>select\<close> chose.  \<open>None\<close>: that case was not ready.
  The last component tells whether the loop goes on.
\<close>

datatype select_case = CtxDone | Receive | Ticker

definition run_turn ::
  "driver \<Rightarrow> flushenv \<Rightarrow> select_case \<Rightarrow> bool \<Rightarrow> usageEntry list \<Rightarrow> writer \<Rightarrow> db \<Rightarrow>
     (flush_event \<times> usageEntry list \<times> writer \<times> db \<times> bool) option" where
  "run_turn D fe sel closed ch w s =
     (case sel of
        CtxDone \<Rightarrow>
          if ctx_done (fe_call fe) then
            (case drain ch w of (ch', w1) \<Rightarrow>
             case flush D fe w1 s of (ev, w2, s') \<Rightarrow> Some (ev, ch', w2, s', False))
          else None
      | Receive \<Rightarrow>
          (case ch of
             [] \<Rightarrow>
               if closed then (case flush D fe w s of (ev, w1, s') \<Rightarrow> Some (ev, ch, w1, s', False)) else None
           | e # ch' \<Rightarrow>
               let w1 = w\<lparr>uw_buf := uw_buf w @ [e]\<rparr> in
               if usageBatchSize \<le> length (uw_buf w1)
               then (case flush D fe w1 s of (ev, w2, s') \<Rightarrow> Some (ev, ch', w2, s', True))
               else Some (Nothing_to_flush, ch', w1, s, True))
      | Ticker \<Rightarrow>
          if uw_buf w \<noteq> [] \<or> uw_retryBuf w \<noteq> []
          then (case flush D fe w s of (ev, w1, s') \<Rightarrow> Some (ev, ch, w1, s', True))
          else Some (Nothing_to_flush, ch, w, s, True))"

section \<open>Aggregation\<close>

definition sum_for :: "(usageEntry \<Rightarrow> string) \<Rightarrow> (UsageData \<Rightarrow> int) \<Rightarrow> string \<Rightarrow> usageEntry list \<Rightarrow> int" where
  "sum_for key cnt k es = sum_list (map (\<lambda>e. cnt (ue_Usage e)) (filter (\<lambda>e. key e = k) es))"

lemma agg_add_keys: "fst ` set (agg_add k i j m) = insert k (fst ` set m)"
  by (induction k i j m rule: agg_add.induct) auto

lemma agg_add_distinct: "distinct (map fst m) \<Longrightarrow> distinct (map fst (agg_add k i j m))"
  by (induction k i j m rule: agg_add.induct) (auto simp: agg_add_keys image_iff dest: agg_add_keys [THEN equalityD1, THEN subsetD])

lemma map_of_agg_add:
  "map_of (agg_add k i j m) k' =
     (if k' = k then Some (case map_of m k of None \<Rightarrow> (i, j) | Some (a, b) \<Rightarrow> (i64 (a + i), i64 (b + j)))
      else map_of m k')"
  by (induction k i j m rule: agg_add.induct) auto

lemma aggregate_snoc:
  "aggregate key (es @ [e]) =
     agg_add (key e) (ud_InputTokens (ue_Usage e)) (ud_OutputTokens (ue_Usage e)) (aggregate key es)"
  by (simp add: aggregate_def)

lemma aggregate_distinct: "distinct (map fst (aggregate key es))"
  by (induction es rule: rev_induct) (simp_all add: aggregate_snoc agg_add_distinct, simp add: aggregate_def)

definition entry_fits :: "usageEntry \<Rightarrow> bool" where
  "entry_fits e \<longleftrightarrow> fits64 (ud_InputTokens (ue_Usage e)) \<and> fits64 (ud_OutputTokens (ue_Usage e))"

lemma i64_add_absorb: "i64 (i64 a + b) = i64 (a + b)"
  by (rule i64_add_left)

lemma map_of_aggregate:
  assumes "list_all entry_fits es"
  shows "map_of (aggregate key es) k =
    (if k \<in> key ` set es then Some (i64 (sum_for key ud_InputTokens k es), i64 (sum_for key ud_OutputTokens k es)) else None)"
  using assms
proof (induction es rule: rev_induct)
  case Nil
  then show ?case by (simp add: aggregate_def)
next
  case (snoc e es)
  then have fits: "fits64 (ud_InputTokens (ue_Usage e))" "fits64 (ud_OutputTokens (ue_Usage e))"
    and IH: "map_of (aggregate key es) k = (if k \<in> key ` set es then Some (i64 (sum_for key ud_InputTokens k es), i64 (sum_for key ud_OutputTokens k es)) else None)"
    by (simp_all add: entry_fits_def)
  have zero: "sum_for key c k es = 0" if "k \<notin> key ` set es" for c
  proof -
    have none: "filter (\<lambda>e. key e = k) es = []" using that by (auto simp: filter_empty_conv)
    show ?thesis unfolding sum_for_def none by simp
  qed
  show ?case
  proof (cases "key e = k")
    case True
    then show ?thesis
      using IH fits zero by (auto simp: aggregate_snoc map_of_agg_add sum_for_def i64_add_left i64_id)
  next
    case False
    then show ?thesis
      using IH by (auto simp: aggregate_snoc map_of_agg_add sum_for_def)
  qed
qed

text \<open>The iteration order of a Go map does not change what is looked up in it.\<close>

lemma map_of_order:
  assumes "iteration_order f" "distinct (map fst m)"
  shows "map_of (f m) = map_of m" "distinct (map fst (f m))"
proof -
  have ms: "mset (f m) = mset m" using assms(1) by (simp add: iteration_order_def)
  then have "mset (map fst (f m)) = mset (map fst m)" by (simp only: mset_map)
  with assms(2) show d: "distinct (map fst (f m))"
    using mset_eq_imp_distinct_iff by blast
  have "set (f m) = set m" using ms by (rule mset_eq_setD)
  with d assms(2) show "map_of (f m) = map_of m"
    by (metis map_of_inject_set)
qed

section \<open>The update loops\<close>

lemma UpdateGateTokenUsage_find:
  "no_fault c \<Longrightarrow> find_gate (snd (UpdateGateTokenUsage D c i a b s)) j =
    (if j = i then map_option (\<lambda>g. g\<lparr>gr_in := int_add D (gr_in g) a, gr_out := int_add D (gr_out g) b,
       gr_updated := DtNow (clock c)\<rparr>) (find_gate s j) else find_gate s j)"
  by (simp add: UpdateGateTokenUsage_def find_gate_update_same find_gate_update_other)

lemma UpdateRealTokenUsage_find:
  "no_fault c \<Longrightarrow> find_real (snd (UpdateRealTokenUsage D c i a b s)) j =
    (if j = i then map_option (\<lambda>r. r\<lparr>rr_in := int_add D (rr_in r) a, rr_out := int_add D (rr_out r) b,
       rr_last_used := Some (DtNow (clock c)), rr_updated := DtNow (clock c)\<rparr>) (find_real s j) else find_real s j)"
  by (simp add: UpdateRealTokenUsage_def find_real_update_same find_real_update_other)

lemma apply_gate_updates:
  assumes "no_fault c" "distinct (map fst m)"
  shows "find_gate (apply_updates (UpdateGateTokenUsage D) c m s) i =
    (case map_of m i of
       None \<Rightarrow> find_gate s i
     | Some (a, b) \<Rightarrow> map_option (\<lambda>g. g\<lparr>gr_in := int_add D (gr_in g) a, gr_out := int_add D (gr_out g) b,
         gr_updated := DtNow (clock c)\<rparr>) (find_gate s i))"
  using assms
proof (induction m arbitrary: c s)
  case Nil
  then show ?case by simp
next
  case (Cons x m)
  obtain k a b where x: "x = (k, a, b)" by (metis prod_cases3)
  from Cons.prems have k: "map_of m k = None"
    by (simp add: x map_of_eq_None_iff)
  from Cons show ?case
    by (cases "i = k") (simp_all add: x k UpdateGateTokenUsage_find split: option.split)
qed

lemma apply_real_updates:
  assumes "no_fault c" "distinct (map fst m)"
  shows "find_real (apply_updates (UpdateRealTokenUsage D) c m s) i =
    (case map_of m i of
       None \<Rightarrow> find_real s i
     | Some (a, b) \<Rightarrow> map_option (\<lambda>r. r\<lparr>rr_in := int_add D (rr_in r) a, rr_out := int_add D (rr_out r) b,
         rr_last_used := Some (DtNow (clock c)), rr_updated := DtNow (clock c)\<rparr>) (find_real s i))"
  using assms
proof (induction m arbitrary: c s)
  case Nil
  then show ?case by simp
next
  case (Cons x m)
  obtain k a b where x: "x = (k, a, b)" by (metis prod_cases3)
  from Cons.prems have k: "map_of m k = None"
    by (simp add: x map_of_eq_None_iff)
  from Cons show ?case
    by (cases "i = k") (simp_all add: x k UpdateRealTokenUsage_find split: option.split)
qed

lemma apply_updates_frame:
  assumes "\<And>c k a b s. P (snd (upd c k a b s)) = P s"
  shows "P (apply_updates upd c m s) = P s"
  by (induction m arbitrary: c s) (auto simp: assms)

lemma apply_gate_frame [frame, simp]:
  "usage_logs (apply_updates (UpdateGateTokenUsage D) c m s) = usage_logs s"
  "sticky_sessions (apply_updates (UpdateGateTokenUsage D) c m s) = sticky_sessions s"
  "find_real (apply_updates (UpdateGateTokenUsage D) c m s) i = find_real s i"
  "real_tokens (apply_updates (UpdateGateTokenUsage D) c m s) = real_tokens s"
  by (rule apply_updates_frame; simp add: UpdateGateTokenUsage_def)+

lemma apply_real_frame [frame, simp]:
  "usage_logs (apply_updates (UpdateRealTokenUsage D) c m s) = usage_logs s"
  "sticky_sessions (apply_updates (UpdateRealTokenUsage D) c m s) = sticky_sessions s"
  "find_gate (apply_updates (UpdateRealTokenUsage D) c m s) i = find_gate s i"
  by (rule apply_updates_frame; simp add: UpdateRealTokenUsage_def)+

lemma apply_updates_db_ok [preserves]:
  assumes "\<And>c k a b s. db_ok s \<Longrightarrow> db_ok (snd (upd c k a b s))"
  shows "db_ok s \<Longrightarrow> db_ok (apply_updates upd c m s)"
  by (induction m arbitrary: c s) (auto simp: assms)

section \<open>Flush\<close>

lemma flush_db_ok [preserves]: "db_ok s \<Longrightarrow> db_ok (snd (snd (flush D fe w s)))"
proof -
  assume ok: "db_ok s"
  let ?r = "InsertUsageLogs (fe_call fe) (map log_of_entry (uw_retryBuf w @ uw_buf w)) s"
  have "db_ok (snd ?r)" by (rule InsertUsageLogs_db_ok [OF ok])
  then show ?thesis using ok
    by (auto simp: flush_def Let_def split: option.splits prod.splits
        intro!: apply_updates_db_ok UpdateGateTokenUsage_db_ok UpdateRealTokenUsage_db_ok)
qed

text \<open>What a flush does to the entries, whatever the store answers.\<close>

lemma flush_outcome:
  assumes "flush D fe w s = (ev, w', s')"
  shows "uw_buf w' = []"
    "(ev = Nothing_to_flush \<and> uw_buf w = [] \<and> uw_retryBuf w = [] \<and> w' = w \<and> s' = s) \<or>
     (ev = Flushed (uw_retryBuf w @ uw_buf w) \<and> uw_retryBuf w' = [] \<and> uw_retryCount w' = 0) \<or>
     (ev = Kept_for_retry (uw_retryBuf w @ uw_buf w) \<and> uw_retryBuf w' = uw_retryBuf w @ uw_buf w \<and>
        uw_retryBuf w' \<noteq> [] \<and> uw_retryCount w < usageMaxRetries \<and> uw_retryCount w' = uw_retryCount w + 1 \<and> s' = s) \<or>
     (ev = Discarded (uw_retryBuf w @ uw_buf w) \<and> uw_retryBuf w' = [] \<and> usageMaxRetries \<le> uw_retryCount w \<and>
        uw_retryCount w' = 0 \<and> s' = s)"
proof -
  let ?buf = "uw_retryBuf w @ uw_buf w"
  obtain e s1 where r: "InsertUsageLogs (fe_call fe) (map log_of_entry ?buf) s = (e, s1)" by fastforce
  have "e \<noteq> None \<Longrightarrow> s1 = s" using InsertUsageLogs_error [of "fe_call fe" "map log_of_entry ?buf" s] r by auto
  with assms r show "uw_buf w' = []"
    "(ev = Nothing_to_flush \<and> uw_buf w = [] \<and> uw_retryBuf w = [] \<and> w' = w \<and> s' = s) \<or>
     (ev = Flushed ?buf \<and> uw_retryBuf w' = [] \<and> uw_retryCount w' = 0) \<or>
     (ev = Kept_for_retry ?buf \<and> uw_retryBuf w' = ?buf \<and>
        uw_retryBuf w' \<noteq> [] \<and> uw_retryCount w < usageMaxRetries \<and> uw_retryCount w' = uw_retryCount w + 1 \<and> s' = s) \<or>
     (ev = Discarded ?buf \<and> uw_retryBuf w' = [] \<and> usageMaxRetries \<le> uw_retryCount w \<and>
        uw_retryCount w' = 0 \<and> s' = s)"
    by (auto simp: flush_def Let_def split: if_splits option.splits)
qed

end
