(* ===== verification/Usage_Properties.thy ===== *)
theory Usage_Properties
  imports Usage_Writer Token_Properties
begin

text \<open>
  What the usage pipeline promises: every entry that got into the channel is handled exactly once
  and in order, a committed batch is added to the logs and to the totals exactly, buffers stay
  bounded; and where it loses entries: a full channel, the fourth failure of a batch, shutdown.
\<close>

section \<open>The pipeline as a transition system\<close>

text \<open>
  The channel, the writer and the database, with the context's state and, as history variables,
  the accepted entries and what the writer finished with, in order; the flag tells whether the
  entry was stored.
\<close>

record pipeline =
  pi_ch :: "usageEntry list"
  pi_dropped :: int
  pi_writer :: writer
  pi_db :: db
  pi_cancelled :: bool
  pi_running :: bool
  pi_accepted :: "usageEntry list"
  pi_finished :: "(usageEntry \<times> bool) list"

definition initial_pipeline :: "db \<Rightarrow> pipeline" where
  "initial_pipeline s =
     \<lparr>pi_ch = [], pi_dropped = 0, pi_writer = NewUsageWriter, pi_db = s, pi_cancelled = False,
      pi_running = True, pi_accepted = [], pi_finished = []\<rparr>"

fun finished_by :: "flush_event \<Rightarrow> (usageEntry \<times> bool) list" where
  "finished_by (Flushed es) = map (\<lambda>e. (e, True)) es"
| "finished_by (Discarded es) = map (\<lambda>e. (e, False)) es"
| "finished_by _ = []"

definition pi_send :: "usageEntry \<Rightarrow> pipeline \<Rightarrow> pipeline" where
  "pi_send e p =
     (case sendUsage e (pi_ch p) (pi_dropped p) of
        (ch, n) \<Rightarrow> p\<lparr>pi_ch := ch, pi_dropped := n,
                    pi_accepted := pi_accepted p @ drop (length (pi_ch p)) ch\<rparr>)"

text \<open>
  Proxies send at any time, other operations change the database at any time, the context is
  cancelled at some time, and the writer takes its turns while it runs.  A flush started after
  the cancellation runs with the cancelled context.
\<close>

inductive pi_step :: "driver \<Rightarrow> pipeline \<Rightarrow> pipeline \<Rightarrow> bool" for D where
  send: "pi_step D p (pi_send e p)"
| other: "pi_step D p (p\<lparr>pi_db := s\<rparr>)"
| cancel: "pi_step D p (p\<lparr>pi_cancelled := True\<rparr>)"
| turn: "pi_running p \<Longrightarrow> ctx_done (fe_call fe) = pi_cancelled p \<Longrightarrow>
    run_turn D fe sel False (pi_ch p) (pi_writer p) (pi_db p) = Some (ev, ch, w, s, go) \<Longrightarrow>
    pi_step D p (p\<lparr>pi_ch := ch, pi_writer := w, pi_db := s, pi_running := go,
      pi_finished := pi_finished p @ finished_by ev\<rparr>)"

inductive pi_reach :: "driver \<Rightarrow> pipeline \<Rightarrow> bool" for D where
  start: "pi_reach D (initial_pipeline s)"
| step: "pi_reach D p \<Longrightarrow> pi_step D p q \<Longrightarrow> pi_reach D q"

inductive_cases pi_stepE: "pi_step D p q"

section \<open>The invariant\<close>

definition pi_inv :: "pipeline \<Rightarrow> bool" where
  "pi_inv p \<longleftrightarrow>
     pi_accepted p = map fst (pi_finished p) @ uw_retryBuf (pi_writer p) @ uw_buf (pi_writer p) @ pi_ch p \<and>
     length (pi_ch p) \<le> usageChannelSize \<and>
     (uw_retryBuf (pi_writer p) = [] \<longleftrightarrow> uw_retryCount (pi_writer p) = 0) \<and>
     uw_retryCount (pi_writer p) \<le> usageMaxRetries \<and>
     (pi_running p \<longrightarrow> length (uw_buf (pi_writer p)) < usageBatchSize \<and>
        length (uw_retryBuf (pi_writer p)) \<le> usageBatchSize * uw_retryCount (pi_writer p))"

lemma map_fst_flag [simp]: "map (fst \<circ> (\<lambda>e. (e, b))) es = es"
  by (simp add: o_def)

text \<open>One flush of a buffer of at most a batch keeps everything the invariant says of the writer.\<close>

lemma flush_inv:
  assumes "flush D fe w s = (ev, w', s')"
    and "uw_retryBuf w = [] \<longleftrightarrow> uw_retryCount w = 0" "uw_retryCount w \<le> usageMaxRetries"
  shows "uw_retryBuf w @ uw_buf w = map fst (finished_by ev) @ uw_retryBuf w' @ uw_buf w'"
    "uw_retryBuf w' = [] \<longleftrightarrow> uw_retryCount w' = 0" "uw_retryCount w' \<le> usageMaxRetries"
    "uw_buf w' = []"
    "length (uw_buf w) \<le> usageBatchSize \<Longrightarrow> length (uw_retryBuf w) \<le> usageBatchSize * uw_retryCount w \<Longrightarrow>
     length (uw_retryBuf w') \<le> usageBatchSize * uw_retryCount w'"
  using flush_outcome [OF assms(1)] assms(2,3) by (auto simp: usageMaxRetries_def)

lemma sendUsage_accept:
  "sendUsage e ch n = (ch', n') \<Longrightarrow> length ch \<le> usageChannelSize \<Longrightarrow>
   ch' = ch @ drop (length ch) ch' \<and> length ch' \<le> usageChannelSize"
  by (auto simp: sendUsage_def split: if_splits)


text \<open>A turn of the loop, split into what it takes from the channel and what it flushes.\<close>

lemma turn_inv:
  assumes "run_turn D fe sel False ch w s = Some (ev, ch', w', s', go)"
    and "uw_retryBuf w = [] \<longleftrightarrow> uw_retryCount w = 0" "uw_retryCount w \<le> usageMaxRetries"
    and "length (uw_buf w) < usageBatchSize" "length (uw_retryBuf w) \<le> usageBatchSize * uw_retryCount w"
  shows "uw_retryBuf w @ uw_buf w @ ch = map fst (finished_by ev) @ uw_retryBuf w' @ uw_buf w' @ ch'"
    "uw_retryBuf w' = [] \<longleftrightarrow> uw_retryCount w' = 0" "uw_retryCount w' \<le> usageMaxRetries"
    "length ch' \<le> length ch"
    "go \<Longrightarrow> length (uw_buf w') < usageBatchSize \<and> length (uw_retryBuf w') \<le> usageBatchSize * uw_retryCount w'"
proof -
  have "(uw_retryBuf w @ uw_buf w @ ch = map fst (finished_by ev) @ uw_retryBuf w' @ uw_buf w' @ ch') \<and>
    (uw_retryBuf w' = [] \<longleftrightarrow> uw_retryCount w' = 0) \<and> uw_retryCount w' \<le> usageMaxRetries \<and>
    length ch' \<le> length ch \<and>
    (go \<longrightarrow> length (uw_buf w') < usageBatchSize \<and> length (uw_retryBuf w') \<le> usageBatchSize * uw_retryCount w')"
  proof (cases sel)
    case CtxDone
    then obtain w1 where w1: "w1 = w\<lparr>uw_buf := uw_buf w @ ch\<rparr>" "flush D fe w1 s = (ev, w', s')" "ch' = []" "\<not> go"
      using assms(1) by (auto simp: run_turn_def drain_def split: if_splits prod.splits)
    then show ?thesis using flush_inv [OF w1(2)] assms(2,3) by simp
  next
    case Receive
    then obtain e where ch: "ch = e # ch'"
      using assms(1) by (auto simp: run_turn_def Let_def split: if_splits prod.splits list.splits)
    define w1 where "w1 = w\<lparr>uw_buf := uw_buf w @ [e]\<rparr>"
    show ?thesis
    proof (cases "usageBatchSize \<le> length (uw_buf w1)")
      case True
      then have "flush D fe w1 s = (ev, w', s')"
        using assms(1) Receive ch by (auto simp: run_turn_def Let_def w1_def split: prod.splits)
      from flush_inv [OF this] assms(2-5) ch show ?thesis by (simp add: w1_def usageBatchSize_def)
    next
      case False
      then have "ev = Nothing_to_flush" "w' = w1"
        using assms(1) Receive ch by (auto simp: run_turn_def Let_def w1_def)
      with False ch assms show ?thesis by (simp add: w1_def)
    qed
  next
    case Ticker
    show ?thesis
    proof (cases "uw_buf w \<noteq> [] \<or> uw_retryBuf w \<noteq> []")
      case True
      then have r: "flush D fe w s = (ev, w', s')" "ch' = ch"
        using assms(1) Ticker by (auto simp: run_turn_def split: prod.splits)
      from flush_inv [OF r(1)] assms(2-5) r(2) show ?thesis by (simp add: usageBatchSize_def)
    next
      case False
      with assms Ticker show ?thesis by (simp add: run_turn_def)
    qed
  qed
  then show "uw_retryBuf w @ uw_buf w @ ch = map fst (finished_by ev) @ uw_retryBuf w' @ uw_buf w' @ ch'"
    "uw_retryBuf w' = [] \<longleftrightarrow> uw_retryCount w' = 0" "uw_retryCount w' \<le> usageMaxRetries"
    "length ch' \<le> length ch"
    "go \<Longrightarrow> length (uw_buf w') < usageBatchSize \<and> length (uw_retryBuf w') \<le> usageBatchSize * uw_retryCount w'"
    by blast+
qed

lemma pi_inv_initial: "pi_inv (initial_pipeline s)"
  by (simp add: pi_inv_def initial_pipeline_def NewUsageWriter_def usageBatchSize_def)

lemma pi_inv_step: "pi_step D p q \<Longrightarrow> pi_inv p \<Longrightarrow> pi_inv q"
proof (induction rule: pi_step.induct)
  case (send p e)
  obtain ch n where r: "sendUsage e (pi_ch p) (pi_dropped p) = (ch, n)" by fastforce
  from send have "length (pi_ch p) \<le> usageChannelSize" by (simp add: pi_inv_def)
  note sendUsage_accept [OF r this]
  with send r show ?case by (simp add: pi_inv_def pi_send_def)
next
  case (other p s)
  then show ?case by (simp add: pi_inv_def)
next
  case (cancel p)
  then show ?case by (simp add: pi_inv_def)
next
  case (turn p fe sel ev ch w s go)
  from turn.prems turn.hyps(1) have pre:
    "uw_retryBuf (pi_writer p) = [] \<longleftrightarrow> uw_retryCount (pi_writer p) = 0" "uw_retryCount (pi_writer p) \<le> usageMaxRetries"
    "length (uw_buf (pi_writer p)) < usageBatchSize"
    "length (uw_retryBuf (pi_writer p)) \<le> usageBatchSize * uw_retryCount (pi_writer p)"
    by (simp_all add: pi_inv_def)
  note inv = turn_inv [OF turn.hyps(3) pre]
  with turn.prems show ?case by (auto simp: pi_inv_def)
qed

lemma pi_reach_inv: "pi_reach D p \<Longrightarrow> pi_inv p"
  by (induction rule: pi_reach.induct) (auto intro: pi_inv_initial pi_inv_step)

section \<open>Exactly once, in order, bounded\<close>

text \<open>A concrete entry for the sample database of \<open>Token_Properties\<close>.\<close>

definition sample_entry :: "string \<Rightarrow> string \<Rightarrow> int \<Rightarrow> int \<Rightarrow> usageEntry" where
  "sample_entry g r i j =
     \<lparr>ue_GateTokenID = g, ue_RealTokenID = r,
      ue_Usage = \<lparr>ud_InputTokens = i, ud_OutputTokens = j, ud_CacheCreationInputTokens = 0,
        ud_CacheReadInputTokens = 0, ud_Model = ''m''\<rparr>,
      ue_RequestPath = ''/v1/messages'', ue_StatusCode = 200\<rparr>"

text \<open>
  C4: Every entry accepted by the channel is handled exactly once and in order.  In every
  reachable state the accepted entries are, in order, those the writer has finished with (stored
  or given up), then those kept for a retry, those buffered and those in the channel: nothing is
  duplicated, reordered or lost on the way.  The channel never holds more than 1024 entries, the
  buffer of a running writer fewer than 100 and the retry buffer at most 300.
\<close>
theorem usage_entries_conserved:
  assumes "pi_reach D p"
  shows "pi_accepted p = map fst (pi_finished p) @ uw_retryBuf (pi_writer p) @ uw_buf (pi_writer p) @ pi_ch p \<and>
    length (pi_ch p) \<le> 1024 \<and>
    (pi_running p \<longrightarrow> length (uw_buf (pi_writer p)) < 100 \<and> length (uw_retryBuf (pi_writer p)) \<le> 300)"
  using pi_reach_inv [OF assms]
  by (auto simp: pi_inv_def usageChannelSize_def usageBatchSize_def usageMaxRetries_def)

theorem usage_entries_conserved_witness:
  "let p = pi_send (sample_entry ''g'' ''r'' 1 2) (initial_pipeline empty_db)
   in pi_accepted p = [] @ [] @ [] @ [sample_entry ''g'' ''r'' 1 2] \<and> length (pi_ch p) \<le> 1024"
proof -
  let ?p = "pi_send (sample_entry ''g'' ''r'' 1 2) (initial_pipeline empty_db)"
  have "pi_reach text_driver ?p" by (rule pi_reach.step [OF pi_reach.start pi_step.send])
  from usage_entries_conserved [OF this] show ?thesis
    by (simp add: Let_def pi_send_def sendUsage_def initial_pipeline_def NewUsageWriter_def usageChannelSize_def)
qed

section \<open>A committed batch\<close>

text \<open>The sums of the batch, and the totals after it, are 64-bit numbers.\<close>

definition rows_fit ::
  "(usageEntry \<Rightarrow> string) \<Rightarrow> ('r \<Rightarrow> string) \<Rightarrow> ('r \<Rightarrow> int) \<Rightarrow> ('r \<Rightarrow> int) \<Rightarrow> 'r list \<Rightarrow> usageEntry list \<Rightarrow> bool" where
  "rows_fit key ident tin tout rows es \<longleftrightarrow>
     list_all (\<lambda>r. \<forall>(tot, cnt)\<in>{(tin r, ud_InputTokens), (tout r, ud_OutputTokens)}.
        fits64 tot \<and> fits64 (sum_for key cnt (ident r) es) \<and> fits64 (tot + sum_for key cnt (ident r) es)) rows"

definition totals_fit :: "db \<Rightarrow> usageEntry list \<Rightarrow> bool" where
  "totals_fit s es \<longleftrightarrow> list_all entry_fits es \<and>
     rows_fit ue_GateTokenID gr_id gr_in gr_out (gate_tokens s) es \<and>
     rows_fit ue_RealTokenID rr_id rr_in rr_out (real_tokens s) es"

lemma sum_for_none: "k \<notin> key ` set es \<Longrightarrow> sum_for key cnt k es = 0"
proof -
  assume "k \<notin> key ` set es"
  then have "filter (\<lambda>e. key e = k) es = []" by (auto simp: filter_empty_conv)
  then show ?thesis by (simp add: sum_for_def)
qed

lemma gate_totals_after:
  assumes "no_fault c" "iteration_order f" "driver_adds D" "list_all entry_fits es"
    "rows_fit ue_GateTokenID gr_id gr_in gr_out (gate_tokens s) es" "find_gate s i = Some g"
  shows "\<exists>g'. find_gate (apply_updates (UpdateGateTokenUsage D) c (f (aggregate ue_GateTokenID es)) s) i = Some g' \<and>
    gr_in g' = gr_in g + sum_for ue_GateTokenID ud_InputTokens i es \<and>
    gr_out g' = gr_out g + sum_for ue_GateTokenID ud_OutputTokens i es"
proof -
  from assms(6) have g: "g \<in> set (gate_tokens s)" "gr_id g = i"
    by (auto simp: find_gate_def dest: find_row_SomeD)
  note m = map_of_order [OF assms(2) aggregate_distinct]
  have "int_add D (gr_in g) (i64 (sum_for ue_GateTokenID ud_InputTokens i es)) = gr_in g + sum_for ue_GateTokenID ud_InputTokens i es"
    "int_add D (gr_out g) (i64 (sum_for ue_GateTokenID ud_OutputTokens i es)) = gr_out g + sum_for ue_GateTokenID ud_OutputTokens i es"
    using assms(3,5) g by (auto simp: rows_fit_def list_all_iff driver_adds_def i64_id)
  then show ?thesis
    using assms(6) sum_for_none [of i ue_GateTokenID es]
    by (simp add: apply_gate_updates [OF assms(1) m(2)] m(1) map_of_aggregate [OF assms(4)])
qed

lemma real_totals_after:
  assumes "no_fault c" "iteration_order f" "driver_adds D" "list_all entry_fits es"
    "rows_fit ue_RealTokenID rr_id rr_in rr_out (real_tokens s) es" "find_real s i = Some r"
  shows "\<exists>r'. find_real (apply_updates (UpdateRealTokenUsage D) c (f (aggregate ue_RealTokenID es)) s) i = Some r' \<and>
    rr_in r' = rr_in r + sum_for ue_RealTokenID ud_InputTokens i es \<and>
    rr_out r' = rr_out r + sum_for ue_RealTokenID ud_OutputTokens i es"
proof -
  from assms(6) have r: "r \<in> set (real_tokens s)" "rr_id r = i"
    by (auto simp: find_real_def dest: find_row_SomeD)
  note m = map_of_order [OF assms(2) aggregate_distinct]
  have "int_add D (rr_in r) (i64 (sum_for ue_RealTokenID ud_InputTokens i es)) = rr_in r + sum_for ue_RealTokenID ud_InputTokens i es"
    "int_add D (rr_out r) (i64 (sum_for ue_RealTokenID ud_OutputTokens i es)) = rr_out r + sum_for ue_RealTokenID ud_OutputTokens i es"
    using assms(3,5) r by (auto simp: rows_fit_def list_all_iff driver_adds_def i64_id)
  then show ?thesis
    using assms(6) sum_for_none [of i ue_RealTokenID es]
    by (simp add: apply_real_updates [OF assms(1) m(2)] m(1) map_of_aggregate [OF assms(4)])
qed

text \<open>What a flush of a non-empty buffer does when nothing fails.\<close>

lemma flush_stores:
  assumes "no_fault (fe_call fe)" "iteration_order (fe_gates fe)" "iteration_order (fe_reals fe)" "driver_adds D"
    and "uw_retryBuf w @ uw_buf w = es" "es \<noteq> []" "totals_fit s es"
    and "list_all (\<lambda>e. ue_GateTokenID e \<in> gate_ids s \<and> ue_RealTokenID e \<in> real_ids s) es"
  shows "\<exists>s'. flush D fe w s = (Flushed es, NewUsageWriter, s') \<and>
    map log_of_row (usage_logs s') = map log_of_row (usage_logs s) @ map (unsaved \<circ> log_of_entry) es \<and>
    (\<forall>i g. find_gate s i = Some g \<longrightarrow> (\<exists>g'. find_gate s' i = Some g' \<and>
       gr_in g' = gr_in g + sum_for ue_GateTokenID ud_InputTokens i es \<and>
       gr_out g' = gr_out g + sum_for ue_GateTokenID ud_OutputTokens i es)) \<and>
    (\<forall>i r. find_real s i = Some r \<longrightarrow> (\<exists>r'. find_real s' i = Some r' \<and>
       rr_in r' = rr_in r + sum_for ue_RealTokenID ud_InputTokens i es \<and>
       rr_out r' = rr_out r + sum_for ue_RealTokenID ud_OutputTokens i es))"
proof -
  let ?c = "fe_call fe" and ?logs = "map log_of_entry es"
  have refs: "\<forall>l\<in>set ?logs. usage_refs_ok s l"
    using assms(8) by (auto simp: usage_refs_ok_iff log_of_entry_def list_all_iff)
  obtain s1 where ins: "InsertUsageLogs ?c ?logs s = (None, s1)"
    using InsertUsageLogs_no_fault [OF assms(1), of ?logs s] refs by (cases "InsertUsageLogs ?c ?logs s") auto
  then have s1: "s1 = fold (add_usage (clock ?c)) ?logs s" by (simp add: InsertUsageLogs_ok)
  define c1 where "c1 = later (3 + length ?logs) ?c"
  define ga where "ga = fe_gates fe (aggregate ue_GateTokenID es)"
  define s2 where "s2 = apply_updates (UpdateGateTokenUsage D) c1 ga s1"
  define c2 where "c2 = later (length ga) c1"
  define s3 where "s3 = apply_updates (UpdateRealTokenUsage D) c2 (fe_reals fe (aggregate ue_RealTokenID es)) s2"
  have c: "no_fault c1" "no_fault c2" by (simp_all add: c1_def c2_def assms(1))
  have "flush D fe w s = (Flushed es, NewUsageWriter, s3)"
    using assms(5,6) ins
    by (auto simp: flush_def Let_def NewUsageWriter_def s3_def c2_def s2_def ga_def c1_def)
  moreover have "map log_of_row (usage_logs s3) = map log_of_row (usage_logs s) @ map (unsaved \<circ> log_of_entry) es"
    by (simp add: s3_def s2_def s1 fold_add_usage_logs)
  moreover have "\<exists>g'. find_gate s3 i = Some g' \<and> gr_in g' = gr_in g + sum_for ue_GateTokenID ud_InputTokens i es \<and>
       gr_out g' = gr_out g + sum_for ue_GateTokenID ud_OutputTokens i es" if "find_gate s i = Some g" for i g
    using gate_totals_after [OF c(1) assms(2,4), of es s1 i g] assms(7) that
    by (simp add: s3_def s2_def ga_def s1 totals_fit_def)
  moreover have "\<exists>r'. find_real s3 i = Some r' \<and> rr_in r' = rr_in r + sum_for ue_RealTokenID ud_InputTokens i es \<and>
       rr_out r' = rr_out r + sum_for ue_RealTokenID ud_OutputTokens i es" if "find_real s i = Some r" for i r
    using real_totals_after [OF c(2) assms(3,4), of es s2 i r] assms(7) that
    by (simp add: s3_def s2_def s1 totals_fit_def)
  ultimately show ?thesis by blast
qed

text \<open>
  C15: A flush stores its batch exactly.  When nothing fails and every entry names existing tokens,
  one usage log per entry is appended, in order and with all its fields, and the totals of every
  gate token and of every real token grow by exactly the sum of the entries that name it (zero for
  the others), whatever the order in which Go iterates over the two aggregation maps; the writer's
  buffers are empty afterwards.
\<close>
theorem flush_stores_batch:
  assumes "no_fault (fe_call fe)" "iteration_order (fe_gates fe)" "iteration_order (fe_reals fe)" "driver_adds D"
    and "uw_retryBuf w @ uw_buf w = es" "es \<noteq> []" "totals_fit s es"
    and "list_all (\<lambda>e. ue_GateTokenID e \<in> gate_ids s \<and> ue_RealTokenID e \<in> real_ids s) es"
  shows "\<exists>s'. flush D fe w s = (Flushed es, NewUsageWriter, s') \<and>
    map log_of_row (usage_logs s') = map log_of_row (usage_logs s) @ map (unsaved \<circ> log_of_entry) es \<and>
    (\<forall>i g. find_gate s i = Some g \<longrightarrow> (\<exists>g'. find_gate s' i = Some g' \<and>
       gr_in g' = gr_in g + sum_for ue_GateTokenID ud_InputTokens i es \<and>
       gr_out g' = gr_out g + sum_for ue_GateTokenID ud_OutputTokens i es)) \<and>
    (\<forall>i r. find_real s i = Some r \<longrightarrow> (\<exists>r'. find_real s' i = Some r' \<and>
       rr_in r' = rr_in r + sum_for ue_RealTokenID ud_InputTokens i es \<and>
       rr_out r' = rr_out r + sum_for ue_RealTokenID ud_OutputTokens i es))"
  using assms by (rule flush_stores)

definition calm :: flushenv where
  "calm = \<lparr>fe_call = call_at 5, fe_gates = rev, fe_reals = (\<lambda>m. m)\<rparr>"

theorem flush_stores_batch_witness:
  "let es = [sample_entry ''g'' ''a'' 10 1, sample_entry ''h'' ''a'' 20 2, sample_entry ''g'' ''b'' 30 3] in
   \<exists>s'. flush text_driver calm (NewUsageWriter\<lparr>uw_buf := es\<rparr>) sample_db = (Flushed es, NewUsageWriter, s') \<and>
     (\<exists>g'. find_gate s' ''g'' = Some g' \<and> gr_in g' = 40)"
proof -
  let ?es = "[sample_entry ''g'' ''a'' 10 1, sample_entry ''h'' ''a'' 20 2, sample_entry ''g'' ''b'' 30 3]"
  have fit: "totals_fit sample_db ?es"
    by (simp add: totals_fit_def rows_fit_def entry_fits_def sum_for_def sample_entry_def sample_db_def empty_db_def
        sample_real_def sample_gate_def fits64_def int64_min_def int64_max_def)
  have ids: "gate_ids sample_db = {''g'', ''h''}" "real_ids sample_db = {''a'', ''b''}"
    by (auto simp: sample_db_def empty_db_def gate_ids_def real_ids_def sample_gate_def sample_real_def)
  have env: "no_fault (fe_call calm)" "iteration_order (fe_gates calm)" "iteration_order (fe_reals calm)"
    by (simp_all add: calm_def iteration_order_def)
  have g: "find_gate sample_db ''g'' = Some (sample_gate ''g'')"
    by (simp add: find_gate_def sample_db_def sample_gate_def)
  have sum: "gr_in (sample_gate ''g'') + sum_for ue_GateTokenID ud_InputTokens ''g'' ?es = 40"
    by (simp add: sum_for_def sample_entry_def sample_gate_def)
  obtain s' where "flush text_driver calm (NewUsageWriter\<lparr>uw_buf := ?es\<rparr>) sample_db = (Flushed ?es, NewUsageWriter, s')"
    "\<exists>g'. find_gate s' ''g'' = Some g' \<and> gr_in g' = gr_in (sample_gate ''g'') + sum_for ue_GateTokenID ud_InputTokens ''g'' ?es"
    using flush_stores_batch [OF env text_driver_adds _ _ fit, of "NewUsageWriter\<lparr>uw_buf := ?es\<rparr>"] g
    by (fastforce simp: NewUsageWriter_def ids sample_entry_def)
  then show ?thesis unfolding sum Let_def by blast
qed

section \<open>Failed batches\<close>

text \<open>Flushes one after the other, each with the entries that arrived before it.\<close>

fun flush_batches ::
  "driver \<Rightarrow> (flushenv \<times> usageEntry list) list \<Rightarrow> writer \<Rightarrow> db \<Rightarrow> flush_event list \<times> writer \<times> db" where
  "flush_batches D [] w s = ([], w, s)"
| "flush_batches D ((fe, b) # bs) w s =
     (case flush D fe (w\<lparr>uw_buf := uw_buf w @ b\<rparr>) s of (ev, w1, s1) \<Rightarrow>
      case flush_batches D bs w1 s1 of (evs, w2, s2) \<Rightarrow> (ev # evs, w2, s2))"

lemma flush_failing:
  assumes "fst (InsertUsageLogs (fe_call fe) (map log_of_entry (uw_retryBuf w @ uw_buf w)) s) \<noteq> None"
  shows "flush D fe w s =
    (if uw_retryCount w < usageMaxRetries
     then (Kept_for_retry (uw_retryBuf w @ uw_buf w),
           w\<lparr>uw_buf := [], uw_retryBuf := uw_retryBuf w @ uw_buf w, uw_retryCount := uw_retryCount w + 1\<rparr>, s)
     else (Discarded (uw_retryBuf w @ uw_buf w), w\<lparr>uw_buf := [], uw_retryBuf := [], uw_retryCount := 0\<rparr>, s))"
proof -
  let ?logs = "map log_of_entry (uw_retryBuf w @ uw_buf w)"
  obtain e where r: "InsertUsageLogs (fe_call fe) ?logs s = (Some e, s)"
    using assms InsertUsageLogs_error [of "fe_call fe" ?logs s]
    by (cases "InsertUsageLogs (fe_call fe) ?logs s") auto
  moreover have "uw_retryBuf w \<noteq> [] \<or> uw_buf w \<noteq> []"
    using r by (auto simp: InsertUsageLogs_def)
  ultimately show ?thesis by (auto simp: flush_def Let_def)
qed

text \<open>An entry that names no token of the database makes its batch fail.\<close>

definition orphan :: "db \<Rightarrow> usageEntry \<Rightarrow> bool" where
  "orphan s e \<longleftrightarrow> ue_GateTokenID e \<notin> gate_ids s \<or> ue_RealTokenID e \<notin> real_ids s"

lemma InsertUsageLogs_orphan:
  assumes "e \<in> set es" "orphan s e"
  shows "fst (InsertUsageLogs c (map log_of_entry es) s) \<noteq> None"
proof
  assume "fst (InsertUsageLogs c (map log_of_entry es) s) = None"
  then have "\<forall>l\<in>set (map log_of_entry es). usage_refs_ok s l"
    using InsertUsageLogs_ok by (metis prod.collapse)
  with assms show False by (auto simp: orphan_def usage_refs_ok_iff log_of_entry_def)
qed

text \<open>
  C37: One orphan entry takes four batches with it.  If an entry names a token that has been
  deleted, then even when nothing else fails, its batch is kept three times together with every
  entry that arrives meanwhile, and at the fourth flush all of them are given up, those that were
  tried only once included; the database is never touched.
\<close>
theorem orphan_entry_discards_batches:
  assumes "orphan s e" "e \<in> set b1" "uw_buf w = []" "uw_retryBuf w = []" "uw_retryCount w = 0"
  shows "flush_batches D [(f1, b1), (f2, b2), (f3, b3), (f4, b4)] w s =
    ([Kept_for_retry b1, Kept_for_retry (b1 @ b2), Kept_for_retry (b1 @ b2 @ b3), Discarded (b1 @ b2 @ b3 @ b4)], w, s)"
proof -
  have bad: "fst (InsertUsageLogs c (map log_of_entry (b1 @ r)) s) \<noteq> None" for c r
    by (rule InsertUsageLogs_orphan [OF _ assms(1)]) (simp add: assms(2))
  have kept: "flush D fe v s = (Kept_for_retry (b1 @ r),
      v\<lparr>uw_buf := [], uw_retryBuf := b1 @ r, uw_retryCount := uw_retryCount v + 1\<rparr>, s)"
    if "uw_retryBuf v @ uw_buf v = b1 @ r" "uw_retryCount v < usageMaxRetries" for fe v r
    using flush_failing [of fe v s D] bad [of "fe_call fe" r] that by simp
  have gone: "flush D fe v s = (Discarded (b1 @ r), v\<lparr>uw_buf := [], uw_retryBuf := [], uw_retryCount := 0\<rparr>, s)"
    if "uw_retryBuf v @ uw_buf v = b1 @ r" "\<not> uw_retryCount v < usageMaxRetries" for fe v r
    using flush_failing [of fe v s D] bad [of "fe_call fe" r] that by simp
  note k1 = kept [of "w\<lparr>uw_buf := b1\<rparr>" "[]" f1]
  note k2 = kept [of "w\<lparr>uw_retryBuf := b1, uw_retryCount := 1, uw_buf := b2\<rparr>" b2 f2]
  note k3 = kept [of "w\<lparr>uw_retryBuf := b1 @ b2, uw_retryCount := 2, uw_buf := b3\<rparr>" "b2 @ b3" f3]
  note k4 = gone [of "w\<lparr>uw_retryBuf := b1 @ b2 @ b3, uw_retryCount := 3, uw_buf := b4\<rparr>" "b2 @ b3 @ b4" f4]
  have w: "w\<lparr>uw_buf := [], uw_retryBuf := [], uw_retryCount := 0\<rparr> = w"
    using assms(3-5) by (cases w) simp
  show ?thesis
    using assms(3-5) k1 k2 k3 k4 w by (simp add: usageMaxRetries_def numeral_2_eq_2 numeral_3_eq_3)
qed

theorem orphan_entry_discards_batches_witness:
  "flush_batches text_driver
     [(calm, [sample_entry ''g'' ''gone'' 1 1]), (calm, []), (calm, []), (calm, [sample_entry ''g'' ''a'' 5 5])]
     NewUsageWriter sample_db =
   ([Kept_for_retry [sample_entry ''g'' ''gone'' 1 1], Kept_for_retry [sample_entry ''g'' ''gone'' 1 1],
     Kept_for_retry [sample_entry ''g'' ''gone'' 1 1],
     Discarded [sample_entry ''g'' ''gone'' 1 1, sample_entry ''g'' ''a'' 5 5]], NewUsageWriter, sample_db)"
proof -
  have "orphan sample_db (sample_entry ''g'' ''gone'' 1 1)"
    by (simp add: orphan_def real_ids_def sample_db_def empty_db_def sample_real_def sample_entry_def)
  from orphan_entry_discards_batches [OF this, of "[sample_entry ''g'' ''gone'' 1 1]" NewUsageWriter
      text_driver calm calm "[]" calm "[]" calm "[sample_entry ''g'' ''a'' 5 5]"]
  show ?thesis by (simp add: NewUsageWriter_def)
qed

text \<open>
  A batch survives up to three failures.  If at the first \<open>n \<le> 3\<close> flushes the transaction cannot
  be started and the insert of the next one succeeds, that flush stores every entry that arrived
  since, in order, and none is given up.
\<close>
theorem retry_recovers:
  assumes "length fs = length bs" "length bs \<le> 3"
    and "list_all (\<lambda>(fe, b). fails (fe_call fe) 0) (zip fs bs)" "\<forall>b\<in>set bs. b \<noteq> []"
    and "uw_buf w = []" "uw_retryBuf w = []" "uw_retryCount w = 0"
    and "fst (InsertUsageLogs (fe_call fe) (map log_of_entry (concat bs @ b)) s) = None" "concat bs @ b \<noteq> []"
  shows "last (fst (flush_batches D (zip fs bs @ [(fe, b)]) w s)) = Flushed (concat bs @ b) \<and>
    (\<forall>ev\<in>set (fst (flush_batches D (zip fs bs @ [(fe, b)]) w s)). \<forall>es. ev \<noteq> Discarded es)"
proof -
  have gen: "\<exists>evs. length evs = length bs \<and> (\<forall>ev\<in>set evs. \<forall>es. ev \<noteq> Discarded es) \<and>
      fst (flush_batches D (zip fs bs @ [(fe, b)]) v s) = evs @ [Flushed (uw_retryBuf v @ concat bs @ b)]"
    if "length fs = length bs" "uw_retryCount v + length bs \<le> 3" "uw_buf v = []"
      "list_all (\<lambda>(fe, b). fails (fe_call fe) 0) (zip fs bs)" "\<forall>b\<in>set bs. b \<noteq> []"
      "fst (InsertUsageLogs (fe_call fe) (map log_of_entry (uw_retryBuf v @ concat bs @ b)) s) = None"
      "uw_retryBuf v @ concat bs @ b \<noteq> []" for v fs bs
    using that
  proof (induction fs bs arbitrary: v rule: list_induct2)
    case Nil
    then obtain s1 where "InsertUsageLogs (fe_call fe) (map log_of_entry (uw_retryBuf v @ b)) s = (None, s1)"
      by (metis concat.simps(1) append_Nil prod.collapse)
    with Nil show ?case by (auto simp: flush_def Let_def)
  next
    case (Cons f fs x bs)
    let ?v = "v\<lparr>uw_buf := [], uw_retryBuf := uw_retryBuf v @ x, uw_retryCount := uw_retryCount v + 1\<rparr>"
    have "fst (InsertUsageLogs (fe_call f) (map log_of_entry (uw_retryBuf v @ x)) s) \<noteq> None"
      using Cons.prems by (auto simp: InsertUsageLogs_def)
    then have fl: "flush D f (v\<lparr>uw_buf := x\<rparr>) s = (Kept_for_retry (uw_retryBuf v @ x), ?v, s)"
      using Cons.prems by (subst flush_failing) (simp_all add: usageMaxRetries_def)
    obtain evs where "length evs = length bs" "\<forall>ev\<in>set evs. \<forall>es. ev \<noteq> Discarded es"
      "fst (flush_batches D (zip fs bs @ [(fe, b)]) ?v s) = evs @ [Flushed (uw_retryBuf ?v @ concat bs @ b)]"
      using Cons.IH [of ?v] Cons.prems by auto
    moreover obtain es w2 s2 where "flush_batches D (zip fs bs @ [(fe, b)]) ?v s = (es, w2, s2)" by (metis prod_cases3)
    ultimately show ?case
      using fl Cons.prems by (intro exI [of _ "Kept_for_retry (uw_retryBuf v @ x) # evs"]) simp
  qed
  from gen [of fs bs w] assms show ?thesis by auto
qed

definition broken :: flushenv where
  "broken = calm\<lparr>fe_call := (call_at 5)\<lparr>drv_fault := (\<lambda>k. k = 0)\<rparr>\<rparr>"

theorem retry_recovers_witness:
  "last (fst (flush_batches text_driver
     [(broken, [sample_entry ''g'' ''a'' 1 1]), (broken, [sample_entry ''h'' ''b'' 2 2]), (calm, [sample_entry ''g'' ''b'' 3 3])]
     NewUsageWriter sample_db)) =
   Flushed [sample_entry ''g'' ''a'' 1 1, sample_entry ''h'' ''b'' 2 2, sample_entry ''g'' ''b'' 3 3]"
proof -
  let ?es = "[sample_entry ''g'' ''a'' 1 1, sample_entry ''h'' ''b'' 2 2, sample_entry ''g'' ''b'' 3 3]"
  have ids: "gate_ids sample_db = {''g'', ''h''}" "real_ids sample_db = {''a'', ''b''}"
    by (auto simp: sample_db_def empty_db_def gate_ids_def real_ids_def sample_gate_def sample_real_def)
  have "fst (InsertUsageLogs (fe_call calm) (map log_of_entry ?es) sample_db) = None"
    by (subst InsertUsageLogs_no_fault)
      (simp_all add: calm_def usage_refs_ok_iff ids log_of_entry_def sample_entry_def)
  then show ?thesis
    using retry_recovers [of "[broken, broken]" "[[sample_entry ''g'' ''a'' 1 1], [sample_entry ''h'' ''b'' 2 2]]"
        NewUsageWriter calm "[sample_entry ''g'' ''b'' 3 3]" sample_db text_driver]
    by (simp add: NewUsageWriter_def broken_def fails_def)
qed

text \<open>
  C36: Retrying ends.  Whatever the store answers and whatever arrives meanwhile, entries that wait in the
  buffers are stored or given up at the latest by the flush at which the retry count has run out,
  that is after at most four flushes: one of them ends with the whole of what had been collected
  until then, in the order of arrival.
\<close>
theorem retries_end:
  assumes "uw_retryBuf w @ uw_buf w \<noteq> []" "uw_retryCount w \<le> usageMaxRetries"
    and "usageMaxRetries < uw_retryCount w + length bs"
  shows "\<exists>n < length bs. n \<le> usageMaxRetries - uw_retryCount w \<and>
    fst (flush_batches D bs w s) ! n \<in>
      (let es = uw_retryBuf w @ uw_buf w @ concat (map snd (take (Suc n) bs)) in {Flushed es, Discarded es})"
  using assms
proof (induction bs arbitrary: w s)
  case (Cons x bs)
  obtain fe b where x: "x = (fe, b)" by fastforce
  let ?w = "w\<lparr>uw_buf := uw_buf w @ b\<rparr>" and ?es = "uw_retryBuf w @ uw_buf w @ b"
  obtain ev w1 s1 where fl: "flush D fe ?w s = (ev, w1, s1)" by (metis prod_cases3)
  obtain evs w2 s2 where rest: "flush_batches D bs w1 s1 = (evs, w2, s2)" by (metis prod_cases3)
  have all: "fst (flush_batches D (x # bs) w s) = ev # evs" by (simp add: x fl rest)
  note out = flush_outcome [OF fl]
  show ?case
  proof (cases "ev \<in> {Flushed ?es, Discarded ?es}")
    case True
    with all x show ?thesis by (intro exI [of _ 0]) (simp add: Let_def)
  next
    case False
    with out(2) Cons.prems(1) have kept: "uw_retryBuf w1 = ?es" "uw_retryCount w1 = uw_retryCount w + 1"
      "uw_retryCount w < usageMaxRetries" by auto
    from Cons.IH [of w1 s1] Cons.prems kept out(1) obtain n where n: "n < length bs" "n \<le> usageMaxRetries - uw_retryCount w1"
      "evs ! n \<in> (let es = ?es @ concat (map snd (take (Suc n) bs)) in {Flushed es, Discarded es})"
      by (auto simp: rest)
    with kept all x show ?thesis by (intro exI [of _ "Suc n"]) (auto simp: Let_def)
  qed
qed simp

theorem retries_end_witness:
  "\<exists>n \<le> 3. fst (flush_batches text_driver (replicate 4 (broken, [sample_entry ''g'' ''a'' 1 1]))
       (NewUsageWriter\<lparr>uw_buf := [sample_entry ''h'' ''b'' 2 2]\<rparr>) sample_db) ! n \<in>
     {Flushed (sample_entry ''h'' ''b'' 2 2 # replicate (Suc n) (sample_entry ''g'' ''a'' 1 1)),
      Discarded (sample_entry ''h'' ''b'' 2 2 # replicate (Suc n) (sample_entry ''g'' ''a'' 1 1))}"
proof -
  let ?w = "NewUsageWriter\<lparr>uw_buf := [sample_entry ''h'' ''b'' 2 2]\<rparr>"
  let ?bs = "replicate 4 (broken, [sample_entry ''g'' ''a'' 1 1])"
  have one: "concat (replicate k [a]) = replicate k a" for k :: nat and a :: usageEntry by (induction k) simp_all
  have "uw_retryBuf ?w @ uw_buf ?w \<noteq> []" "uw_retryCount ?w \<le> usageMaxRetries"
    "usageMaxRetries < uw_retryCount ?w + length ?bs"
    by (simp_all add: NewUsageWriter_def usageMaxRetries_def)
  from retries_end [OF this, of text_driver sample_db] obtain n where n: "n < 4" "n \<le> 3"
    "fst (flush_batches text_driver ?bs ?w sample_db) ! n \<in>
      (let es = uw_retryBuf ?w @ uw_buf ?w @ concat (map snd (take (Suc n) ?bs)) in {Flushed es, Discarded es})"
    by (auto simp: NewUsageWriter_def usageMaxRetries_def)
  moreover from n(1) have "concat (map snd (take (Suc n) ?bs)) = replicate (Suc n) (sample_entry ''g'' ''a'' 1 1)"
    by (simp only: take_replicate map_replicate snd_conv one) simp
  ultimately show ?thesis by (intro exI [of _ n]) (simp add: NewUsageWriter_def Let_def)
qed

section \<open>Shutdown\<close>

lemma flush_cancelled: "ctx_done (fe_call fe) \<Longrightarrow> flush D fe w s = (ev, w', s') \<Longrightarrow> s' = s \<and> filter snd (finished_by ev) = []"
proof -
  assume c: "ctx_done (fe_call fe)" and r: "flush D fe w s = (ev, w', s')"
  show ?thesis
  proof (cases "uw_retryBuf w = [] \<and> uw_buf w = []")
    case True
    with r show ?thesis by (simp add: flush_def)
  next
    case False
    then have "fst (InsertUsageLogs (fe_call fe) (map log_of_entry (uw_retryBuf w @ uw_buf w)) s) \<noteq> None"
      using c by (simp add: InsertUsageLogs_def)
    from flush_failing [OF this] r show ?thesis
      by (auto split: if_splits simp: filter_empty_conv)
  qed
qed

lemma turn_cancelled:
  assumes "ctx_done (fe_call fe)" "run_turn D fe sel cl ch w s = Some (ev, ch', w', s', go)"
  shows "s' = s \<and> filter snd (finished_by ev) = []"
  using assms(2) flush_cancelled [OF assms(1)]
  by (cases sel) (fastforce simp: run_turn_def Let_def split: if_splits prod.splits list.splits)+

lemma step_cancelled:
  "pi_step D p q \<Longrightarrow> pi_cancelled p \<Longrightarrow>
     pi_cancelled q \<and> filter snd (pi_finished q) = filter snd (pi_finished p)"
proof (induction rule: pi_step.induct)
  case (turn p fe sel ev ch w s go)
  then show ?case using turn_cancelled [of fe D sel False] by simp
qed (simp_all add: pi_send_def split: prod.splits)

text \<open>
  Nothing is stored after the shutdown signal.  Once the context is cancelled no step of the
  writer stores an entry: the final \<open>drain\<close> and \<open>flush\<close> run with the cancelled context, so every
  entry that is in the channel, in the buffer or waiting for a retry at that moment, and every one
  that a request still in progress sends later, is lost.
\<close>
theorem shutdown_stores_nothing:
  assumes "(pi_step D)\<^sup>*\<^sup>* p q" "pi_cancelled p"
  shows "filter snd (pi_finished q) = filter snd (pi_finished p)"
proof -
  have "pi_cancelled q \<and> filter snd (pi_finished q) = filter snd (pi_finished p)"
    using assms(1) by (induction rule: rtranclp_induct) (use assms(2) step_cancelled in auto)
  then show ?thesis ..
qed

definition cancelled_env :: flushenv where
  "cancelled_env = calm\<lparr>fe_call := (call_at 5)\<lparr>ctx_done := True\<rparr>\<rparr>"

lemma last_turn:
  fixes e :: usageEntry
  shows "run_turn D cancelled_env CtxDone False [e] NewUsageWriter s =
     Some (Kept_for_retry [e], [], NewUsageWriter\<lparr>uw_retryBuf := [e], uw_retryCount := 1\<rparr>, s, False)"
  by (simp add: run_turn_def drain_def cancelled_env_def NewUsageWriter_def flush_def InsertUsageLogs_def
      usageMaxRetries_def Let_def)

text \<open>An accepted entry, a cancellation, and the last turn of the writer.\<close>

theorem shutdown_stores_nothing_witness:
  "\<exists>q. (pi_step text_driver)\<^sup>*\<^sup>* ((pi_send (sample_entry ''g'' ''a'' 1 2) (initial_pipeline sample_db))\<lparr>pi_cancelled := True\<rparr>) q \<and>
     \<not> pi_running q \<and> pi_accepted q = [sample_entry ''g'' ''a'' 1 2] \<and> filter snd (pi_finished q) = []"
proof -
  let ?e = "sample_entry ''g'' ''a'' 1 2"
  let ?p = "(pi_send ?e (initial_pipeline sample_db))\<lparr>pi_cancelled := True\<rparr>"
  have p: "pi_ch ?p = [?e]" "pi_writer ?p = NewUsageWriter" "pi_db ?p = sample_db" "pi_running ?p" "pi_cancelled ?p"
    "pi_accepted ?p = [?e]" "pi_finished ?p = []"
    by (simp_all add: pi_send_def sendUsage_def initial_pipeline_def usageChannelSize_def)
  from last_turn [of text_driver ?e sample_db] obtain q where q: "pi_step text_driver ?p q" "\<not> pi_running q" "pi_accepted q = [?e]"
    using pi_step.turn [of ?p cancelled_env text_driver CtxDone] p by (fastforce simp: cancelled_env_def)
  from q(1) have "(pi_step text_driver)\<^sup>*\<^sup>* ?p q" by simp
  from shutdown_stores_nothing [OF this p(5)] this q p(7) show ?thesis by auto
qed

end
