(* ===== verification/Http.thy ===== *)
theory Http
  imports Tap
begin

text \<open>
  What the program uses of \<open>net/http\<close>: headers with canonical keys, requests and responses, the
  error reply of internal/httputil/response.go, and the header handling of
  \<open>httputil.ReverseProxy\<close> that runs after the director.
\<close>

section \<open>Headers\<close>

text \<open>
  A header maps canonical keys to their values in order; a key without values is absent.
  \<open>textproto.CanonicalMIMEHeaderKey\<close> upper-cases the first letter and every letter after a hyphen,
  lower-cases the others, and leaves a key with a byte that is no token character as it is.
\<close>

type_synonym http_header = "string \<Rightarrow> string list"

definition upper_char :: "char \<Rightarrow> char" where
  "upper_char c = (let n = of_char c :: nat in if 97 \<le> n \<and> n \<le> 122 then char_of (n - 32) else c)"

definition token_char :: "char \<Rightarrow> bool" where
  "token_char c \<longleftrightarrow> (let n = of_char c :: nat in
     (48 \<le> n \<and> n \<le> 57) \<or> (65 \<le> n \<and> n \<le> 90) \<or> (97 \<le> n \<and> n \<le> 122) \<or>
     c \<in> set [CHR ''!'', CHR ''#'', CHR ''$'', CHR ''%'', CHR ''&'', CHR 0x27, CHR ''*'', CHR ''+'', CHR ''-'',
       CHR ''.'', CHR ''^'', CHR ''_'', CHR 0x60, CHR ''|'', CHR ''~''])"

fun canon_from :: "bool \<Rightarrow> string \<Rightarrow> string" where
  "canon_from up [] = []"
| "canon_from up (c # s) = (if up then upper_char c else lower_char c) # canon_from (c = CHR ''-'') s"

definition canonical_key :: "string \<Rightarrow> string" where
  "canonical_key k = (if list_all token_char k then canon_from True k else k)"

definition Header_Get :: "http_header \<Rightarrow> string \<Rightarrow> string" where
  "Header_Get h k = (case h (canonical_key k) of [] \<Rightarrow> [] | v # _ \<Rightarrow> v)"

definition Header_Set :: "http_header \<Rightarrow> string \<Rightarrow> string \<Rightarrow> http_header" where
  "Header_Set h k v = h(canonical_key k := [v])"

definition Header_Del :: "string \<Rightarrow> http_header \<Rightarrow> http_header" where
  "Header_Del k h = h(canonical_key k := [])"

section \<open>Hop-by-hop headers\<close>

text \<open>
  \<open>removeHopByHopHeaders\<close>: every header named in a \<open>Connection\<close> value, then a fixed list.  It runs
  on the outgoing request after the director and on the response before \<open>ModifyResponse\<close>.
\<close>

fun split_comma :: "string \<Rightarrow> string list" where
  "split_comma [] = [[]]"
| "split_comma (c # s) =
     (if c = CHR '','' then [] # split_comma s
      else case split_comma s of [] \<Rightarrow> [[c]] | w # ws \<Rightarrow> (c # w) # ws)"

definition trim_string :: "string \<Rightarrow> string" where
  "trim_string s = rev (dropWhile is_space (rev (dropWhile is_space s)))"

definition connection_names :: "http_header \<Rightarrow> string list" where
  "connection_names h = filter (\<lambda>s. s \<noteq> []) (map trim_string (concat (map split_comma (h ''Connection''))))"

definition hopHeaders :: "string list" where
  "hopHeaders = [''Connection'', ''Proxy-Connection'', ''Keep-Alive'', ''Proxy-Authenticate'',
     ''Proxy-Authorization'', ''Te'', ''Trailer'', ''Transfer-Encoding'', ''Upgrade'']"

definition removeHopByHopHeaders :: "http_header \<Rightarrow> http_header" where
  "removeHopByHopHeaders h = fold Header_Del hopHeaders (fold Header_Del (connection_names h) h)"

section \<open>Requests, responses, replies\<close>

text \<open>
  A body is what the successive reads of it return.  \<open>rq_path\<close> is the decoded path of the URL,
  \<open>rq_escapedPath\<close> the path as it was sent.
\<close>

type_synonym reads = "(bytes \<times> read_err option) list"

record http_request =
  rq_method :: string
  rq_scheme :: string
  rq_urlHost :: string
  rq_host :: string
  rq_path :: string
  rq_escapedPath :: string
  rq_rawQuery :: string
  rq_header :: http_header
  rq_body :: reads

datatype resp_body = Raw reads | Tapped tappingReader reads

record http_response =
  rs_status :: int
  rs_header :: http_header
  rs_body :: resp_body

text \<open>What the client gets: an error of the gate, or the upstream's status, header and reads.\<close>

datatype reply = JSONError int string | Forward int http_header reads

definition WriteJSONError :: "int \<Rightarrow> string \<Rightarrow> reply" where
  "WriteJSONError code msg = JSONError code msg"

text \<open>
  \<open>io.ReadAll\<close> (\<open>None\<close>: an error before the end; a body that stops without \<open>EOF\<close> is a broken one).
\<close>

fun ReadAll :: "reads \<Rightarrow> bytes option" where
  "ReadAll [] = None"
| "ReadAll ((d, e) # rs) =
     (case e of
        None \<Rightarrow> map_option (\<lambda>b. d @ b) (ReadAll rs)
      | Some EOF \<Rightarrow> Some d
      | Some ReadFailed \<Rightarrow> None)"

text \<open>
  The copy loop of the proxy: it reads until an error or the end, or until the client, who takes
  \<open>n\<close> reads, is gone.
\<close>

fun copy_reads :: "nat \<Rightarrow> reads \<Rightarrow> reads" where
  "copy_reads 0 rs = []"
| "copy_reads (Suc n) [] = []"
| "copy_reads (Suc n) ((d, e) # rs) = (d, e) # (if e = None then copy_reads n rs else [])"

section \<open>Lemmas\<close>

lemma canon_Authorization [simp]: "canonical_key ''Authorization'' = ''Authorization''"
  by code_simp

lemma canon_Content_Type [simp]: "canonical_key ''Content-Type'' = ''Content-Type''"
  by code_simp

lemma fold_Header_Del:
  "fold Header_Del ks h k = (if k \<in> canonical_key ` set ks then [] else h k)"
  by (induction ks arbitrary: h) (auto simp: Header_Del_def)

lemma hop_Authorization: "''Authorization'' \<notin> canonical_key ` set hopHeaders"
  by code_simp

lemma removeHop_Authorization:
  "removeHopByHopHeaders h ''Authorization'' =
     (if ''Authorization'' \<in> canonical_key ` set (connection_names h) then [] else h ''Authorization'')"
  using hop_Authorization by (simp only: removeHopByHopHeaders_def fold_Header_Del if_False if_cancel)


end
