(* ===== verification/Proxy.thy ===== *)
theory Proxy
  imports Http Usage_Writer
begin

text \<open>
  internal/proxy/proxy.go: the request handler.  A request is authenticated by its gate token,
  given a real token, forwarded with the credentials swapped, and its response tapped for usage.
  The upstream and the client are parameters of a request.
\<close>

section \<open>State and environment\<close>

text \<open>The parsed \<open>upstreamURL\<close> of the handler.\<close>

record upstream_url =
  up_scheme :: string
  up_host :: string

text \<open>
  What the handler shares with the rest of the program: the database, the token manager, the usage
  channel and the counter of dropped entries.
\<close>

record 'c gateway =
  gw_db :: db
  gw_mgr :: "'c manager"
  gw_ch :: "usageEntry list"
  gw_dropped :: int

text \<open>
  What a request meets: the calls of the lookup, of the resolution and of the failure record, the
  upstream (\<open>Inl\<close>: the text of a transport error), the text of an error while its body is read whole,
  the number of reads the client takes, and the
  header lines the reverse proxy of the library adds after it has removed the hop-by-hop ones
  (\<open>Te\<close>, \<open>Upgrade\<close>, \<open>X-Forwarded-For\<close>, \<open>User-Agent\<close>).
\<close>

record exchange =
  ex_auth :: callenv
  ex_resolve :: callenv
  ex_record :: callenv
  ex_upstream :: "http_request \<Rightarrow> string + http_response"
  ex_readError :: string
  ex_client :: nat
  ex_added :: "http_header \<Rightarrow> http_header"

definition keeps_authorization :: "(http_header \<Rightarrow> http_header) \<Rightarrow> bool" where
  "keeps_authorization f \<longleftrightarrow> (\<forall>h. f h ''Authorization'' = h ''Authorization'')"

section \<open>The handler\<close>

definition bearer :: string where
  "bearer = ''Bearer ''"

text \<open>The director, and what the library does to the header after it.\<close>

definition director :: "upstream_url \<Rightarrow> RealToken \<Rightarrow> http_request \<Rightarrow> http_request" where
  "director U realToken req =
     req\<lparr>rq_scheme := up_scheme U, rq_urlHost := up_host U, rq_host := up_host U,
         rq_header := Header_Set (rq_header req) ''Authorization'' (bearer @ rt_AccessToken realToken)\<rparr>"

definition outgoing :: "upstream_url \<Rightarrow> exchange \<Rightarrow> RealToken \<Rightarrow> http_request \<Rightarrow> http_request" where
  "outgoing U x realToken req =
     (let r = director U realToken req
      in r\<lparr>rq_header := ex_added x (removeHopByHopHeaders (rq_header r))\<rparr>)"

definition send_usage :: "GateToken \<Rightarrow> RealToken \<Rightarrow> UsageData \<Rightarrow> string \<Rightarrow> int \<Rightarrow> 'c gateway \<Rightarrow> 'c gateway" where
  "send_usage gt realToken usage path status G =
     (case sendUsage \<lparr>ue_GateTokenID = gt_ID gt, ue_RealTokenID = rt_ID realToken, ue_Usage = usage,
             ue_RequestPath = path, ue_StatusCode = status\<rparr> (gw_ch G) (gw_dropped G) of
        (ch, n) \<Rightarrow> G\<lparr>gw_ch := ch, gw_dropped := n\<rparr>)"

text \<open>A failed record is only logged.\<close>

definition record_failure :: "driver \<Rightarrow> exchange \<Rightarrow> RealToken \<Rightarrow> 'c gateway \<Rightarrow> 'c gateway" where
  "record_failure D x realToken G =
     (case RecordFailure D (ex_record x) (rt_ID realToken) (gw_db G) (gw_mgr G) of
        (_, s, m) \<Rightarrow> G\<lparr>gw_db := s, gw_mgr := m\<rparr>)"

text \<open>\<open>ModifyResponse\<close>: the error it returns, or the response with its body wrapped.\<close>

definition ModifyResponse ::
  "driver \<Rightarrow> exchange \<Rightarrow> GateToken \<Rightarrow> RealToken \<Rightarrow> string \<Rightarrow> http_response \<Rightarrow> reads \<Rightarrow> 'c gateway \<Rightarrow>
     (string + http_response) \<times> 'c gateway" where
  "ModifyResponse D x gt realToken path resp rds G =
     (let ct = Header_Get (rs_header resp) ''Content-Type'';
          status = rs_status resp;
          recorded = (\<lambda>G. if 500 \<le> status then record_failure D x realToken G else G) in
      if HasPrefix ct ''text/event-stream''
      then (Inr (resp\<lparr>rs_body := Tapped newTappingReader rds\<rparr>), recorded G)
      else if HasPrefix ct ''application/json'' \<and> 200 \<le> status \<and> status < 300
      then (case ReadAll rds of
              None \<Rightarrow> (Inl (ex_readError x), G)
            | Some body \<Rightarrow>
                (Inr (resp\<lparr>rs_body := Raw [(body, None), ([], Some EOF)]\<rparr>),
                 recorded (send_usage gt realToken (extractJSONUsage body) path status G)))
      else (Inr (resp\<lparr>rs_body := Raw rds\<rparr>), recorded G))"

definition ErrorHandler :: "driver \<Rightarrow> exchange \<Rightarrow> RealToken \<Rightarrow> string \<Rightarrow> 'c gateway \<Rightarrow> reply \<times> 'c gateway" where
  "ErrorHandler D x realToken err G =
     (WriteJSONError 502 (''upstream error: '' @ err), record_failure D x realToken G)"

text \<open>
  Copying the body to the client: a tapped one may report its usage on the way.
\<close>

definition copy_body ::
  "exchange \<Rightarrow> GateToken \<Rightarrow> RealToken \<Rightarrow> string \<Rightarrow> http_response \<Rightarrow> 'c gateway \<Rightarrow> reads \<times> 'c gateway" where
  "copy_body x gt realToken path resp G =
     (case rs_body resp of
        Raw rds \<Rightarrow> (copy_reads (ex_client x) rds, G)
      | Tapped t rds \<Rightarrow>
          (case read_all t (copy_reads (ex_client x) rds) of
             (outs, usages, _) \<Rightarrow>
               (outs, fold (\<lambda>u. send_usage gt realToken u path (rs_status resp)) usages G)))"

definition body_reads :: "resp_body \<Rightarrow> reads" where
  "body_reads b = (case b of Raw rds \<Rightarrow> rds | Tapped t rds \<Rightarrow> rds)"

text \<open>\<open>proxy.ServeHTTP(w, r)\<close>, after the upstream has answered.\<close>

definition serve_response ::
  "driver \<Rightarrow> exchange \<Rightarrow> GateToken \<Rightarrow> RealToken \<Rightarrow> string \<Rightarrow> string + http_response \<Rightarrow> 'c gateway \<Rightarrow> reply \<times> 'c gateway" where
  "serve_response D x gt realToken path answer G =
     (case answer of
        Inl err \<Rightarrow> ErrorHandler D x realToken err G
      | Inr resp0 \<Rightarrow>
          (let resp = resp0\<lparr>rs_header := removeHopByHopHeaders (rs_header resp0)\<rparr> in
           case ModifyResponse D x gt realToken path resp (body_reads (rs_body resp)) G of
             (Inl err, G1) \<Rightarrow> ErrorHandler D x realToken err G1
           | (Inr resp1, G1) \<Rightarrow>
               (case copy_body x gt realToken path resp1 G1 of
                  (outs, G2) \<Rightarrow> (Forward (rs_status resp1) (rs_header resp1) outs, G2))))"

text \<open>The reply, the request that reached the upstream, if one did, and the new state.\<close>

definition ServeHTTP ::
  "driver \<Rightarrow> ('c, string) ttlcache \<Rightarrow> upstream_url \<Rightarrow> exchange \<Rightarrow> http_request \<Rightarrow> 'c gateway \<Rightarrow>
     reply \<times> http_request option \<times> 'c gateway" where
  "ServeHTTP D K U x r G =
     (let authHeader = Header_Get (rq_header r) ''Authorization'' in
      if \<not> HasPrefix authHeader bearer
      then (WriteJSONError 401 ''missing or invalid Authorization header'', None, G)
      else
        (case GetGateTokenByToken D (ex_auth x) (TrimPrefix authHeader bearer) (gw_db G) of
           Inl e \<Rightarrow> (WriteJSONError 401 ''invalid or inactive gate token'', None, G)
         | Inr gt \<Rightarrow>
             if \<not> gt_IsActive gt then (WriteJSONError 401 ''invalid or inactive gate token'', None, G)
             else
               (case ResolveToken D K (ex_resolve x) (gt_ID gt) (gw_db G) (gw_mgr G) of
                  (Inl e, s, m) \<Rightarrow> (WriteJSONError 502 ''no available upstream tokens'', None, G\<lparr>gw_db := s, gw_mgr := m\<rparr>)
                | (Inr realToken, s, m) \<Rightarrow>
                    (let out = outgoing U x realToken r in
                     case serve_response D x gt realToken (rq_path r) (ex_upstream x out) (G\<lparr>gw_db := s, gw_mgr := m\<rparr>) of
                       (rep, G') \<Rightarrow> (rep, Some out, G')))))"

section \<open>Lemmas\<close>

lemma send_usage_frame [frame, simp]:
  "gw_db (send_usage gt t u p st G) = gw_db G" "gw_mgr (send_usage gt t u p st G) = gw_mgr G"
  by (simp_all add: send_usage_def split: prod.splits)

lemma fold_send_usage_frame [frame, simp]:
  "gw_db (fold (\<lambda>u. send_usage gt t u p st) us G) = gw_db G"
  "gw_mgr (fold (\<lambda>u. send_usage gt t u p st) us G) = gw_mgr G"
  by (induction us arbitrary: G) simp_all

lemma record_failure_sel [simp]:
  "gw_ch (record_failure D x t G) = gw_ch G" "gw_dropped (record_failure D x t G) = gw_dropped G"
  "gw_db (record_failure D x t G) = fst (snd (RecordFailure D (ex_record x) (rt_ID t) (gw_db G) (gw_mgr G)))"
  "gw_mgr (record_failure D x t G) = snd (snd (RecordFailure D (ex_record x) (rt_ID t) (gw_db G) (gw_mgr G)))"
  by (simp_all add: record_failure_def split: prod.splits)

lemma copy_body_frame [frame, simp]:
  "gw_db (snd (copy_body x gt t p resp G)) = gw_db G" "gw_mgr (snd (copy_body x gt t p resp G)) = gw_mgr G"
  by (simp_all add: copy_body_def split: resp_body.splits prod.splits)

end
