(* ===== verification/Proxy_Properties.thy ===== *)
theory Proxy_Properties
  imports Proxy Failure_Properties Tap_Properties
begin

text \<open>
  What the proxy promises: only an active gate token reaches the upstream, and it never gets there
  itself; the client sees the upstream's answer; every completed answer is accounted to the right
  tokens; every upstream failure, and nothing else, counts against the real token.
\<close>

section \<open>The course of a request\<close>

definition presented_token :: "http_request \<Rightarrow> string option" where
  "presented_token r =
     (let a = Header_Get (rq_header r) ''Authorization'' in
      if HasPrefix a bearer then Some (TrimPrefix a bearer) else None)"

definition admits :: "db \<Rightarrow> http_request \<Rightarrow> gate_row \<Rightarrow> bool" where
  "admits s r g \<longleftrightarrow> g \<in> set (gate_tokens s) \<and> presented_token r = Some (gr_token g) \<and> gr_active g = 1"

lemma GetGateTokenByToken_row:
  assumes "GetGateTokenByToken D c tok s = Inr gt"
  obtains g where "g \<in> set (gate_tokens s)" "gr_token g = tok" "gt_ID gt = gr_id g" "gt_IsActive gt \<longleftrightarrow> gr_active g = 1"
proof -
  from query_row_InrD [OF assms [unfolded GetGateTokenByToken_def]] obtain g
    where "find_row (\<lambda>g. gr_token g = tok) (gate_tokens s) = Some g" "scanGateToken D g = Inr gt" by blast
  with that show ?thesis by (auto dest!: find_row_SomeD scanGateToken_InrD)
qed

lemma ServeHTTP_cases:
  assumes "ServeHTTP D K U x r G = (rep, out, G')"
  obtains (refused) msg where "rep = JSONError 401 msg" "out = None" "G' = G"
  | (unavailable) g gt e s m where "admits (gw_db G) r g" "gt_ID (gt :: GateToken) = gr_id g"
      "ResolveToken D K (ex_resolve x) (gt_ID gt) (gw_db G) (gw_mgr G) = (Inl e, s, m)"
      "rep = JSONError 502 ''no available upstream tokens''" "out = None" "G' = G\<lparr>gw_db := s, gw_mgr := m\<rparr>"
  | (served) g gt t s m where "admits (gw_db G) r g" "gt_ID gt = gr_id g"
      "ResolveToken D K (ex_resolve x) (gt_ID gt) (gw_db G) (gw_mgr G) = (Inr t, s, m)"
      "out = Some (outgoing U x t r)"
      "serve_response D x gt t (rq_path r) (ex_upstream x (outgoing U x t r)) (G\<lparr>gw_db := s, gw_mgr := m\<rparr>) = (rep, G')"
proof -
  let ?a = "Header_Get (rq_header r) ''Authorization''"
  let ?look = "GetGateTokenByToken D (ex_auth x) (TrimPrefix ?a bearer) (gw_db G)"
  show ?thesis
  proof (cases "HasPrefix ?a bearer \<and> (\<exists>gt. ?look = Inr gt \<and> gt_IsActive gt)")
    case False
    then show ?thesis
      using assms refused by (auto simp: ServeHTTP_def Let_def WriteJSONError_def split: sum.splits if_splits)
  next
    case True
    then obtain gt where look: "HasPrefix ?a bearer" "?look = Inr gt" "gt_IsActive gt" by blast
    obtain g where "g \<in> set (gate_tokens (gw_db G))" "gr_token g = TrimPrefix ?a bearer" "gt_ID gt = gr_id g"
      "gt_IsActive gt \<longleftrightarrow> gr_active g = 1"
      using GetGateTokenByToken_row [OF look(2)] .
    with look have adm: "admits (gw_db G) r g" "gt_ID gt = gr_id g"
      by (simp_all add: admits_def presented_token_def Let_def)
    obtain res s m where r: "ResolveToken D K (ex_resolve x) (gt_ID gt) (gw_db G) (gw_mgr G) = (res, s, m)"
      by (metis prod_cases3)
    show ?thesis
    proof (cases res)
      case (Inl e)
      have "rep = JSONError 502 ''no available upstream tokens''" "out = None" "G' = G\<lparr>gw_db := s, gw_mgr := m\<rparr>"
        using assms look r Inl by (auto simp: ServeHTTP_def Let_def WriteJSONError_def)
      with r Inl adm show ?thesis by (intro unavailable [of g gt e s m]) simp_all
    next
      case (Inr t)
      have "out = Some (outgoing U x t r)"
        "serve_response D x gt t (rq_path r) (ex_upstream x (outgoing U x t r)) (G\<lparr>gw_db := s, gw_mgr := m\<rparr>) = (rep, G')"
        using assms look r Inr by (auto simp: ServeHTTP_def Let_def split: prod.splits)
      with r Inr adm show ?thesis by (intro served [of g gt t s m]) simp_all
    qed
  qed
qed

lemma ServeHTTP_not_admitted:
  assumes "\<nexists>g. admits (gw_db G) r g"
  obtains msg where "ServeHTTP D K U x r G = (JSONError 401 msg, None, G)"
proof -
  obtain rep out G' where r: "ServeHTTP D K U x r G = (rep, out, G')" by (metis prod_cases3)
  then show ?thesis by (cases rule: ServeHTTP_cases) (use r assms that in auto)
qed

text \<open>A token that the database finds active gets through, as long as the pool is not empty.\<close>

lemma ServeHTTP_served:
  assumes "presented_token r = Some tok" "GetGateTokenByToken D (ex_auth x) tok (gw_db G) = Inr gt" "gt_IsActive gt"
    and "pool_sized (mg_pool (gw_mgr G))" "pl_tokens (mg_pool (gw_mgr G)) \<noteq> []"
  obtains t s m rep G' where "t \<in> set (pl_tokens (mg_pool (gw_mgr G)))"
    "ResolveToken D K (ex_resolve x) (gt_ID gt) (gw_db G) (gw_mgr G) = (Inr t, s, m)"
    "serve_response D x gt t (rq_path r) (ex_upstream x (outgoing U x t r)) (G\<lparr>gw_db := s, gw_mgr := m\<rparr>) = (rep, G')"
    "ServeHTTP D K U x r G = (rep, Some (outgoing U x t r), G')"
proof -
  from assms(1) have a: "HasPrefix (Header_Get (rq_header r) ''Authorization'') bearer"
    "TrimPrefix (Header_Get (rq_header r) ''Authorization'') bearer = tok"
    by (auto simp: presented_token_def Let_def split: if_splits)
  obtain res s m where res: "ResolveToken D K (ex_resolve x) (gt_ID gt) (gw_db G) (gw_mgr G) = (res, s, m)"
    by (metis prod_cases3)
  have "fst (ResolveToken D K (ex_resolve x) (gt_ID gt) (gw_db G) (gw_mgr G)) \<noteq> Inl e" for e
    using resolve_error_iff_empty [OF assms(4)] assms(5) by blast
  with res obtain t where t: "res = Inr t" by (cases res) auto
  obtain rep G' where
    "serve_response D x gt t (rq_path r) (ex_upstream x (outgoing U x t r)) (G\<lparr>gw_db := s, gw_mgr := m\<rparr>) = (rep, G')"
    by fastforce
  moreover from this have "ServeHTTP D K U x r G = (rep, Some (outgoing U x t r), G')"
    using assms(2,3) a res t by (simp add: ServeHTTP_def Let_def)
  moreover have "t \<in> set (pl_tokens (mg_pool (gw_mgr G)))"
    using ResolveToken_member [OF assms(4)] res t by (metis fst_conv)
  ultimately show ?thesis using res t that by blast
qed

section \<open>Access\<close>

text \<open>
  C1: Only an active gate token gets through.  Whatever the upstream, the client and the state, a
  request whose \<open>Authorization\<close> header does not present, after the word Bearer and a space, the
  exact token of an active row of the database is answered with 401, reaches no upstream and
  changes nothing.
\<close>
theorem proxy_requires_gate_token:
  "(\<exists>g. admits (gw_db G) r g) \<or> (\<exists>msg. ServeHTTP D K U x r G = (JSONError 401 msg, None, G))"
  by (metis ServeHTTP_not_admitted)

text \<open>
  C3: The credentials are swapped.  A request that reaches the upstream goes to the configured
  scheme and host with its method, path, query and body unchanged, and its \<open>Authorization\<close> values are exactly one:
  the word Bearer and the access token of a token of the pool that was usable when it was read.
  The client's own credentials never leave the gate in that header.  The only exception is a
  request whose \<open>Connection\<close> header names \<open>Authorization\<close>: the library then removes the header after
  the director has set it, and the upstream gets none at all.
\<close>
theorem proxy_swaps_credentials:
  assumes "ServeHTTP D K U x r G = (rep, Some out, G')" "keeps_authorization (ex_added x)"
    and "mgr_ok (gw_mgr G)" "pool_sized (mg_pool (gw_mgr G))"
  shows "rq_scheme out = up_scheme U \<and> rq_urlHost out = up_host U \<and> rq_host out = up_host U \<and>
    rq_method out = rq_method r \<and> rq_path out = rq_path r \<and> rq_escapedPath out = rq_escapedPath r \<and>
    rq_rawQuery out = rq_rawQuery r \<and> rq_body out = rq_body r \<and>
    (\<exists>t\<in>set (pl_tokens (mg_pool (gw_mgr G))). usable (mg_maxFailures (gw_mgr G)) t \<and>
       rq_header out ''Authorization'' =
         (if ''Authorization'' \<in> canonical_key ` set (connection_names (rq_header r)) then []
          else [''Bearer '' @ rt_AccessToken t]))"
  using assms(1)
proof (cases rule: ServeHTTP_cases)
  case (served g gt t s m)
  then have t: "t \<in> set (pl_tokens (mg_pool (gw_mgr G)))"
    using ResolveToken_member [OF assms(4), of D K "ex_resolve x" "gt_ID gt" "gw_db G" t] by simp
  with assms(3) have u: "usable (mg_maxFailures (gw_mgr G)) t"
    by (auto simp: mgr_ok_def pool_ok_def)
  have conn: "connection_names ((rq_header r)(''Authorization'' := v)) = connection_names (rq_header r)" for v
    by (simp add: connection_names_def)
  have out: "out = outgoing U x t r" using served by simp
  then have "rq_header out ''Authorization'' =
      (if ''Authorization'' \<in> canonical_key ` set (connection_names (rq_header r)) then []
       else [''Bearer '' @ rt_AccessToken t])"
    using assms(2)
    by (simp add: outgoing_def director_def Let_def keeps_authorization_def removeHop_Authorization
        Header_Set_def conn bearer_def)
  with t u have "\<exists>t\<in>set (pl_tokens (mg_pool (gw_mgr G))). usable (mg_maxFailures (gw_mgr G)) t \<and>
       rq_header out ''Authorization'' =
         (if ''Authorization'' \<in> canonical_key ` set (connection_names (rq_header r)) then []
          else [''Bearer '' @ rt_AccessToken t])" by blast
  then show ?thesis unfolding out by (simp add: outgoing_def director_def Let_def)
qed simp_all

section \<open>A sample exchange\<close>

definition sample_gateway :: "string items gateway" where
  "sample_gateway = \<lparr>gw_db = sample_db, gw_mgr = sample_manager, gw_ch = [], gw_dropped = 0\<rparr>"

definition sample_request :: http_request where
  "sample_request = \<lparr>rq_method = ''POST'', rq_scheme = [], rq_urlHost = [], rq_host = ''gate'',
     rq_path = ''/v1/messages'', rq_escapedPath = ''/v1/messages'', rq_rawQuery = [],
     rq_header = (\<lambda>_. [])(''Authorization'' := [''Bearer gate-g'']), rq_body = [([], Some EOF)]\<rparr>"

definition sample_url :: upstream_url where
  "sample_url = \<lparr>up_scheme = ''https'', up_host = ''api.anthropic.com''\<rparr>"

definition sample_exchange :: "string + http_response \<Rightarrow> exchange" where
  "sample_exchange answer =
     \<lparr>ex_auth = call_at 0, ex_resolve = call_at 0, ex_record = call_at 3, ex_upstream = (\<lambda>_. answer),
      ex_readError = ''unexpected EOF'', ex_client = 100, ex_added = (\<lambda>h. h(''User-Agent'' := [[]]))\<rparr>"

definition sample_response :: "int \<Rightarrow> string \<Rightarrow> reads \<Rightarrow> http_response" where
  "sample_response status ct rds =
     \<lparr>rs_status = status, rs_header = (\<lambda>_. [])(''Content-Type'' := [ct]), rs_body = Raw rds\<rparr>"

definition sample_after :: "string items gateway" where
  "sample_after = sample_gateway\<lparr>gw_db := put_sticky ''g'' ''b'' (Bound (UTC 600)) sample_db,
     gw_mgr := sample_manager\<lparr>mg_pool := sample_pool\<lparr>pl_counter := 2\<rparr>,
       mg_cache := (\<lambda>_. None)(''g'' := Some (''b'', 600, 600))\<rparr>\<rparr>"

definition sample_gt :: GateToken where
  "sample_gt = \<lparr>gt_ID = ''g'', gt_Token = ''gate-g'', gt_Name = ''g'', gt_IsActive = True,
     gt_TotalInputTokens = 0, gt_TotalOutputTokens = 0, gt_CreatedAt = UTC 0, gt_UpdatedAt = UTC 0\<rparr>"

lemma sample_served:
  "ServeHTTP text_driver item_cache sample_url (sample_exchange answer) sample_request sample_gateway =
     (case serve_response text_driver (sample_exchange answer) sample_gt (sample_token ''b'') ''/v1/messages'' answer sample_after of
        (rep, G') \<Rightarrow> (rep, Some (outgoing sample_url (sample_exchange answer) (sample_token ''b'') sample_request), G'))"
proof -
  have "Header_Get (rq_header sample_request) ''Authorization'' = ''Bearer '' @ ''gate-g''"
    by (simp add: Header_Get_def sample_request_def)
  moreover have "GetGateTokenByToken text_driver (call_at 0) ''gate-g'' sample_db = Inr sample_gt"
    by (simp add: GetGateTokenByToken_def query_row_def sample_db_def sample_gate_def scanGateToken_def sample_gt_def)
  ultimately show ?thesis
    using sample_resolve_steps(2)
    by (simp add: ServeHTTP_def Let_def bearer_def sample_exchange_def sample_gateway_def sample_after_def sample_gt_def
        sample_request_def del: append.simps)
qed

lemma sample_serves:
  obtains rep out G' where
    "ServeHTTP text_driver item_cache sample_url (sample_exchange answer) sample_request sample_gateway = (rep, Some out, G')"
    "serve_response text_driver (sample_exchange answer) sample_gt (sample_token ''b'') ''/v1/messages'' answer sample_after = (rep, G')"
  using sample_served [of answer] by (auto split: prod.splits)

theorem proxy_swaps_credentials_witness:
  "rq_header (the (fst (snd (ServeHTTP text_driver item_cache sample_url (sample_exchange (Inl ''refused''))
     sample_request sample_gateway)))) ''Authorization'' \<in> {[''Bearer a''], [''Bearer b'']}"
proof -
  let ?x = "sample_exchange (Inl ''refused'')"
  obtain rep out G' where r: "ServeHTTP text_driver item_cache sample_url ?x sample_request sample_gateway = (rep, Some out, G')"
    by (rule sample_serves)
  have "keeps_authorization (ex_added ?x)" by (simp add: keeps_authorization_def sample_exchange_def)
  moreover have "mgr_ok (gw_mgr sample_gateway)" "pool_sized (mg_pool (gw_mgr sample_gateway))"
    by (simp_all add: sample_gateway_def sample_manager_def NewManager_def mgr_ok_def pool_ok_def usable_def
        sample_pool_def sample_token_def pool_sized_def)
  ultimately obtain t where "t \<in> set (pl_tokens (mg_pool (gw_mgr sample_gateway)))"
    "rq_header out ''Authorization'' =
         (if ''Authorization'' \<in> canonical_key ` set (connection_names (rq_header sample_request)) then []
          else [''Bearer '' @ rt_AccessToken t])"
    using proxy_swaps_credentials [OF r] by blast
  moreover have "pl_tokens (mg_pool (gw_mgr sample_gateway)) = [sample_token ''a'', sample_token ''b'']"
    by (simp add: sample_gateway_def sample_manager_def NewManager_def sample_pool_def)
  moreover have "connection_names (rq_header sample_request) = []"
    by (simp add: sample_request_def connection_names_def)
  ultimately show ?thesis unfolding r by (auto simp: sample_token_def)
qed

section \<open>Failures\<close>

text \<open>A transport error, a 5xx answer, or a JSON answer that breaks off while it is read whole.\<close>

definition json_answer :: "http_response \<Rightarrow> bool" where
  "json_answer resp \<longleftrightarrow>
     (let ct = Header_Get (removeHopByHopHeaders (rs_header resp)) ''Content-Type'' in
      \<not> HasPrefix ct ''text/event-stream'' \<and> HasPrefix ct ''application/json'' \<and>
      200 \<le> rs_status resp \<and> rs_status resp < 300)"

definition stream_answer :: "http_response \<Rightarrow> bool" where
  "stream_answer resp \<longleftrightarrow>
     HasPrefix (Header_Get (removeHopByHopHeaders (rs_header resp)) ''Content-Type'') ''text/event-stream''"

definition upstream_failed :: "string + http_response \<Rightarrow> bool" where
  "upstream_failed answer \<longleftrightarrow>
     (case answer of
        Inl err \<Rightarrow> True
      | Inr resp \<Rightarrow> 500 \<le> rs_status resp \<or> (json_answer resp \<and> ReadAll (body_reads (rs_body resp)) = None))"

lemma serve_response_state:
  assumes "serve_response D x gt t path answer G = (rep, G')"
  shows "gw_db G' = (if upstream_failed answer
      then fst (snd (RecordFailure D (ex_record x) (rt_ID t) (gw_db G) (gw_mgr G))) else gw_db G)"
    "gw_mgr G' = (if upstream_failed answer
      then snd (snd (RecordFailure D (ex_record x) (rt_ID t) (gw_db G) (gw_mgr G))) else gw_mgr G)"
proof (atomize (full), cases answer)
  case (Inl err)
  with assms show "gw_db G' = (if upstream_failed answer
      then fst (snd (RecordFailure D (ex_record x) (rt_ID t) (gw_db G) (gw_mgr G))) else gw_db G) \<and>
    gw_mgr G' = (if upstream_failed answer
      then snd (snd (RecordFailure D (ex_record x) (rt_ID t) (gw_db G) (gw_mgr G))) else gw_mgr G)"
    by (auto simp: serve_response_def ErrorHandler_def upstream_failed_def)
next
  case (Inr resp0)
  let ?resp = "resp0\<lparr>rs_header := removeHopByHopHeaders (rs_header resp0)\<rparr>"
  obtain res G1 where m: "ModifyResponse D x gt t path ?resp (body_reads (rs_body resp0)) G = (res, G1)" by fastforce
  have G': "G' = (case res of Inl err \<Rightarrow> snd (ErrorHandler D x t err G1) | Inr resp1 \<Rightarrow> snd (copy_body x gt t path resp1 G1))"
    using assms m by (auto simp: serve_response_def Inr Let_def split: sum.splits prod.splits)
  show "gw_db G' = (if upstream_failed answer
      then fst (snd (RecordFailure D (ex_record x) (rt_ID t) (gw_db G) (gw_mgr G))) else gw_db G) \<and>
    gw_mgr G' = (if upstream_failed answer
      then snd (snd (RecordFailure D (ex_record x) (rt_ID t) (gw_db G) (gw_mgr G))) else gw_mgr G)"
    unfolding G' using m
    by (auto simp: ModifyResponse_def Let_def upstream_failed_def Inr json_answer_def ErrorHandler_def
        split: if_splits option.splits)
qed

text \<open>
  C8: Every upstream failure counts, and nothing else does.  When the failure record goes through,
  a request that reached the upstream adds one to the failure count of the token it was given
  exactly if the upstream failed: it could not be reached, it answered with a status of 500 or
  more, or a successful JSON answer broke off; the token is switched off exactly when its count
  then reaches the limit.  No other token is touched, and a request that did not reach the
  upstream touches none.
\<close>
theorem upstream_failures_counted:
  assumes "ServeHTTP D K U x r G = (rep, out, G')" "pool_sized (mg_pool (gw_mgr G))"
    and "driver_reads D" "no_fault (ex_record x)" "era (clock (ex_record x))"
    and "\<And>row. row \<in> set (real_tokens (gw_db G)) \<Longrightarrow> real_readable D row"
  shows "case out of
      None \<Rightarrow> real_tokens (gw_db G') = real_tokens (gw_db G)
    | Some req \<Rightarrow> \<exists>t\<in>set (pl_tokens (mg_pool (gw_mgr G))). \<forall>i row. find_real (gw_db G) i = Some row \<longrightarrow>
        (let failed = upstream_failed (ex_upstream x req) \<and> i = rt_ID t in
         \<exists>row'. find_real (gw_db G') i = Some row' \<and>
           rr_failures row' = rr_failures row + (if failed then 1 else 0) \<and>
           rr_active row' = (if failed \<and> mg_maxFailures (gw_mgr G) \<le> rr_failures row' then 0 else rr_active row))"
  using assms(1)
proof (cases rule: ServeHTTP_cases)
  case (refused msg)
  then show ?thesis by simp
next
  case (unavailable g gt e s m)
  then show ?thesis using ResolveToken_frame(1) [OF unavailable(3)] by simp
next
  case (served g gt t s m)
  let ?failed = "upstream_failed (ex_upstream x (outgoing U x t r))"
  have t: "t \<in> set (pl_tokens (mg_pool (gw_mgr G)))"
    using ResolveToken_member [OF assms(2), of D K "ex_resolve x" "gt_ID gt" "gw_db G" t] served(3) by simp
  have same: "find_real s i = find_real (gw_db G) i" for i
    using ResolveToken_frame(1) [OF served(3)] by (simp add: find_real_def)
  have mx: "mg_maxFailures m = mg_maxFailures (gw_mgr G)" by (rule ResolveToken_frame(7) [OF served(3)])
  obtain e s2 m2 where rf: "RecordFailure D (ex_record x) (rt_ID t) s m = (e, s2, m2)" by (metis prod_cases3)
  have db: "gw_db G' = (if ?failed then s2 else s)"
    using serve_response_state(1) [OF served(5)] rf by simp
  have row: "\<exists>row'. find_real (gw_db G') i = Some row' \<and>
      rr_failures row' = rr_failures row + (if ?failed \<and> i = rt_ID t then 1 else 0) \<and>
      rr_active row' = (if (?failed \<and> i = rt_ID t) \<and> mg_maxFailures (gw_mgr G) \<le> rr_failures row' then 0 else rr_active row)"
    if row: "find_real (gw_db G) i = Some row" for i row
  proof (cases "?failed \<and> i = rt_ID t")
    case True
    have "row \<in> set (real_tokens (gw_db G))" using row by (auto simp: find_real_def dest: find_row_SomeD)
    then have rd: "real_readable D row" by (rule assms(6))
    have fr: "find_real s (rt_ID t) = Some row" using row same True by simp
    from find_after_failure [OF assms(4,3,5) fr rd rf] obtain r' where "find_real s2 (rt_ID t) = Some r'"
      "rr_failures r' = rr_failures row + 1"
      "rr_active r' = (if mg_maxFailures m \<le> rr_failures row + 1 then 0 else rr_active row)" by blast
    with True db mx show ?thesis by auto
  next
    case False
    then have "find_real (gw_db G') i = Some row"
      using db same row RecordFailure_outcomes(4) [OF rf] by auto
    with False show ?thesis by auto
  qed
  show ?thesis
    unfolding served(4) option.case Let_def by (intro bexI [OF _ t] allI impI) (rule row)
qed

theorem upstream_failures_counted_witness:
  "let s = gw_db (snd (snd (ServeHTTP text_driver item_cache sample_url
     (sample_exchange (Inr (sample_response 529 ''application/json'' [([], Some EOF)]))) sample_request sample_gateway))) in
   \<exists>ra rb. find_real s ''a'' = Some ra \<and> find_real s ''b'' = Some rb \<and> rr_failures ra + rr_failures rb = 1"
proof -
  let ?x = "sample_exchange (Inr (sample_response 529 ''application/json'' [([], Some EOF)]))"
  obtain rep out G' where r: "ServeHTTP text_driver item_cache sample_url ?x sample_request sample_gateway = (rep, Some out, G')"
    by (rule sample_serves)
  have env: "no_fault (ex_record ?x)" "era (clock (ex_record ?x))" by (simp_all add: sample_exchange_def)
  have sized: "pool_sized (mg_pool (gw_mgr sample_gateway))"
    by (simp add: sample_gateway_def sample_manager_def NewManager_def sample_pool_def pool_sized_def)
  have rd: "real_readable text_driver row" if "row \<in> set (real_tokens (gw_db sample_gateway))" for row
    using that by (auto simp: sample_gateway_def sample_db_def sample_real_def real_readable_def readable_def)
  have failed: "upstream_failed (ex_upstream ?x out)"
    by (simp add: sample_exchange_def sample_response_def upstream_failed_def)
  have rows: "find_real (gw_db sample_gateway) ''a'' = Some (sample_real ''a'')"
    "find_real (gw_db sample_gateway) ''b'' = Some (sample_real ''b'')"
    by (simp_all add: sample_gateway_def find_real_def sample_db_def sample_real_def)
  have pool: "pl_tokens (mg_pool (gw_mgr sample_gateway)) = [sample_token ''a'', sample_token ''b'']"
    by (simp add: sample_gateway_def sample_manager_def NewManager_def sample_pool_def)
  obtain t where t: "t \<in> {sample_token ''a'', sample_token ''b''}"
    and count: "\<And>i row. find_real (gw_db sample_gateway) i = Some row \<Longrightarrow>
      \<exists>row'. find_real (gw_db G') i = Some row' \<and> rr_failures row' = rr_failures row + (if i = rt_ID t then 1 else 0)"
    using upstream_failures_counted [OF r sized text_driver_reads env rd] failed
    unfolding option.case pool Let_def by fastforce
  from t count [OF rows(1)] count [OF rows(2)] show ?thesis
    by (auto simp: r sample_token_def sample_real_def)
qed

section \<open>Answers and usage\<close>

text \<open>What the client and the usage channel are to get of an answer.\<close>

definition forwarded_reads :: "exchange \<Rightarrow> http_response \<Rightarrow> reads option" where
  "forwarded_reads x resp =
     (if json_answer resp
      then map_option (\<lambda>b. copy_reads (ex_client x) [(b, None), ([], Some EOF)]) (ReadAll (body_reads (rs_body resp)))
      else Some (copy_reads (ex_client x) (body_reads (rs_body resp))))"

definition reported_usage :: "exchange \<Rightarrow> http_response \<Rightarrow> UsageData option" where
  "reported_usage x resp =
     (if stream_answer resp then map_option stream_usage (until_eof (copy_reads (ex_client x) (body_reads (rs_body resp))))
      else if json_answer resp then map_option extractJSONUsage (ReadAll (body_reads (rs_body resp)))
      else None)"

definition usage_entry :: "string \<Rightarrow> string \<Rightarrow> UsageData \<Rightarrow> string \<Rightarrow> int \<Rightarrow> usageEntry" where
  "usage_entry g t u path status =
     \<lparr>ue_GateTokenID = g, ue_RealTokenID = t, ue_Usage = u, ue_RequestPath = path, ue_StatusCode = status\<rparr>"

lemma serve_response_answer:
  assumes "serve_response D x gt t path (Inr resp) G = (rep, G')"
  shows "rep = (case forwarded_reads x resp of
      None \<Rightarrow> JSONError 502 (''upstream error: '' @ ex_readError x)
    | Some outs \<Rightarrow> Forward (rs_status resp) (removeHopByHopHeaders (rs_header resp)) outs)"
    "(gw_ch G', gw_dropped G') = (case reported_usage x resp of
      None \<Rightarrow> (gw_ch G, gw_dropped G)
    | Some u \<Rightarrow> sendUsage (usage_entry (gt_ID gt) (rt_ID t) u path (rs_status resp)) (gw_ch G) (gw_dropped G))"
proof -
  let ?resp = "resp\<lparr>rs_header := removeHopByHopHeaders (rs_header resp)\<rparr>" and ?rds = "body_reads (rs_body resp)"
  obtain res G1 where m: "ModifyResponse D x gt t path ?resp ?rds G = (res, G1)" by fastforce
  have run: "(rep, G') = (case res of Inl err \<Rightarrow> ErrorHandler D x t err G1
      | Inr resp1 \<Rightarrow> (case copy_body x gt t path resp1 G1 of (outs, G2) \<Rightarrow> (Forward (rs_status resp1) (rs_header resp1) outs, G2)))"
    using assms m by (simp add: serve_response_def Let_def split: sum.splits)
  have send: "(gw_ch (send_usage gt t u path st H), gw_dropped (send_usage gt t u path st H)) =
      sendUsage (usage_entry (gt_ID gt) (rt_ID t) u path st) (gw_ch H) (gw_dropped H)" for u st and H :: "'a gateway"
    by (simp add: send_usage_def usage_entry_def split: prod.splits)
  have keep: "gw_ch (if 500 \<le> st then record_failure D x t H else H) = gw_ch H"
    "gw_dropped (if 500 \<le> st then record_failure D x t H else H) = gw_dropped H" for st and H :: "'a gateway"
    by simp_all
  have "rep = (case forwarded_reads x resp of
      None \<Rightarrow> JSONError 502 (''upstream error: '' @ ex_readError x)
    | Some outs \<Rightarrow> Forward (rs_status resp) (removeHopByHopHeaders (rs_header resp)) outs) \<and>
    (gw_ch G', gw_dropped G') = (case reported_usage x resp of
      None \<Rightarrow> (gw_ch G, gw_dropped G)
    | Some u \<Rightarrow> sendUsage (usage_entry (gt_ID gt) (rt_ID t) u path (rs_status resp)) (gw_ch G) (gw_dropped G))"
  proof (cases "stream_answer resp")
    case True
    then have nj: "\<not> json_answer resp" by (simp add: stream_answer_def json_answer_def Let_def)
    from True m have res: "res = Inr (?resp\<lparr>rs_body := Tapped newTappingReader ?rds\<rparr>)"
      "gw_ch G1 = gw_ch G" "gw_dropped G1 = gw_dropped G"
      by (auto simp: ModifyResponse_def stream_answer_def Let_def)
    obtain outs us t' where ra: "read_all newTappingReader (copy_reads (ex_client x) ?rds) = (outs, us, t')"
      by (metis prod_cases3)
    then have outs: "outs = copy_reads (ex_client x) ?rds"
      and us: "us = (case until_eof (copy_reads (ex_client x) ?rds) of None \<Rightarrow> [] | Some s \<Rightarrow> [stream_usage s])"
      using read_all_new [of "copy_reads (ex_client x) ?rds"] by simp_all
    show ?thesis
      using run res ra us nj True send
      by (simp add: copy_body_def outs forwarded_reads_def reported_usage_def split: option.splits)
  next
    case False
    show ?thesis
    proof (cases "json_answer resp")
      case True
      show ?thesis
      proof (cases "ReadAll ?rds")
        case None
        with True m False have "res = Inl (ex_readError x)" "G1 = G"
          by (auto simp: ModifyResponse_def stream_answer_def json_answer_def Let_def)
        with run None True False show ?thesis
          by (simp add: ErrorHandler_def WriteJSONError_def forwarded_reads_def reported_usage_def)
      next
        case (Some b)
        with True m False have "res = Inr (?resp\<lparr>rs_body := Raw [(b, None), ([], Some EOF)]\<rparr>)"
          "gw_ch G1 = gw_ch (send_usage gt t (extractJSONUsage b) path (rs_status resp) G)"
          "gw_dropped G1 = gw_dropped (send_usage gt t (extractJSONUsage b) path (rs_status resp) G)"
          by (auto simp: ModifyResponse_def stream_answer_def json_answer_def Let_def)
        with run Some True False send show ?thesis
          by (simp add: copy_body_def forwarded_reads_def reported_usage_def)
      qed
    next
      case nj: False
      with m False have "res = Inr (?resp\<lparr>rs_body := Raw ?rds\<rparr>)" "gw_ch G1 = gw_ch G" "gw_dropped G1 = gw_dropped G"
        by (auto simp: ModifyResponse_def stream_answer_def json_answer_def Let_def split: if_splits)
      with run nj False show ?thesis
        by (simp add: copy_body_def forwarded_reads_def reported_usage_def)
    qed
  qed
  then show "rep = (case forwarded_reads x resp of
      None \<Rightarrow> JSONError 502 (''upstream error: '' @ ex_readError x)
    | Some outs \<Rightarrow> Forward (rs_status resp) (removeHopByHopHeaders (rs_header resp)) outs)"
    "(gw_ch G', gw_dropped G') = (case reported_usage x resp of
      None \<Rightarrow> (gw_ch G, gw_dropped G)
    | Some u \<Rightarrow> sendUsage (usage_entry (gt_ID gt) (rt_ID t) u path (rs_status resp)) (gw_ch G) (gw_dropped G))"
    by blast+
qed

text \<open>
  C10: The client gets the upstream's answer.  Of an answer that arrives, the client sees the status,
  the header without its hop-by-hop lines, and exactly the reads of the body, byte for byte and cut
  as they came, up to the point where the client leaves; a successful JSON answer is read whole
  first and then delivered in one piece, and only if it breaks off is it replaced by a 502.
\<close>
theorem proxy_forwards_answer:
  assumes "ServeHTTP D K U x r G = (rep, Some out, G')" "ex_upstream x out = Inr resp"
  shows "rep = (case forwarded_reads x resp of
      None \<Rightarrow> JSONError 502 (''upstream error: '' @ ex_readError x)
    | Some outs \<Rightarrow> Forward (rs_status resp) (removeHopByHopHeaders (rs_header resp)) outs)"
  using assms(1)
proof (cases rule: ServeHTTP_cases)
  case (served g gt t s m)
  then show ?thesis using assms(2) serve_response_answer(1) by auto
qed simp_all

theorem proxy_forwards_answer_witness:
  "\<exists>h. fst (ServeHTTP text_driver item_cache sample_url
     (sample_exchange (Inr (sample_response 200 ''text/event-stream'' [(''da'', None), (''ta'', Some EOF)])))
     sample_request sample_gateway) = Forward 200 h [(''da'', None), (''ta'', Some EOF)]"
proof -
  let ?resp = "sample_response 200 ''text/event-stream'' [(''da'', None), (''ta'', Some EOF)]"
  obtain rep out G' where r: "ServeHTTP text_driver item_cache sample_url (sample_exchange (Inr ?resp)) sample_request sample_gateway
      = (rep, Some out, G')"
    by (rule sample_serves)
  have up: "ex_upstream (sample_exchange (Inr ?resp)) out = Inr ?resp" by (simp add: sample_exchange_def)
  have "''Content-Type'' \<notin> canonical_key ` set hopHeaders" by code_simp
  then have "removeHopByHopHeaders (rs_header ?resp) ''Content-Type'' = [''text/event-stream'']"
    by (simp add: removeHopByHopHeaders_def fold_Header_Del connection_names_def sample_response_def)
  then have "\<not> json_answer ?resp"
    by (simp add: json_answer_def Header_Get_def Let_def)
  then have "forwarded_reads (sample_exchange (Inr ?resp)) ?resp = Some [(''da'', None), (''ta'', Some EOF)]"
    by (simp add: forwarded_reads_def sample_exchange_def sample_response_def body_reads_def numeral_eq_Suc)
  moreover have "rs_status ?resp = 200" by (simp add: sample_response_def)
  ultimately show ?thesis using proxy_forwards_answer [OF r up] unfolding r by simp
qed

text \<open>
  C9: Usage is accounted to the right tokens, once.  An answer adds at most one entry to the usage
  channel: an event stream that the client reads to its end adds the usage of exactly its bytes, a
  successful JSON answer that arrives whole adds the usage of its body, and every other answer adds
  none.  The entry names the gate token that presented itself, the pool token the request was sent
  with, the path of the request and the status of the answer; a full channel drops and counts it.
\<close>
theorem proxy_accounts_usage:
  assumes "ServeHTTP D K U x r G = (rep, Some out, G')" "ex_upstream x out = Inr resp"
    and "pool_sized (mg_pool (gw_mgr G))"
  shows "\<exists>g t. admits (gw_db G) r g \<and> t \<in> set (pl_tokens (mg_pool (gw_mgr G))) \<and> out = outgoing U x t r \<and>
    (gw_ch G', gw_dropped G') = (case reported_usage x resp of
      None \<Rightarrow> (gw_ch G, gw_dropped G)
    | Some u \<Rightarrow> sendUsage (usage_entry (gr_id g) (rt_ID t) u (rq_path r) (rs_status resp)) (gw_ch G) (gw_dropped G))"
  using assms(1)
proof (cases rule: ServeHTTP_cases)
  case (served g gt t s m)
  have t: "t \<in> set (pl_tokens (mg_pool (gw_mgr G)))"
    using ResolveToken_member [OF assms(3), of D K "ex_resolve x" "gt_ID gt" "gw_db G" t] served(3) by simp
  have "serve_response D x gt t (rq_path r) (Inr resp) (G\<lparr>gw_db := s, gw_mgr := m\<rparr>) = (rep, G')"
    using served(4,5) assms(2) by simp
  from serve_response_answer(2) [OF this] served t show ?thesis
    by (intro exI [of _ g] exI [of _ t]) (simp cong: option.case_cong)
qed simp_all

theorem proxy_accounts_usage_witness:
  "\<exists>e. gw_ch (snd (snd (ServeHTTP text_driver item_cache sample_url
     (sample_exchange (Inr (sample_response 200 ''text/event-stream'' [(''data: x'', None), ([], Some EOF)])))
     sample_request sample_gateway))) = [e] \<and> ue_Usage e = stream_usage ''data: x''"
proof -
  let ?resp = "sample_response 200 ''text/event-stream'' [(''data: x'', None), ([], Some EOF)]"
  obtain rep out G' where r: "ServeHTTP text_driver item_cache sample_url (sample_exchange (Inr ?resp)) sample_request sample_gateway
      = (rep, Some out, G')"
    by (rule sample_serves)
  have up: "ex_upstream (sample_exchange (Inr ?resp)) out = Inr ?resp" by (simp add: sample_exchange_def)
  have sized: "pool_sized (mg_pool (gw_mgr sample_gateway))"
    by (simp add: sample_gateway_def sample_manager_def NewManager_def sample_pool_def pool_sized_def)
  have "''Content-Type'' \<notin> canonical_key ` set hopHeaders" by code_simp
  then have "removeHopByHopHeaders (rs_header ?resp) ''Content-Type'' = [''text/event-stream'']"
    by (simp add: removeHopByHopHeaders_def fold_Header_Del connection_names_def sample_response_def)
  then have "stream_answer ?resp" by (simp add: stream_answer_def Header_Get_def)
  then have "reported_usage (sample_exchange (Inr ?resp)) ?resp = Some (stream_usage ''data: x'')"
    by (simp add: reported_usage_def sample_exchange_def sample_response_def body_reads_def numeral_eq_Suc)
  moreover have "gw_ch sample_gateway = []" by (simp add: sample_gateway_def)
  ultimately show ?thesis
    using proxy_accounts_usage [OF r up sized] unfolding r
    by (auto simp: sendUsage_def usageChannelSize_def usage_entry_def)
qed

end
