(* ===== verification/Strconv.thy ===== *)
theory Strconv
  imports Json_Print
begin

text \<open>
  What the program uses of Go's \<open>strconv\<close> and of \<open>time.ParseDuration\<close>, and the strings they read
  back.
\<close>

section \<open>Atoi\<close>

definition split_sign :: "string \<Rightarrow> bool \<times> string" where
  "split_sign s =
     (case s of
        [] \<Rightarrow> (False, [])
      | c # t \<Rightarrow> if c = CHR ''-'' then (True, t) else if c = CHR ''+'' then (False, t) else (False, s))"

definition Atoi :: "string \<Rightarrow> int option" where
  "Atoi s =
     (case split_sign s of (neg, ds) \<Rightarrow>
        let n = (if neg then - digits_value ds else digits_value ds) in
        if ds \<noteq> [] \<and> list_all is_digit ds \<and> fits64 n then Some n else None)"

lemma Atoi_fits: "Atoi s = Some n \<Longrightarrow> fits64 n"
  by (auto simp: Atoi_def Let_def split: prod.splits if_splits)

lemma split_sign_fmt:
  "split_sign (fmt_d n) = (n < 0, nat_digits (nat \<bar>n\<bar>))"
proof -
  obtain c t where ct: "nat_digits (nat n) = c # t" "is_digit c" using nat_digits_head by blast
  then have "c \<noteq> CHR ''-''" "c \<noteq> CHR ''+''" by (auto simp: is_digit_def)
  with ct show ?thesis by (auto simp: split_sign_def fmt_d_def)
qed

lemma Atoi_fmt: "Atoi (fmt_d n) = (if fits64 n then Some n else None)"
  using nat_digits_value [of "nat \<bar>n\<bar>"] nat_digits_digits [of "nat \<bar>n\<bar>"]
  by (auto simp: Atoi_def split_sign_fmt Let_def)

section \<open>Durations\<close>

text \<open>The units of \<open>time.ParseDuration\<close>, in nanoseconds; micro is written in three ways.\<close>

definition unitMap :: "(string \<times> nat) list" where
  "unitMap =
     [(''ns'', 1), (''us'', 1000), ([CHR 0xC2, CHR 0xB5, CHR ''s''], 1000), ([CHR 0xCE, CHR 0xBC, CHR ''s''], 1000),
      (''ms'', 1000000), (''s'', 1000000000), (''m'', 60000000000), (''h'', 3600000000000)]"

text \<open>\<open>leadingInt\<close>: the digits at the front, \<open>None\<close> when their value exceeds \<open>1<<63\<close>.\<close>

definition leadingInt :: "bytes \<Rightarrow> (nat \<times> bytes) option" where
  "leadingInt s =
     (let ds = takeWhile is_digit s; v = nat (digits_value ds) in
      if v > 2 ^ 63 then None else Some (v, drop (length ds) s))"

text \<open>
  \<open>leadingFraction\<close>: the value of the fraction's digits and how many of them count; digits that
  would overflow are skipped.
\<close>

fun fraction_digits :: "nat \<Rightarrow> nat \<Rightarrow> bool \<Rightarrow> string \<Rightarrow> nat \<times> nat" where
  "fraction_digits x k over [] = (x, k)"
| "fraction_digits x k over (c # ds) =
     (if over \<or> x > (2 ^ 63 - 1) div 10 then fraction_digits x k True ds
      else let y = x * 10 + nat (digit_value c) in
        if y > 2 ^ 63 then fraction_digits x k True ds else fraction_digits y (k + 1) False ds)"

definition leadingFraction :: "bytes \<Rightarrow> nat \<times> nat \<times> bytes" where
  "leadingFraction s =
     (let ds = takeWhile is_digit s in
      case fraction_digits 0 0 False ds of (x, k) \<Rightarrow> (x, k, drop (length ds) s))"

text \<open>
  One number with its unit: its nanoseconds and the rest.  \<open>flt f k unit\<close> is the \<open>float64\<close> product
  \<open>uint64(float64(f) * (float64(unit) / 10^k))\<close>, a parameter.
\<close>

definition duration_part :: "(nat \<Rightarrow> nat \<Rightarrow> nat \<Rightarrow> nat) \<Rightarrow> bytes \<Rightarrow> (nat \<times> bytes) option" where
  "duration_part flt s =
     (case s of
        [] \<Rightarrow> None
      | c # _ \<Rightarrow>
          if \<not> (c = CHR ''.'' \<or> is_digit c) then None
          else case leadingInt s of
            None \<Rightarrow> None
          | Some (v, s1) \<Rightarrow>
              (let pre = (length s1 \<noteq> length s);
                   (f, k, s2) = (if HasPrefix s1 ''.'' then leadingFraction (tl s1) else (0, 0, s1));
                   post = (HasPrefix s1 ''.'' \<and> length s2 \<noteq> length (tl s1));
                   u = takeWhile (\<lambda>c. c \<noteq> CHR ''.'' \<and> \<not> is_digit c) s2;
                   s3 = drop (length u) s2 in
               if \<not> pre \<and> \<not> post then None
               else if u = [] then None
               else case map_of unitMap u of
                 None \<Rightarrow> None
               | Some unit \<Rightarrow>
                   if v > 2 ^ 63 div unit then None
                   else let w = v * unit + (if f > 0 then flt f k unit else 0) in
                     if w > 2 ^ 63 then None else Some (w, s3)))"

lemma leadingInt_length: "leadingInt s = Some (v, r) \<Longrightarrow> length r \<le> length s"
  by (auto simp: leadingInt_def Let_def split: if_splits)

lemma leadingFraction_length: "leadingFraction s = (x, k, r) \<Longrightarrow> length r \<le> length s"
  by (auto simp: leadingFraction_def Let_def split: prod.splits)

lemma duration_part_bound: "duration_part flt s = Some (w, r) \<Longrightarrow> w \<le> 2 ^ 63"
  by (auto simp: duration_part_def Let_def split: list.splits if_splits option.splits prod.splits)

lemma drop_takeWhile_less: "takeWhile P s \<noteq> [] \<Longrightarrow> length (drop (length (takeWhile P s)) s) < length s"
  by (cases s) auto

lemma duration_part_length:
  assumes "duration_part flt s = Some (w, r)"
  shows "length r < length s"
proof -
  obtain v s1 where li: "leadingInt s = Some (v, s1)"
    using assms by (auto simp: duration_part_def split: list.splits if_splits option.splits)
  obtain f k s2 where fr: "(if HasPrefix s1 ''.'' then leadingFraction (tl s1) else (0, 0, s1)) = (f, k, s2)"
    by (metis prod_cases3)
  let ?u = "takeWhile (\<lambda>c. c \<noteq> CHR ''.'' \<and> \<not> is_digit c) s2"
  have r: "?u \<noteq> []" "r = drop (length ?u) s2"
    using assms li fr
    by (auto simp: duration_part_def Let_def split: list.splits if_splits option.splits)
  have "length s2 \<le> length (tl s1) \<or> s2 = s1"
    using fr by (auto dest: leadingFraction_length split: if_splits)
  then have "length s2 \<le> length s1" by auto
  with leadingInt_length [OF li] drop_takeWhile_less [OF r(1)] show ?thesis
    unfolding r(2) by linarith
qed

function duration_loop :: "(nat \<Rightarrow> nat \<Rightarrow> nat \<Rightarrow> nat) \<Rightarrow> nat \<Rightarrow> bytes \<Rightarrow> nat option" where
  "duration_loop flt d s =
     (if s = [] then Some d
      else case duration_part flt s of
        None \<Rightarrow> None
      | Some (w, r) \<Rightarrow>
          let d' = (d + w) mod 2 ^ 64 in if d' > 2 ^ 63 then None else duration_loop flt d' r)"
  by pat_completeness auto
termination
  by (relation "measure (\<lambda>(flt, d, s). length s)") (auto dest: duration_part_length)

declare duration_loop.simps [simp del]

definition ParseDuration :: "(nat \<Rightarrow> nat \<Rightarrow> nat \<Rightarrow> nat) \<Rightarrow> string \<Rightarrow> int option" where
  "ParseDuration flt s =
     (case split_sign s of (neg, t) \<Rightarrow>
        if t = ''0'' then Some 0
        else if t = [] then None
        else case duration_loop flt 0 t of
          None \<Rightarrow> None
        | Some d \<Rightarrow>
            if neg then Some (- int d) else if d > 2 ^ 63 - 1 then None else Some (int d))"

lemma duration_loop_bound: "duration_loop flt d s = Some e \<Longrightarrow> d \<le> 2 ^ 63 \<Longrightarrow> e \<le> 2 ^ 63"
proof (induction flt d s rule: duration_loop.induct)
  case (1 flt d s)
  show ?case
  proof (cases "s = []")
    case True
    with 1 show ?thesis by (simp add: duration_loop.simps [of flt d "[]"])
  next
    case False
    with "1.prems" obtain w r where p: "duration_part flt s = Some (w, r)"
      by (auto simp: duration_loop.simps [of flt d s] split: option.splits)
    with False "1.prems"(1) have "\<not> (d + w) mod 2 ^ 64 > 2 ^ 63" "duration_loop flt ((d + w) mod 2 ^ 64) r = Some e"
      by (auto simp: duration_loop.simps [of flt d s] Let_def split: if_splits)
    with "1.IH" [OF False p] show ?thesis by (simp add: Let_def)
  qed
qed

lemma ParseDuration_fits: "ParseDuration flt s = Some n \<Longrightarrow> fits64 n"
  by (auto simp: ParseDuration_def fits64_def int64_min_def int64_max_def split: prod.splits if_splits option.splits
      dest!: duration_loop_bound)

text \<open>A whole number of one unit is read back exactly while it fits.\<close>

lemma takeWhile_nat_digits:
  "(\<And>c. c \<in> set u \<Longrightarrow> \<not> is_digit c) \<Longrightarrow> u \<noteq> [] \<Longrightarrow> takeWhile is_digit (nat_digits n @ u) = nat_digits n"
  using nat_digits_digits [of n] by (cases u) (simp_all add: list_all_iff takeWhile_append2)

lemma duration_part_unit:
  assumes "(u, unit) \<in> set unitMap" "n * unit \<le> 2 ^ 63"
  shows "duration_part flt (nat_digits n @ u) = Some (n * unit, [])"
proof -
  have u: "u \<noteq> []" "\<not> HasPrefix u ''.''" "map_of unitMap u = Some unit" "0 < unit"
    "\<And>c. c \<in> set u \<Longrightarrow> \<not> is_digit c" "CHR ''.'' \<notin> set u"
    using assms(1) by (auto simp: unitMap_def is_digit_def)
  obtain c t where ct: "nat_digits n = c # t" "is_digit c" using nat_digits_head by blast
  have "n * 1 \<le> n * unit" using u(4) by (intro mult_le_mono2) simp
  from le_trans [OF this assms(2)] have "n \<le> 2 ^ 63" by simp
  then have li: "leadingInt (nat_digits n @ u) = Some (n, u)"
    using takeWhile_nat_digits [OF u(5,1)] nat_digits_value [of n] by (simp add: leadingInt_def Let_def)
  have un: "takeWhile (\<lambda>c. c \<noteq> CHR ''.'' \<and> \<not> is_digit c) u = u"
    using u(5,6) by (intro takeWhile_eq_all_conv [THEN iffD2]) auto
  have "n \<le> 2 ^ 63 div unit" using assms(2) u(4) by (simp add: less_eq_div_iff_mult_less_eq)
  then show ?thesis
    using ct li un u assms(2)
    by (simp add: duration_part_def Let_def del: takeWhile_eq_all_conv)
qed

lemma ParseDuration_unit:
  assumes "(u, unit) \<in> set unitMap" "n * unit < 2 ^ 63"
  shows "ParseDuration flt (nat_digits n @ u) = Some (int (n * unit))"
proof -
  obtain c t where ct: "nat_digits n = c # t" "is_digit c" using nat_digits_head by blast
  then have "c \<noteq> CHR ''-''" "c \<noteq> CHR ''+''" by (auto simp: is_digit_def)
  then have sp: "split_sign (nat_digits n @ u) = (False, nat_digits n @ u)" by (simp add: split_sign_def ct)
  have u: "u \<noteq> []" "\<And>c. c \<in> set u \<Longrightarrow> c \<noteq> CHR ''0''" using assms(1) by (auto simp: unitMap_def)
  have "last (nat_digits n @ u) = last u" using u(1) by simp
  moreover have "last u \<noteq> CHR ''0''" using u(2) [OF last_in_set [OF u(1)]] .
  ultimately have "last (nat_digits n @ u) \<noteq> last ''0''" by simp
  then have nz: "nat_digits n @ u \<noteq> ''0''" by (rule contrapos_nn) (erule arg_cong)
  have ne: "nat_digits n @ u \<noteq> []" using u(1) by simp
  have "duration_part flt (nat_digits n @ u) = Some (n * unit, [])"
    by (rule duration_part_unit) (use assms in simp_all)
  then have "duration_loop flt 0 (nat_digits n @ u) = Some (n * unit)"
    using assms(2) u(1)
    by (simp add: duration_loop.simps [of flt 0 "nat_digits n @ u"] duration_loop.simps [of flt "n * unit" "[]"])
  then show ?thesis
    using sp nz ne assms(2) by (simp add: ParseDuration_def)
qed

end
