(* ===== verification/Url.thy ===== *)
theory Url
  imports Http Strconv
begin

text \<open>
  What the program uses of \<open>net/url\<close>: parsing and printing URLs, percent encoding and query strings.
  The parsing of an authority is a parameter, as what it accepts depends on the version of Go.
\<close>

section \<open>Percent encoding\<close>

text \<open>
  \<open>unescape\<close>: with \<open>q\<close> it is the one of a query component, where a plus is a blank; \<open>None\<close> is an
  \<open>EscapeError\<close>.
\<close>

fun percent_decode :: "bool \<Rightarrow> string \<Rightarrow> string option" where
  "percent_decode q [] = Some []"
| "percent_decode q (c # s) =
     (if c = CHR ''%'' then
        (case s of
           a # b # t \<Rightarrow>
             (case (hex_value a, hex_value b) of
                (Some x, Some y) \<Rightarrow> map_option (\<lambda>r. char_of (16 * x + y) # r) (percent_decode q t)
              | _ \<Rightarrow> None)
         | _ \<Rightarrow> None)
      else map_option (\<lambda>r. (if q \<and> c = CHR ''+'' then CHR '' '' else c) # r) (percent_decode q s))"

definition PathUnescape :: "string \<Rightarrow> string option" where
  "PathUnescape s = percent_decode False s"

definition QueryUnescape :: "string \<Rightarrow> string option" where
  "QueryUnescape s = percent_decode True s"

definition upper_hex :: string where
  "upper_hex = ''0123456789ABCDEF''"

definition unreserved :: "char \<Rightarrow> bool" where
  "unreserved c \<longleftrightarrow> (let n = of_char c :: nat in
     (48 \<le> n \<and> n \<le> 57) \<or> (65 \<le> n \<and> n \<le> 90) \<or> (97 \<le> n \<and> n \<le> 122) \<or>
     c = CHR ''-'' \<or> c = CHR ''_'' \<or> c = CHR ''.'' \<or> c = CHR ''~'')"

definition escape_char :: "char \<Rightarrow> string" where
  "escape_char c =
     (if unreserved c then [c]
      else if c = CHR '' '' then ''+''
      else [CHR ''%'', upper_hex ! (of_char c div 16), upper_hex ! (of_char c mod 16)])"

definition QueryEscape :: "string \<Rightarrow> string" where
  "QueryEscape s = concat (map escape_char s)"

section \<open>Query strings\<close>

text \<open>
  \<open>url.Values\<close> as the list of its pairs in the order they were added; \<open>Get\<close> is the first value of a
  key.
\<close>

type_synonym url_values = "(string \<times> string) list"

definition Values_Get :: "url_values \<Rightarrow> string \<Rightarrow> string" where
  "Values_Get vs k = (case map_of vs k of None \<Rightarrow> [] | Some v \<Rightarrow> v)"

definition Values_Set :: "url_values \<Rightarrow> string \<Rightarrow> string \<Rightarrow> url_values" where
  "Values_Set vs k v = filter (\<lambda>p. fst p \<noteq> k) vs @ [(k, v)]"

fun str_le :: "string \<Rightarrow> string \<Rightarrow> bool" where
  "str_le [] t = True"
| "str_le (c # s) [] = False"
| "str_le (c # s) (d # t) = ((of_char c :: nat) < of_char d \<or> c = d \<and> str_le s t)"

definition pair_text :: "string \<times> string \<Rightarrow> string" where
  "pair_text p = QueryEscape (fst p) @ CHR ''='' # QueryEscape (snd p)"

fun join_amp :: "string list \<Rightarrow> string" where
  "join_amp [] = []"
| "join_amp [s] = s"
| "join_amp (s # t # ss) = s @ CHR ''&'' # join_amp (t # ss)"

definition Values_Encode :: "url_values \<Rightarrow> string" where
  "Values_Encode vs = join_amp (map pair_text (order_by str_le fst vs))"

fun split_on :: "char \<Rightarrow> string \<Rightarrow> string list" where
  "split_on x [] = [[]]"
| "split_on x (c # s) =
     (if c = x then [] # split_on x s
      else case split_on x s of [] \<Rightarrow> [[c]] | w # ws \<Rightarrow> (c # w) # ws)"

definition Cut :: "char \<Rightarrow> string \<Rightarrow> string \<times> string" where
  "Cut x s = (takeWhile (\<lambda>c. c \<noteq> x) s, tl (dropWhile (\<lambda>c. c \<noteq> x) s))"

text \<open>A segment with a semicolon or a bad escape is left out, as is an empty one.\<close>

definition parse_pair :: "string \<Rightarrow> (string \<times> string) option" where
  "parse_pair seg =
     (if seg = [] \<or> CHR '';'' \<in> set seg then None
      else case Cut (CHR ''='') seg of
        (k, v) \<Rightarrow>
          (case (QueryUnescape k, QueryUnescape v) of (Some k', Some v') \<Rightarrow> Some (k', v') | _ \<Rightarrow> None))"

definition ParseQuery :: "string \<Rightarrow> url_values" where
  "ParseQuery q = List.map_filter parse_pair (split_on (CHR ''&'') q)"

section \<open>URLs\<close>

record url =
  url_Scheme :: string
  url_Opaque :: string
  url_Host :: string
  url_Path :: string
  url_RawQuery :: string

text \<open>
  \<open>getScheme\<close>: \<open>None\<close> is the error "missing protocol scheme"; without a scheme the rest is the whole
  text.
\<close>

fun scheme_at :: "nat \<Rightarrow> string \<Rightarrow> string \<Rightarrow> string \<Rightarrow> (string \<times> string) option" where
  "scheme_at i all seen [] = Some ([], all)"
| "scheme_at i all seen (c # s) =
     (let n = of_char c :: nat in
      if (97 \<le> n \<and> n \<le> 122) \<or> (65 \<le> n \<and> n \<le> 90) then scheme_at (i + 1) all (seen @ [c]) s
      else if is_digit c \<or> c = CHR ''+'' \<or> c = CHR ''-'' \<or> c = CHR ''.''
      then (if i = 0 then Some ([], all) else scheme_at (i + 1) all (seen @ [c]) s)
      else if c = CHR '':'' then (if i = 0 then None else Some (seen, s))
      else Some ([], all))"

definition getScheme :: "string \<Rightarrow> (string \<times> string) option" where
  "getScheme s = scheme_at 0 s [] s"

definition ctl_byte :: "char \<Rightarrow> bool" where
  "ctl_byte c \<longleftrightarrow> (of_char c :: nat) < 32 \<or> c = CHR 0x7F"

text \<open>
  \<open>url.Parse\<close>; \<open>authority\<close> gives the host of an authority the library accepts.  A fragment that does
  not decode is an error too.
\<close>

definition parse_hierarchical :: "(string \<Rightarrow> string option) \<Rightarrow> string \<Rightarrow> string \<Rightarrow> string \<Rightarrow> url option" where
  "parse_hierarchical authority scheme rest query =
     (let (host, path) =
        (if (scheme \<noteq> [] \<or> \<not> HasPrefix rest ''///'') \<and> HasPrefix rest ''//''
         then (authority (takeWhile (\<lambda>c. c \<noteq> CHR ''/'') (drop 2 rest)),
               dropWhile (\<lambda>c. c \<noteq> CHR ''/'') (drop 2 rest))
         else (Some [], rest)) in
      case (host, PathUnescape path) of
        (Some h, Some p) \<Rightarrow>
          Some \<lparr>url_Scheme = scheme, url_Opaque = [], url_Host = h, url_Path = p, url_RawQuery = query\<rparr>
      | _ \<Rightarrow> None)"

definition parse_no_fragment :: "(string \<Rightarrow> string option) \<Rightarrow> string \<Rightarrow> url option" where
  "parse_no_fragment authority s =
     (if list_ex ctl_byte s then None
      else if s = ''*''
      then Some \<lparr>url_Scheme = [], url_Opaque = [], url_Host = [], url_Path = ''*'', url_RawQuery = []\<rparr>
      else case getScheme s of
        None \<Rightarrow> None
      | Some (sch, rest0) \<Rightarrow>
          (let scheme = map lower_char sch; (rest, query) = Cut (CHR ''?'') rest0 in
           if \<not> HasPrefix rest ''/'' \<and> scheme \<noteq> []
           then Some \<lparr>url_Scheme = scheme, url_Opaque = rest, url_Host = [], url_Path = [], url_RawQuery = query\<rparr>
           else if \<not> HasPrefix rest ''/'' \<and> CHR '':'' \<in> set (fst (Cut (CHR ''/'') rest)) then None
           else parse_hierarchical authority scheme rest query))"

definition url_Parse :: "(string \<Rightarrow> string option) \<Rightarrow> string \<Rightarrow> url option" where
  "url_Parse authority raw =
     (case Cut (CHR ''#'') raw of
        (u, frag) \<Rightarrow>
          (case parse_no_fragment authority u of
             None \<Rightarrow> None
           | Some v \<Rightarrow> if PathUnescape frag = None then None else Some v))"

text \<open>\<open>String\<close> of a URL that has only a path, of characters that need no escape, and a query.\<close>

definition url_String :: "url \<Rightarrow> string" where
  "url_String u = url_Path u @ (if url_RawQuery u = [] then [] else CHR ''?'' # url_RawQuery u)"

definition url_Query :: "url \<Rightarrow> url_values" where
  "url_Query u = ParseQuery (url_RawQuery u)"

section \<open>Round trips\<close>

lemma char_of_parts: "char_of (16 * (of_char c div 16) + of_char c mod 16 :: nat) = c"
  by (simp only: mult_div_mod_eq char_of_char)

lemma upper_hex_value: "i < 16 \<Longrightarrow> hex_value (upper_hex ! i) = Some i"
proof -
  have "list_all (\<lambda>i. hex_value (upper_hex ! i) = Some i) [0..<16]" by code_simp
  then show "i < 16 \<Longrightarrow> hex_value (upper_hex ! i) = Some i" by (simp add: list_all_iff)
qed

lemma nibbles: "(of_char c :: nat) div 16 < 16" "(of_char c :: nat) mod 16 < 16"
  using of_char_less_256 [of c] by linarith simp

lemma decode_escape_char:
  "percent_decode True (escape_char c @ t) = map_option ((#) c) (percent_decode True t)"
proof -
  have "unreserved c \<Longrightarrow> c \<noteq> CHR ''%'' \<and> c \<noteq> CHR ''+''"
    by (auto simp: unreserved_def Let_def)
  then show ?thesis
    using upper_hex_value [OF nibbles(1) [of c]] upper_hex_value [OF nibbles(2) [of c]]
    by (auto simp: escape_char_def char_of_parts)
qed

lemma QueryUnescape_QueryEscape_append:
  "percent_decode True (QueryEscape s @ t) = map_option ((@) s) (percent_decode True t)"
  by (induction s) (simp_all add: QueryEscape_def decode_escape_char option.map_comp comp_def option.map_ident)

lemma QueryUnescape_QueryEscape [simp]: "QueryUnescape (QueryEscape s) = Some s"
  using QueryUnescape_QueryEscape_append [of s "[]"] by (simp add: QueryUnescape_def)

text \<open>The characters of an escaped text, none of which separates anything in a URL.\<close>

definition plain_char :: "char \<Rightarrow> bool" where
  "plain_char c \<longleftrightarrow> unreserved c \<or> c = CHR ''+'' \<or> c = CHR ''%''"

lemma upper_hex_unreserved: "i < 16 \<Longrightarrow> unreserved (upper_hex ! i)"
proof -
  have "list_all (\<lambda>i. unreserved (upper_hex ! i)) [0..<16]" by code_simp
  then show "i < 16 \<Longrightarrow> unreserved (upper_hex ! i)" by (simp add: list_all_iff)
qed

lemma QueryEscape_plain: "c \<in> set (QueryEscape s) \<Longrightarrow> plain_char c"
  using upper_hex_unreserved [OF nibbles(1)] upper_hex_unreserved [OF nibbles(2)]
  by (auto simp: QueryEscape_def escape_char_def plain_char_def split: if_splits)

lemma not_plain [simp]:
  "\<not> plain_char CHR ''&''" "\<not> plain_char CHR ''=''" "\<not> plain_char CHR '';''" "\<not> plain_char CHR ''#''"
  "\<not> plain_char CHR ''?''"
  by code_simp+

lemma plain_not_ctl: "plain_char c \<Longrightarrow> \<not> ctl_byte c"
  by (auto simp: plain_char_def unreserved_def ctl_byte_def Let_def)

lemma QueryEscape_avoids: "\<not> plain_char x \<Longrightarrow> x \<notin> set (QueryEscape s)"
  using QueryEscape_plain by blast

lemma Cut_absent: "x \<notin> set s \<Longrightarrow> Cut x s = (s, [])"
  by (induction s) (auto simp: Cut_def)

lemma Cut_append: "x \<notin> set s \<Longrightarrow> Cut x (s @ x # t) = (s, t)"
  by (induction s) (auto simp: Cut_def)

lemma split_on_absent: "x \<notin> set s \<Longrightarrow> split_on x s = [s]"
  by (induction s) auto

lemma split_on_append: "x \<notin> set s \<Longrightarrow> split_on x (s @ x # t) = s # split_on x t"
  by (induction s) auto

lemma parse_pair_text: "parse_pair (pair_text p) = Some p"
proof -
  have "CHR '';'' \<notin> set (pair_text p)" "pair_text p \<noteq> []"
    by (auto simp: pair_text_def QueryEscape_avoids)
  moreover have "Cut (CHR ''='') (pair_text p) = (QueryEscape (fst p), QueryEscape (snd p))"
    by (simp add: pair_text_def Cut_append QueryEscape_avoids)
  ultimately show ?thesis by (simp add: parse_pair_def)
qed

lemma pair_text_no_amp: "CHR ''&'' \<notin> set (pair_text p)"
  by (auto simp: pair_text_def QueryEscape_avoids)

lemma ParseQuery_join: "ParseQuery (join_amp (map pair_text ps)) = ps"
proof (induction ps rule: induct_list012)
  case 1
  then show ?case by (simp add: ParseQuery_def map_filter_simps parse_pair_def)
next
  case (2 p)
  then show ?case
    by (simp add: ParseQuery_def split_on_absent pair_text_no_amp map_filter_simps parse_pair_text)
next
  case (3 p q ps)
  then show ?case
    by (simp add: ParseQuery_def split_on_append pair_text_no_amp map_filter_simps parse_pair_text)
qed

lemma ParseQuery_Encode: "ParseQuery (Values_Encode vs) = order_by str_le fst vs"
  by (simp add: Values_Encode_def ParseQuery_join)

lemma Encode_chars:
  "c \<in> set (Values_Encode vs) \<Longrightarrow> plain_char c \<or> c = CHR ''='' \<or> c = CHR ''&''"
proof -
  have "c \<in> set (join_amp (map pair_text ps)) \<Longrightarrow> plain_char c \<or> c = CHR ''='' \<or> c = CHR ''&''" for ps
    by (induction ps rule: induct_list012) (auto simp: pair_text_def dest: QueryEscape_plain)
  then show "c \<in> set (Values_Encode vs) \<Longrightarrow> plain_char c \<or> c = CHR ''='' \<or> c = CHR ''&''"
    by (simp add: Values_Encode_def)
qed

text \<open>A URL made of a plain path and an encoded query is read back.\<close>

definition plain_path :: "string \<Rightarrow> bool" where
  "plain_path p \<longleftrightarrow> HasPrefix p ''/'' \<and> \<not> HasPrefix p ''//'' \<and>
     list_all (\<lambda>c. unreserved c \<or> c = CHR ''/'') p"

lemma percent_decode_plain:
  "list_all (\<lambda>c. c \<noteq> CHR ''%'' \<and> c \<noteq> CHR ''+'') s \<Longrightarrow> percent_decode q s = Some s"
  by (induction s) auto

lemma plain_path_chars:
  assumes "plain_path p" "c \<in> set p"
  shows "c \<noteq> CHR ''%'' \<and> c \<noteq> CHR ''+'' \<and> c \<noteq> CHR ''?'' \<and> c \<noteq> CHR ''#'' \<and> \<not> ctl_byte c"
  using assms by (auto simp: plain_path_def list_all_iff unreserved_def ctl_byte_def Let_def)

lemma getScheme_path: "HasPrefix p ''/'' \<Longrightarrow> getScheme p = Some ([], p)"
  by (cases p) (simp_all add: getScheme_def is_digit_def)

lemma url_Parse_path_query:
  assumes "plain_path p"
  shows "url_Parse auth (url_String \<lparr>url_Scheme = [], url_Opaque = [], url_Host = [], url_Path = p, url_RawQuery = Values_Encode vs\<rparr>)
    = Some \<lparr>url_Scheme = [], url_Opaque = [], url_Host = [], url_Path = p, url_RawQuery = Values_Encode vs\<rparr>"
proof -
  let ?q = "Values_Encode vs"
  let ?s = "url_String \<lparr>url_Scheme = [], url_Opaque = [], url_Host = [], url_Path = p, url_RawQuery = ?q\<rparr>"
  have s: "?s = p @ (if ?q = [] then [] else CHR ''?'' # ?q)" by (simp add: url_String_def)
  have chars: "c \<noteq> CHR ''#'' \<and> \<not> ctl_byte c" if "c \<in> set ?s" for c
  proof -
    have "\<not> ctl_byte CHR ''?''" "\<not> ctl_byte CHR ''=''" "\<not> ctl_byte CHR ''&''" by code_simp+
    then show ?thesis
      using that plain_path_chars [OF assms, of c] Encode_chars [of c vs] plain_not_ctl [of c]
      by (auto simp: s split: if_splits)
  qed
  obtain p' where p': "p = CHR ''/'' # p'" using assms by (auto simp: plain_path_def HasPrefix_iff)
  then have "HasPrefix ?s ''/''" "?s \<noteq> ''*''" by (simp_all add: url_String_def)
  moreover have "CHR ''?'' \<notin> set p" using plain_path_chars [OF assms] by blast
  then have "Cut (CHR ''?'') ?s = (p, ?q)" by (simp add: s Cut_append Cut_absent)
  moreover have "list_all (\<lambda>c. c \<noteq> CHR ''%'' \<and> c \<noteq> CHR ''+'') p"
    using plain_path_chars [OF assms] unfolding list_all_iff by blast
  then have "percent_decode False p = Some p" by (rule percent_decode_plain)
  moreover have "\<not> list_ex ctl_byte ?s" using chars by (simp only: list_ex_iff) blast
  moreover have "HasPrefix p ''/''" "\<not> HasPrefix p ''//''" using assms by (simp_all add: plain_path_def)
  ultimately have "parse_no_fragment auth ?s =
      Some \<lparr>url_Scheme = [], url_Opaque = [], url_Host = [], url_Path = p, url_RawQuery = ?q\<rparr>"
    by (simp only: parse_no_fragment_def getScheme_path parse_hierarchical_def PathUnescape_def) simp
  moreover have "Cut (CHR ''#'') ?s = (?s, [])" using chars by (intro Cut_absent) auto
  ultimately show ?thesis by (simp add: url_Parse_def PathUnescape_def)
qed

end
