(* ===== verification/Request.thy ===== *)
theory Request
  imports Url
begin

text \<open>
  What the admin API and the web UI use of a request: forms, cookies, JSON bodies and query
  parameters (\<open>net/http\<close>, \<open>mime\<close>, \<open>encoding/json\<close>).
\<close>

section \<open>Forms\<close>

text \<open>
  \<open>mime.ParseMediaType\<close> without its parameters.  A value that repeats a parameter with another text,
  which Go refuses, is outside the model.
\<close>

definition media_type :: "string \<Rightarrow> string" where
  "media_type v = trim_string (map lower_char (fst (Cut (CHR '';'') v)))"

definition form_type :: string where
  "form_type = ''application/x-www-form-urlencoded''"

definition multipart_type :: string where
  "multipart_type = ''multipart/form-data''"

text \<open>\<open>parsePostForm\<close>: a body that breaks off or exceeds 10 MB yields nothing.\<close>

definition maxFormSize :: nat where
  "maxFormSize = 10485760"

definition post_form :: "http_request \<Rightarrow> url_values" where
  "post_form r =
     (if rq_method r \<in> {''POST'', ''PUT'', ''PATCH''} \<and>
        media_type (Header_Get (rq_header r) ''Content-Type'') = form_type
      then (case ReadAll (rq_body r) of
              None \<Rightarrow> []
            | Some b \<Rightarrow> if length b > maxFormSize then [] else ParseQuery b)
      else [])"

text \<open>
  \<open>r.Form\<close> after \<open>ParseForm\<close>: the body first, then the query.  \<open>ParseForm\<close> does not read a multipart
  body, and once it has run \<open>FormValue\<close> does not either.
\<close>

definition ParseForm :: "http_request \<Rightarrow> url_values" where
  "ParseForm r = post_form r @ ParseQuery (rq_rawQuery r)"

text \<open>
  \<open>FormValue\<close> on a request whose form has not been parsed also reads a multipart body; \<open>multipart\<close>
  gives its values.
\<close>

definition FormValue :: "(http_request \<Rightarrow> url_values) \<Rightarrow> http_request \<Rightarrow> string \<Rightarrow> string" where
  "FormValue multipart r k =
     Values_Get (ParseForm r @
       (if media_type (Header_Get (rq_header r) ''Content-Type'') = multipart_type then multipart r else [])) k"

section \<open>JSON bodies\<close>

text \<open>
  The bytes a decoder can see: everything up to the end or the first error.  A value that is complete
  by then is decoded, whatever follows it.
\<close>

fun read_bytes :: "reads \<Rightarrow> bytes" where
  "read_bytes [] = []"
| "read_bytes ((d, e) # rs) = d @ (if e = None then read_bytes rs else [])"

definition decode_body :: "(string \<Rightarrow> json \<Rightarrow> 'a \<Rightarrow> 'a \<times> bool) \<Rightarrow> 'a \<Rightarrow> http_request \<Rightarrow> 'a option" where
  "decode_body field z r =
     (case json_decode_first (read_bytes (rq_body r)) of
        None \<Rightarrow> None
      | Some v \<Rightarrow> (case decode_struct field v z of (a, ok) \<Rightarrow> if ok then Some a else None))"

section \<open>Cookies\<close>

text \<open>\<open>parseCookieValue\<close>: quotes around the value are dropped, other bytes must be valid.\<close>

definition cookie_byte :: "char \<Rightarrow> bool" where
  "cookie_byte c \<longleftrightarrow> (let n = of_char c :: nat in
     32 \<le> n \<and> n < 127 \<and> c \<noteq> CHR 0x22 \<and> c \<noteq> CHR '';'' \<and> c \<noteq> CHR 0x5C)"

definition parse_cookie_value :: "string \<Rightarrow> string option" where
  "parse_cookie_value raw =
     (let v = (if 1 < length raw \<and> hd raw = CHR 0x22 \<and> last raw = CHR 0x22 then butlast (tl raw) else raw) in
      if list_all cookie_byte v then Some v else None)"

definition cookie_part :: "string \<Rightarrow> string \<Rightarrow> string option" where
  "cookie_part name part =
     (case Cut (CHR ''='') (trim_string part) of
        (n, v) \<Rightarrow>
          if trim_string n = name \<and> name \<noteq> [] \<and> list_all token_char name then parse_cookie_value v else None)"

text \<open>\<open>r.Cookie(name)\<close>: the first of the cookies with this name, \<open>None\<close> for \<open>ErrNoCookie\<close>.\<close>

definition request_cookie :: "string \<Rightarrow> http_request \<Rightarrow> string option" where
  "request_cookie name r =
     (case List.map_filter (cookie_part name) (concat (map (split_on (CHR '';'')) (rq_header r ''Cookie''))) of
        [] \<Rightarrow> None
      | v # _ \<Rightarrow> Some v)"

text \<open>A cookie as \<open>SetCookie\<close> writes it, reduced to what the program sets.\<close>

record set_cookie =
  sc_Name :: string
  sc_Value :: string
  sc_Path :: string
  sc_HttpOnly :: bool
  sc_SameSite :: string
  sc_MaxAge :: int

section \<open>Lemmas\<close>

lemma trim_string_id:
  assumes "s = [] \<or> \<not> is_space (hd s) \<and> \<not> is_space (last s)"
  shows "trim_string s = s"
proof (cases "s = []")
  case False
  with assms have "dropWhile is_space s = s" "dropWhile is_space (rev s) = rev s"
    by (simp_all add: dropWhile_eq_self_iff hd_rev)
  then show ?thesis by (simp add: trim_string_def)
qed (simp add: trim_string_def)

text \<open>A browser sends back \<open>name=value\<close>; for the values the program makes, this is read as it was set.\<close>

lemma request_cookie_sent:
  assumes "rq_header r ''Cookie'' = [name @ CHR ''='' # v]" "list_all token_char name" "name \<noteq> []"
    and "v \<noteq> []" "list_all (\<lambda>c. token_char c) v"
  shows "request_cookie name r = Some v"
proof -
  have tok: "token_char c \<Longrightarrow> c \<noteq> CHR '';'' \<and> c \<noteq> CHR ''='' \<and> \<not> is_space c \<and> cookie_byte c" for c
    by (auto simp: token_char_def Let_def is_space_def cookie_byte_def)
  have n: "\<And>c. c \<in> set name \<Longrightarrow> token_char c" "\<And>c. c \<in> set v \<Longrightarrow> token_char c"
    using assms(2,5) by (auto simp: list_all_iff)
  have "CHR '';'' \<notin> set (name @ CHR ''='' # v)" using n tok by auto
  then have sp: "split_on (CHR '';'') (name @ CHR ''='' # v) = [name @ CHR ''='' # v]" by (rule split_on_absent)
  have h: "hd name \<in> set name" "last v \<in> set v" "hd v \<in> set v" "last name \<in> set name" using assms(3,4) by simp_all
  have tr: "trim_string (name @ CHR ''='' # v) = name @ CHR ''='' # v"
    using n(1) [OF h(1)] n(2) [OF h(2)] tok assms(3,4) by (intro trim_string_id) auto
  have tn: "trim_string name = name"
    using n(1) [OF h(1)] n(1) [OF h(4)] tok by (intro trim_string_id) auto
  have cut: "Cut (CHR ''='') (name @ CHR ''='' # v) = (name, v)" using n(1) tok by (intro Cut_append) auto
  have "hd v \<noteq> CHR 0x22" using tok [OF n(2) [OF h(3)]] by (auto simp: cookie_byte_def)
  then have "parse_cookie_value v = Some v"
    using n(2) tok by (auto simp: parse_cookie_value_def list_all_iff)
  then have "cookie_part name (name @ CHR ''='' # v) = Some v"
    using tr tn cut assms(2,3) by (simp add: cookie_part_def)
  then show ?thesis by (simp add: request_cookie_def assms(1) sp map_filter_simps)
qed

end
