(* ===== verification/Admin.thy ===== *)
theory Admin
  imports Request Manager Usage_Store
begin

text \<open>
  internal/admin/handler.go and middleware.go: the admin API.  A handler maps the request, the
  database and the state behind the callback \<open>onPoolChanged\<close> to a reply and the new states.
\<close>

section \<open>Replies\<close>

record RealTokenResponse =
  re_ID :: string
  re_Name :: string
  re_IsActive :: bool
  re_FailureCount :: int
  re_LastFailureAt :: "gotime option"
  re_LastUsedAt :: "gotime option"
  re_TotalInputTokens :: int
  re_TotalOutputTokens :: int
  re_CreatedAt :: gotime
  re_UpdatedAt :: gotime

definition sanitizeRealToken :: "RealToken \<Rightarrow> RealTokenResponse" where
  "sanitizeRealToken t =
     \<lparr>re_ID = rt_ID t, re_Name = rt_Name t, re_IsActive = rt_IsActive t,
      re_FailureCount = rt_FailureCount t, re_LastFailureAt = rt_LastFailureAt t,
      re_LastUsedAt = rt_LastUsedAt t, re_TotalInputTokens = rt_TotalInputTokens t,
      re_TotalOutputTokens = rt_TotalOutputTokens t, re_CreatedAt = rt_CreatedAt t,
      re_UpdatedAt = rt_UpdatedAt t\<rparr>"

text \<open>The values under \<open>"data"\<close>.\<close>

datatype admin_data =
    RealTokenList "RealTokenResponse list"
  | RealTokenData RealTokenResponse
  | GateTokenList "GateToken list"
  | GateTokenData GateToken
  | StatusData string string
  | NameData string string
  | IDData string
  | StatsData UsageStats

datatype admin_reply = AdminJSON int admin_data | AdminError reply | HXRedirect string

definition writeJSON :: "int \<Rightarrow> admin_data \<Rightarrow> admin_reply" where
  "writeJSON status d = AdminJSON status d"

definition writeError :: "int \<Rightarrow> string \<Rightarrow> admin_reply" where
  "writeError status msg = AdminError (WriteJSONError status msg)"

definition isFormRequest :: "http_request \<Rightarrow> bool" where
  "isFormRequest r =
     (let ct = Header_Get (rq_header r) ''Content-Type'' in
      HasPrefix ct form_type \<or> HasPrefix ct multipart_type)"

text \<open>The requests that are answered with \<open>HX-Redirect\<close> and 204 instead of JSON.\<close>

definition wants_redirect :: "http_request \<Rightarrow> bool" where
  "wants_redirect r \<longleftrightarrow> Header_Get (rq_header r) ''HX-Request'' = ''true'' \<or> isFormRequest r"

definition respondSuccess :: "http_request \<Rightarrow> int \<Rightarrow> admin_data \<Rightarrow> string \<Rightarrow> admin_reply" where
  "respondSuccess r status d redirectURL =
     (if wants_redirect r then HXRedirect redirectURL else writeJSON status d)"

definition respondError :: "http_request \<Rightarrow> int \<Rightarrow> string \<Rightarrow> string \<Rightarrow> admin_reply" where
  "respondError r status msg redirectURL =
     (if wants_redirect r then HXRedirect redirectURL else writeError status msg)"

text \<open>The bases are paths without an authority.\<close>

definition redirect_with :: "string \<Rightarrow> url_values \<Rightarrow> string" where
  "redirect_with base vs =
     (case url_Parse (\<lambda>_. None) base of
        None \<Rightarrow> base
      | Some u \<Rightarrow>
          url_String (u\<lparr>url_RawQuery := Values_Encode (fold (\<lambda>(k, v) q. Values_Set q k v) vs (url_Query u))\<rparr>))"

definition adminRedirect :: "string \<Rightarrow> string \<Rightarrow> string" where
  "adminRedirect base flash = redirect_with base [(''flash'', flash)]"

section \<open>Token handlers\<close>

fun token_type :: "token_table \<Rightarrow> string" where
  "token_type RealTokens = ''real''"
| "token_type GateTokens = ''gate''"

definition base_path :: "token_table \<Rightarrow> string" where
  "base_path tab = ''/admin/'' @ token_type tab @ ''-tokens''"

definition pool_changed :: "token_table \<Rightarrow> ('m \<Rightarrow> 'm) \<Rightarrow> 'm \<Rightarrow> 'm" where
  "pool_changed tab onPoolChanged m = (if tab = RealTokens then onPoolChanged m else m)"

definition setTokenActive ::
  "callenv \<Rightarrow> ('m \<Rightarrow> 'm) \<Rightarrow> token_table \<Rightarrow> string \<Rightarrow> bool \<Rightarrow> http_request \<Rightarrow> db \<Rightarrow> 'm \<Rightarrow> admin_reply \<times> db \<times> 'm" where
  "setTokenActive c onPoolChanged tab i active r s m =
     (case (case tab of RealTokens \<Rightarrow> SetRealTokenActive c i active s | GateTokens \<Rightarrow> SetGateTokenActive c i active s) of
        (Some e, s') \<Rightarrow>
          if e = ErrNoRows
          then (respondError r 404 (token_type tab @ '' token not found'') (adminRedirect (base_path tab) ''Token not found''), s', m)
          else (let action = (if active then ''activate'' else ''deactivate'') in
            (respondError r 500 (''failed to '' @ action @ '' '' @ token_type tab @ '' token'')
               (adminRedirect (base_path tab) (''Failed to '' @ action @ '' token'')), s', m))
      | (None, s') \<Rightarrow>
          (respondSuccess r 200 (StatusData i (if active then ''active'' else ''inactive''))
             (adminRedirect (base_path tab) (''Token '' @ (if active then ''activated'' else ''deactivated''))),
           s', pool_changed tab onPoolChanged m))"

definition deleteToken ::
  "callenv \<Rightarrow> ('m \<Rightarrow> 'm) \<Rightarrow> token_table \<Rightarrow> string \<Rightarrow> http_request \<Rightarrow> db \<Rightarrow> 'm \<Rightarrow> admin_reply \<times> db \<times> 'm" where
  "deleteToken c onPoolChanged tab i r s m =
     (case (case tab of RealTokens \<Rightarrow> DeleteRealToken c i s | GateTokens \<Rightarrow> DeleteGateToken c i s) of
        (Some e, s') \<Rightarrow>
          if e = ErrNoRows
          then (respondError r 404 (token_type tab @ '' token not found'') (adminRedirect (base_path tab) ''Token not found''), s', m)
          else (respondError r 500 (''failed to delete '' @ token_type tab @ '' token'')
                  (adminRedirect (base_path tab) ''Failed to delete token''), s', m)
      | (None, s') \<Rightarrow>
          (respondSuccess r 200 (IDData i) (adminRedirect (base_path tab) ''Token deleted''),
           s', pool_changed tab onPoolChanged m))"

definition listRealTokens :: "driver \<Rightarrow> callenv \<Rightarrow> db \<Rightarrow> admin_reply" where
  "listRealTokens D c s =
     (case ListRealTokens D c s of
        Inl e \<Rightarrow> writeError 500 ''failed to list real tokens''
      | Inr tokens \<Rightarrow> writeJSON 200 (RealTokenList (map sanitizeRealToken tokens)))"

record createRealTokenRequest =
  cr_Name :: string
  cr_AccessToken :: string
  cr_RefreshToken :: string

definition create_real_field :: "string \<Rightarrow> json \<Rightarrow> createRealTokenRequest \<Rightarrow> createRealTokenRequest \<times> bool" where
  "create_real_field k v q =
     (if k = ''name'' then (case decode_str v (cr_Name q) of (s, ok) \<Rightarrow> (q\<lparr>cr_Name := s\<rparr>, ok))
      else if k = ''access_token'' then (case decode_str v (cr_AccessToken q) of (s, ok) \<Rightarrow> (q\<lparr>cr_AccessToken := s\<rparr>, ok))
      else if k = ''refresh_token'' then (case decode_str v (cr_RefreshToken q) of (s, ok) \<Rightarrow> (q\<lparr>cr_RefreshToken := s\<rparr>, ok))
      else (q, True))"

definition create_real_request :: "http_request \<Rightarrow> createRealTokenRequest option" where
  "create_real_request r =
     (if isFormRequest r
      then (let form = ParseForm r in
        Some \<lparr>cr_Name = Values_Get form ''name'', cr_AccessToken = Values_Get form ''access_token'',
              cr_RefreshToken = Values_Get form ''refresh_token''\<rparr>)
      else decode_body create_real_field \<lparr>cr_Name = [], cr_AccessToken = [], cr_RefreshToken = []\<rparr> r)"

definition createRealToken ::
  "callenv \<Rightarrow> bytes \<Rightarrow> ('m \<Rightarrow> 'm) \<Rightarrow> http_request \<Rightarrow> db \<Rightarrow> 'm \<Rightarrow> admin_reply \<times> db \<times> 'm" where
  "createRealToken c rnd onPoolChanged r s m =
     (case create_real_request r of
        None \<Rightarrow> (writeError 400 ''invalid request body'', s, m)
      | Some req \<Rightarrow>
          if cr_Name req = [] \<or> cr_AccessToken req = []
          then (respondError r 400 ''name and access_token are required''
                  (adminRedirect ''/admin/real-tokens'' ''Name and access_token are required''), s, m)
          else case CreateRealToken c rnd (cr_Name req) (cr_AccessToken req) (cr_RefreshToken req) s of
            (Inl e, s') \<Rightarrow>
              (respondError r 500 ''failed to create real token''
                 (adminRedirect ''/admin/real-tokens'' ''Failed to create token''), s', m)
          | (Inr t, s') \<Rightarrow>
              (respondSuccess r 201 (RealTokenData (sanitizeRealToken t))
                 (adminRedirect ''/admin/real-tokens'' ''Token created''), s', onPoolChanged m))"

definition update_name_field :: "string \<Rightarrow> json \<Rightarrow> string \<Rightarrow> string \<times> bool" where
  "update_name_field k v name = (if k = ''name'' then decode_str v name else (name, True))"

definition update_token ::
  "callenv \<Rightarrow> token_table \<Rightarrow> string \<Rightarrow> http_request \<Rightarrow> db \<Rightarrow> 'm \<Rightarrow> admin_reply \<times> db \<times> 'm" where
  "update_token c tab i r s m =
     (case decode_body update_name_field [] r of
        None \<Rightarrow> (writeError 400 ''invalid request body'', s, m)
      | Some name \<Rightarrow>
          if name = [] then (writeError 400 ''name is required'', s, m)
          else case (case tab of RealTokens \<Rightarrow> UpdateRealToken c i name s | GateTokens \<Rightarrow> UpdateGateToken c i name s) of
            (Some e, s') \<Rightarrow>
              if e = ErrNoRows then (writeError 404 (token_type tab @ '' token not found''), s', m)
              else (writeError 500 (''failed to update '' @ token_type tab @ '' token''), s', m)
          | (None, s') \<Rightarrow> (writeJSON 200 (NameData i name), s', m))"

definition listGateTokens :: "driver \<Rightarrow> callenv \<Rightarrow> db \<Rightarrow> admin_reply" where
  "listGateTokens D c s =
     (case ListGateTokens D c s of
        Inl e \<Rightarrow> writeError 500 ''failed to list gate tokens''
      | Inr tokens \<Rightarrow> writeJSON 200 (GateTokenList tokens))"

record createGateTokenRequest =
  cg_Name :: string
  cg_Token :: string

definition create_gate_field :: "string \<Rightarrow> json \<Rightarrow> createGateTokenRequest \<Rightarrow> createGateTokenRequest \<times> bool" where
  "create_gate_field k v q =
     (if k = ''name'' then (case decode_str v (cg_Name q) of (s, ok) \<Rightarrow> (q\<lparr>cg_Name := s\<rparr>, ok))
      else if k = ''token'' then (case decode_str v (cg_Token q) of (s, ok) \<Rightarrow> (q\<lparr>cg_Token := s\<rparr>, ok))
      else (q, True))"

definition create_gate_request :: "http_request \<Rightarrow> createGateTokenRequest option" where
  "create_gate_request r =
     (if isFormRequest r
      then (let form = ParseForm r in
        Some \<lparr>cg_Name = Values_Get form ''name'', cg_Token = Values_Get form ''token''\<rparr>)
      else decode_body create_gate_field \<lparr>cg_Name = [], cg_Token = []\<rparr> r)"

definition createGateToken ::
  "callenv \<Rightarrow> bytes \<Rightarrow> bytes \<Rightarrow> http_request \<Rightarrow> db \<Rightarrow> 'm \<Rightarrow> admin_reply \<times> db \<times> 'm" where
  "createGateToken c rndID rndTok r s m =
     (case create_gate_request r of
        None \<Rightarrow> (writeError 400 ''invalid request body'', s, m)
      | Some req \<Rightarrow>
          if cg_Name req = []
          then (respondError r 400 ''name is required'' (adminRedirect ''/admin/gate-tokens'' ''Name is required''), s, m)
          else if cg_Token req \<noteq> [] \<and> \<not> HasPrefix (cg_Token req) ''gate-''
          then (respondError r 400 (''custom token must start with '' @ [CHR 0x27] @ ''gate-'' @ [CHR 0x27])
                  (adminRedirect ''/admin/gate-tokens'' ''Token must start with gate-''), s, m)
          else case CreateGateToken c rndID rndTok (cg_Name req) (cg_Token req) s of
            (Inl e, s') \<Rightarrow>
              (respondError r 500 ''failed to create gate token''
                 (adminRedirect ''/admin/gate-tokens'' ''Failed to create token''), s', m)
          | (Inr t, s') \<Rightarrow>
              (respondSuccess r 201 (GateTokenData t)
                 (redirect_with ''/admin/gate-tokens'' [(''flash'', ''Token created''), (''new_token'', gt_Token t)]),
               s', m))"

section \<open>Usage handlers\<close>

text \<open>\<open>rfc3339\<close> is \<open>time.Parse\<close> with the layout of the name, a parameter.\<close>

definition parseSince :: "(string \<Rightarrow> gotime option) \<Rightarrow> http_request \<Rightarrow> gotime" where
  "parseSince rfc3339 r =
     (let sinceStr = Values_Get (ParseQuery (rq_rawQuery r)) ''since'' in
      if sinceStr = [] then zero_time
      else case rfc3339 sinceStr of None \<Rightarrow> zero_time | Some t \<Rightarrow> t)"

definition handleUsage ::
  "(string \<Rightarrow> gotime option) \<Rightarrow> http_request \<Rightarrow> (gotime \<Rightarrow> go_error + UsageStats) \<Rightarrow> admin_reply" where
  "handleUsage rfc3339 r queryFn =
     (case queryFn (parseSince rfc3339 r) of
        Inl e \<Rightarrow> writeError 500 ''failed to get usage stats''
      | Inr stats \<Rightarrow> writeJSON 200 (StatsData stats))"

definition getUsage :: "driver \<Rightarrow> callenv \<Rightarrow> (string \<Rightarrow> gotime option) \<Rightarrow> http_request \<Rightarrow> db \<Rightarrow> admin_reply" where
  "getUsage D c rfc3339 r s = handleUsage rfc3339 r (\<lambda>since. GetUsageStats D c since s)"

definition getUsageByToken ::
  "driver \<Rightarrow> callenv \<Rightarrow> (string \<Rightarrow> gotime option) \<Rightarrow> token_table \<Rightarrow> string \<Rightarrow> http_request \<Rightarrow> db \<Rightarrow> admin_reply" where
  "getUsageByToken D c rfc3339 tab i r s =
     handleUsage rfc3339 r
       (\<lambda>since. case tab of RealTokens \<Rightarrow> GetUsageStatsByRealToken D c i since s
                        | GateTokens \<Rightarrow> GetUsageStatsByGateToken D c i since s)"

section \<open>Routes and authentication\<close>

datatype admin_route =
    ListReal | CreateReal | ListGate | CreateGate
  | UpdateToken token_table string | DeleteToken token_table string
  | SetActive token_table string bool
  | Usage | UsageByToken token_table string

text \<open>\<open>Register\<close>: the method and the segments below \<open>/admin/api\<close>.  A GET pattern also matches HEAD.\<close>

definition is_get :: "string \<Rightarrow> bool" where
  "is_get method \<longleftrightarrow> method = ''GET'' \<or> method = ''HEAD''"

definition token_table_of :: "string \<Rightarrow> token_table option" where
  "token_table_of seg =
     (if seg = ''real-tokens'' then Some RealTokens else if seg = ''gate-tokens'' then Some GateTokens else None)"

definition list_or_create :: "string \<Rightarrow> token_table \<Rightarrow> admin_route option" where
  "list_or_create method tab =
     (if is_get method then Some (case tab of RealTokens \<Rightarrow> ListReal | GateTokens \<Rightarrow> ListGate)
      else if method = ''POST'' then Some (case tab of RealTokens \<Rightarrow> CreateReal | GateTokens \<Rightarrow> CreateGate)
      else None)"

fun Register :: "string \<Rightarrow> string list \<Rightarrow> admin_route option" where
  "Register method [a] =
     (if a = ''usage'' then (if is_get method then Some Usage else None)
      else case token_table_of a of None \<Rightarrow> None | Some tab \<Rightarrow> list_or_create method tab)"
| "Register method [a, b] =
     (case token_table_of a of
        None \<Rightarrow> None
      | Some tab \<Rightarrow>
          if method = ''PUT'' then Some (UpdateToken tab b)
          else if method = ''DELETE'' then Some (DeleteToken tab b) else None)"
| "Register method [a, b, c] =
     (if a = ''usage'' then
        (if is_get method then map_option (\<lambda>tab. UsageByToken tab c) (token_table_of b) else None)
      else case token_table_of a of
        None \<Rightarrow> None
      | Some tab \<Rightarrow>
          if method = ''POST'' \<and> c = ''activate'' then Some (SetActive tab b True)
          else if method = ''POST'' \<and> c = ''deactivate'' then Some (SetActive tab b False) else None)"
| "Register method _ = None"

text \<open>The handlers of the two tables, by the names the routes use.\<close>

definition updateRealToken :: "callenv \<Rightarrow> string \<Rightarrow> http_request \<Rightarrow> db \<Rightarrow> 'm \<Rightarrow> admin_reply \<times> db \<times> 'm" where
  "updateRealToken c i r s m = update_token c RealTokens i r s m"

definition deleteRealToken :: "callenv \<Rightarrow> ('m \<Rightarrow> 'm) \<Rightarrow> string \<Rightarrow> http_request \<Rightarrow> db \<Rightarrow> 'm \<Rightarrow> admin_reply \<times> db \<times> 'm" where
  "deleteRealToken c f i r s m = deleteToken c f RealTokens i r s m"

definition activateRealToken :: "callenv \<Rightarrow> ('m \<Rightarrow> 'm) \<Rightarrow> string \<Rightarrow> http_request \<Rightarrow> db \<Rightarrow> 'm \<Rightarrow> admin_reply \<times> db \<times> 'm" where
  "activateRealToken c f i r s m = setTokenActive c f RealTokens i True r s m"

definition deactivateRealToken :: "callenv \<Rightarrow> ('m \<Rightarrow> 'm) \<Rightarrow> string \<Rightarrow> http_request \<Rightarrow> db \<Rightarrow> 'm \<Rightarrow> admin_reply \<times> db \<times> 'm" where
  "deactivateRealToken c f i r s m = setTokenActive c f RealTokens i False r s m"

definition updateGateToken :: "callenv \<Rightarrow> string \<Rightarrow> http_request \<Rightarrow> db \<Rightarrow> 'm \<Rightarrow> admin_reply \<times> db \<times> 'm" where
  "updateGateToken c i r s m = update_token c GateTokens i r s m"

definition deleteGateToken :: "callenv \<Rightarrow> ('m \<Rightarrow> 'm) \<Rightarrow> string \<Rightarrow> http_request \<Rightarrow> db \<Rightarrow> 'm \<Rightarrow> admin_reply \<times> db \<times> 'm" where
  "deleteGateToken c f i r s m = deleteToken c f GateTokens i r s m"

definition activateGateToken :: "callenv \<Rightarrow> ('m \<Rightarrow> 'm) \<Rightarrow> string \<Rightarrow> http_request \<Rightarrow> db \<Rightarrow> 'm \<Rightarrow> admin_reply \<times> db \<times> 'm" where
  "activateGateToken c f i r s m = setTokenActive c f GateTokens i True r s m"

definition deactivateGateToken :: "callenv \<Rightarrow> ('m \<Rightarrow> 'm) \<Rightarrow> string \<Rightarrow> http_request \<Rightarrow> db \<Rightarrow> 'm \<Rightarrow> admin_reply \<times> db \<times> 'm" where
  "deactivateGateToken c f i r s m = setTokenActive c f GateTokens i False r s m"

text \<open>What a call of the API meets besides the request.\<close>

record admin_env =
  ae_call :: callenv
  ae_rndID :: bytes
  ae_rndToken :: bytes
  ae_rfc3339 :: "string \<Rightarrow> gotime option"

definition handle_admin ::
  "driver \<Rightarrow> admin_env \<Rightarrow> ('m \<Rightarrow> 'm) \<Rightarrow> admin_route \<Rightarrow> http_request \<Rightarrow> db \<Rightarrow> 'm \<Rightarrow> admin_reply \<times> db \<times> 'm" where
  "handle_admin D A onPoolChanged route r s m =
     (let c = ae_call A in
      case route of
        ListReal \<Rightarrow> (listRealTokens D c s, s, m)
      | CreateReal \<Rightarrow> createRealToken c (ae_rndID A) onPoolChanged r s m
      | ListGate \<Rightarrow> (listGateTokens D c s, s, m)
      | CreateGate \<Rightarrow> createGateToken c (ae_rndID A) (ae_rndToken A) r s m
      | UpdateToken RealTokens i \<Rightarrow> updateRealToken c i r s m
      | UpdateToken GateTokens i \<Rightarrow> updateGateToken c i r s m
      | DeleteToken RealTokens i \<Rightarrow> deleteRealToken c onPoolChanged i r s m
      | DeleteToken GateTokens i \<Rightarrow> deleteGateToken c onPoolChanged i r s m
      | SetActive RealTokens i b \<Rightarrow>
          (if b then activateRealToken c onPoolChanged i r s m else deactivateRealToken c onPoolChanged i r s m)
      | SetActive GateTokens i b \<Rightarrow>
          (if b then activateGateToken c onPoolChanged i r s m else deactivateGateToken c onPoolChanged i r s m)
      | Usage \<Rightarrow> (getUsage D c (ae_rfc3339 A) r s, s, m)
      | UsageByToken tab i \<Rightarrow> (getUsageByToken D c (ae_rfc3339 A) tab i r s, s, m))"

text \<open>The same by table, which is how the lemmas use it.\<close>

lemmas token_handlers = updateRealToken_def updateGateToken_def deleteRealToken_def deleteGateToken_def
  activateRealToken_def activateGateToken_def deactivateRealToken_def deactivateGateToken_def

lemma handle_admin_eq:
  "handle_admin D A onPoolChanged route r s m =
     (let c = ae_call A in
      case route of
        ListReal \<Rightarrow> (listRealTokens D c s, s, m)
      | CreateReal \<Rightarrow> createRealToken c (ae_rndID A) onPoolChanged r s m
      | ListGate \<Rightarrow> (listGateTokens D c s, s, m)
      | CreateGate \<Rightarrow> createGateToken c (ae_rndID A) (ae_rndToken A) r s m
      | UpdateToken tab i \<Rightarrow> update_token c tab i r s m
      | DeleteToken tab i \<Rightarrow> deleteToken c onPoolChanged tab i r s m
      | SetActive tab i b \<Rightarrow> setTokenActive c onPoolChanged tab i b r s m
      | Usage \<Rightarrow> (getUsage D c (ae_rfc3339 A) r s, s, m)
      | UsageByToken tab i \<Rightarrow> (getUsageByToken D c (ae_rfc3339 A) tab i r s, s, m))"
  by (auto simp: handle_admin_def token_handlers Let_def split: admin_route.split token_table.split)

text \<open>
  \<open>AdminAuth\<close>: the bearer secret, or the session check, which works on the state of the web UI's
  sessions.
\<close>

definition AdminAuth ::
  "string \<Rightarrow> (http_request \<Rightarrow> 'w \<Rightarrow> bool \<times> 'w) option \<Rightarrow> http_request \<Rightarrow> 'w \<Rightarrow> bool \<times> 'w" where
  "AdminAuth secret sessionAuth r w =
     (let auth = Header_Get (rq_header r) ''Authorization'' in
      if HasPrefix auth ''Bearer '' \<and> TrimPrefix auth ''Bearer '' = secret then (True, w)
      else case sessionAuth of None \<Rightarrow> (False, w) | Some check \<Rightarrow> check r w)"

definition serve_admin ::
  "driver \<Rightarrow> string \<Rightarrow> (http_request \<Rightarrow> 'w \<Rightarrow> bool \<times> 'w) option \<Rightarrow> admin_env \<Rightarrow> ('m \<Rightarrow> 'm) \<Rightarrow> admin_route \<Rightarrow>
     http_request \<Rightarrow> db \<Rightarrow> 'm \<Rightarrow> 'w \<Rightarrow> admin_reply \<times> db \<times> 'm \<times> 'w" where
  "serve_admin D secret sessionAuth A onPoolChanged route r s m w =
     (case AdminAuth secret sessionAuth r w of
        (True, w') \<Rightarrow>
          (case handle_admin D A onPoolChanged route r s m of (rep, s', m') \<Rightarrow> (rep, s', m', w'))
      | (False, w') \<Rightarrow> (writeError 401 ''missing or invalid authorization'', s, m, w'))"

end
