(* ===== verification/Admin_Properties.thy ===== *)
theory Admin_Properties
  imports Admin Store_Properties
begin

text \<open>
  What the admin API promises: the outcome of every change, secrecy of the stored credentials, and
  redirects the browser reads back.
\<close>

section \<open>Outcomes\<close>

definition table_ids :: "token_table \<Rightarrow> db \<Rightarrow> string set" where
  "table_ids tab s = (case tab of RealTokens \<Rightarrow> real_ids s | GateTokens \<Rightarrow> gate_ids s)"

definition set_active_op :: "token_table \<Rightarrow> callenv \<Rightarrow> string \<Rightarrow> bool \<Rightarrow> db \<Rightarrow> go_error option \<times> db" where
  "set_active_op tab = (case tab of RealTokens \<Rightarrow> SetRealTokenActive | GateTokens \<Rightarrow> SetGateTokenActive)"

definition delete_op :: "token_table \<Rightarrow> callenv \<Rightarrow> string \<Rightarrow> db \<Rightarrow> go_error option \<times> db" where
  "delete_op tab = (case tab of RealTokens \<Rightarrow> DeleteRealToken | GateTokens \<Rightarrow> DeleteGateToken)"

definition rename_op :: "token_table \<Rightarrow> callenv \<Rightarrow> string \<Rightarrow> string \<Rightarrow> db \<Rightarrow> go_error option \<times> db" where
  "rename_op tab = (case tab of RealTokens \<Rightarrow> UpdateRealToken | GateTokens \<Rightarrow> UpdateGateToken)"

text \<open>Both tables keep the contract of \<open>token_table\<close>, whichever the path names.\<close>

lemma op_results:
  assumes "no_fault c"
  shows "fst (set_active_op tab c i b s) = (if i \<in> table_ids tab s then None else Some ErrNoRows)"
    "fst (delete_op tab c i s) = (if i \<in> table_ids tab s then None else Some ErrNoRows)"
    "fst (rename_op tab c i n s) = (if i \<in> table_ids tab s then None else Some ErrNoRows)"
  using assms
  by (cases tab; simp add: set_active_op_def delete_op_def rename_op_def table_ids_def
      reals.set_active_result gates.set_active_result reals.remove_result gates.remove_result
      reals.rename_result gates.rename_result)+

lemma op_missing:
  assumes "no_fault c" "i \<notin> table_ids tab s"
  shows "snd (set_active_op tab c i b s) = s" "snd (delete_op tab c i s) = s" "snd (rename_op tab c i n s) = s"
  using assms reals.missing_token [of c i s] gates.missing_token [of c i s]
  by (cases tab; simp add: set_active_op_def delete_op_def rename_op_def table_ids_def)+

lemma handler_ops:
  "setTokenActive c f tab i b r s m =
     (case set_active_op tab c i b s of
        (Some e, s') \<Rightarrow>
          if e = ErrNoRows
          then (respondError r 404 (token_type tab @ '' token not found'') (adminRedirect (base_path tab) ''Token not found''), s', m)
          else (let action = (if b then ''activate'' else ''deactivate'') in
            (respondError r 500 (''failed to '' @ action @ '' '' @ token_type tab @ '' token'')
               (adminRedirect (base_path tab) (''Failed to '' @ action @ '' token'')), s', m))
      | (None, s') \<Rightarrow>
          (respondSuccess r 200 (StatusData i (if b then ''active'' else ''inactive''))
             (adminRedirect (base_path tab) (''Token '' @ (if b then ''activated'' else ''deactivated''))),
           s', pool_changed tab f m))"
  "deleteToken c f tab i r s m =
     (case delete_op tab c i s of
        (Some e, s') \<Rightarrow>
          if e = ErrNoRows
          then (respondError r 404 (token_type tab @ '' token not found'') (adminRedirect (base_path tab) ''Token not found''), s', m)
          else (respondError r 500 (''failed to delete '' @ token_type tab @ '' token'')
                  (adminRedirect (base_path tab) ''Failed to delete token''), s', m)
      | (None, s') \<Rightarrow>
          (respondSuccess r 200 (IDData i) (adminRedirect (base_path tab) ''Token deleted''),
           s', pool_changed tab f m))"
  by (cases tab; hypsubst; simp only: setTokenActive_def deleteToken_def set_active_op_def delete_op_def token_table.case)+

lemma update_ops:
  "decode_body update_name_field [] r = Some name \<Longrightarrow> name \<noteq> [] \<Longrightarrow>
   update_token c tab i r s m =
     (case rename_op tab c i name s of
        (Some e, s') \<Rightarrow>
          if e = ErrNoRows then (writeError 404 (token_type tab @ '' token not found''), s', m)
          else (writeError 500 (''failed to update '' @ token_type tab @ '' token''), s', m)
      | (None, s') \<Rightarrow> (writeJSON 200 (NameData i name), s', m))"
  by (cases tab; hypsubst; simp only: update_token_def rename_op_def token_table.case option.case if_False)

lemma update_token_state:
  "snd (snd (update_token c tab i r s m)) = m \<and>
   (fst (snd (update_token c tab i r s m)) = s \<or> (\<exists>name. fst (snd (update_token c tab i r s m)) = snd (rename_op tab c i name s)))"
proof -
  consider (bad) "decode_body update_name_field [] r = None"
    | (empty) "decode_body update_name_field [] r = Some []"
    | (name) name where "decode_body update_name_field [] r = Some name" "name \<noteq> []"
    by (metis option.exhaust)
  then show ?thesis
  proof cases
    case (name n)
    obtain e s' where r: "rename_op tab c i n s = (e, s')" by fastforce
    with name have "snd (update_token c tab i r s m) = (s', m)"
      by (simp add: update_ops split: option.split)
    moreover from r have "s' = snd (rename_op tab c i n s)" by simp
    ultimately show ?thesis by auto
  qed (simp_all add: update_token_def)
qed

text \<open>What a change of one token answers: the status, the data and the states.\<close>

definition outcome ::
  "token_table \<Rightarrow> string \<Rightarrow> admin_data \<Rightarrow> db \<Rightarrow> 'm \<Rightarrow> db \<Rightarrow> 'm \<Rightarrow> admin_reply \<times> db \<times> 'm" where
  "outcome tab i d s m s' m' =
     (if i \<in> table_ids tab s then (AdminJSON 200 d, s', m')
      else (AdminError (JSONError 404 (token_type tab @ '' token not found'')), s, m))"

text \<open>
  C21: The outcome of changing one token through the API.  For an authorised JSON client and a database
  that answers, activation, deactivation, deletion and renaming of an id that is stored answer 200
  with the id and apply exactly the store's operation; an id that is not stored answers 404 and
  changes nothing.  A change of a real token, and only that, schedules a refresh of the pool;
  renaming schedules none.
\<close>
theorem admin_change_outcomes:
  assumes "no_fault (ae_call A)" "\<not> wants_redirect r"
  shows "handle_admin D A f (SetActive tab i b) r s m =
      outcome tab i (StatusData i (if b then ''active'' else ''inactive'')) s m
        (snd (set_active_op tab (ae_call A) i b s)) (pool_changed tab f m) \<and>
    handle_admin D A f (DeleteToken tab i) r s m =
      outcome tab i (IDData i) s m (snd (delete_op tab (ae_call A) i s)) (pool_changed tab f m) \<and>
    (\<forall>name. decode_body update_name_field [] r = Some name \<and> name \<noteq> [] \<longrightarrow>
      handle_admin D A f (UpdateToken tab i) r s m =
        outcome tab i (NameData i name) s m (snd (rename_op tab (ae_call A) i name s)) m)"
proof (intro conjI allI impI)
  note red = respondSuccess_def respondError_def writeJSON_def writeError_def WriteJSONError_def outcome_def
  show "handle_admin D A f (SetActive tab i b) r s m =
      outcome tab i (StatusData i (if b then ''active'' else ''inactive'')) s m
        (snd (set_active_op tab (ae_call A) i b s)) (pool_changed tab f m)"
    using op_results(1) [OF assms(1), of tab i b s] op_missing(1) [OF assms(1), of i tab s b] assms(2)
    by (cases "set_active_op tab (ae_call A) i b s") (auto simp: handle_admin_eq Let_def handler_ops red)
  show "handle_admin D A f (DeleteToken tab i) r s m =
      outcome tab i (IDData i) s m (snd (delete_op tab (ae_call A) i s)) (pool_changed tab f m)"
    using op_results(2) [OF assms(1), of tab i s] op_missing(2) [OF assms(1), of i tab s] assms(2)
    by (cases "delete_op tab (ae_call A) i s") (auto simp: handle_admin_eq Let_def handler_ops red)
  fix name assume n: "decode_body update_name_field [] r = Some name \<and> name \<noteq> []"
  then show "handle_admin D A f (UpdateToken tab i) r s m =
      outcome tab i (NameData i name) s m (snd (rename_op tab (ae_call A) i name s)) m"
    using op_results(3) [OF assms(1), of tab i name s] op_missing(3) [OF assms(1), of i tab s name]
    by (cases "rename_op tab (ae_call A) i name s") (auto simp: handle_admin_eq Let_def update_ops red)
qed

definition sample_admin_env :: admin_env where
  "sample_admin_env = \<lparr>ae_call = call_at 5, ae_rndID = ''i'', ae_rndToken = ''t'', ae_rfc3339 = (\<lambda>_. None)\<rparr>"

definition sample_api_request :: "string \<Rightarrow> string \<Rightarrow> bytes \<Rightarrow> http_request" where
  "sample_api_request method ct b =
     \<lparr>rq_method = method, rq_scheme = [], rq_urlHost = [], rq_host = ''gate'', rq_path = ''/admin/api/real-tokens'',
      rq_escapedPath = ''/admin/api/real-tokens'', rq_rawQuery = [],
      rq_header = (\<lambda>_. [])(''Content-Type'' := [ct]), rq_body = [(b, Some EOF)]\<rparr>"

definition sample_db_a :: db where
  "sample_db_a = empty_db\<lparr>real_tokens := [\<lparr>rr_id = ''a'', rr_name = ''a'', rr_access = ''k'', rr_refresh = [],
     rr_active = 1, rr_failures = 0, rr_last_failure = None, rr_last_used = None, rr_in = 0, rr_out = 0,
     rr_created = Bound (UTC 0), rr_updated = Bound (UTC 0)\<rparr>]\<rparr>"

theorem admin_change_outcomes_witness:
  "fst (handle_admin text_driver sample_admin_env (\<lambda>n. n + 1) (SetActive RealTokens ''a'' False)
      (sample_api_request ''POST'' [] []) sample_db_a (0::nat)) = AdminJSON 200 (StatusData ''a'' ''inactive'') \<and>
   snd (snd (handle_admin text_driver sample_admin_env (\<lambda>n. n + 1) (SetActive RealTokens ''a'' False)
      (sample_api_request ''POST'' [] []) sample_db_a (0::nat))) = 1 \<and>
   handle_admin text_driver sample_admin_env (\<lambda>n. n + 1) (DeleteToken GateTokens ''a'')
      (sample_api_request ''DELETE'' [] []) sample_db_a (0::nat) =
        (AdminError (JSONError 404 ''gate token not found''), sample_db_a, 0)"
proof -
  have c: "no_fault (ae_call sample_admin_env)" by (simp add: sample_admin_env_def)
  have w: "\<not> wants_redirect (sample_api_request mt [] b)" for mt b
    by (simp add: wants_redirect_def isFormRequest_def sample_api_request_def Header_Get_def canonical_key_def form_type_def
        multipart_type_def token_char_def upper_char_def Let_def)
  have ids: "''a'' \<in> table_ids RealTokens sample_db_a" "''a'' \<notin> table_ids GateTokens sample_db_a"
    by (simp_all add: table_ids_def sample_db_a_def real_ids_def gate_ids_def empty_db_def)
  note t = admin_change_outcomes [OF c w]
  show ?thesis
    using t [THEN conjunct1, of text_driver "\<lambda>n. n + 1" RealTokens "''a''" False "''POST''" "[]" sample_db_a "0::nat"]
      t [THEN conjunct2, THEN conjunct1, of text_driver "\<lambda>n. n + 1" GateTokens "''a''" "''DELETE''" "[]" sample_db_a "0::nat"] ids
    by (simp add: outcome_def pool_changed_def)
qed

section \<open>Redirects\<close>

lemma base_path_cases: "base_path tab \<in> {''/admin/real-tokens'', ''/admin/gate-tokens''}"
  by (cases tab) (simp_all add: base_path_def)

lemma plain_bases: "plain_path ''/admin/real-tokens''" "plain_path ''/admin/gate-tokens''" "plain_path (base_path tab)"
proof -
  show p: "plain_path ''/admin/real-tokens''" "plain_path ''/admin/gate-tokens''" by code_simp+
  show "plain_path (base_path tab)" using base_path_cases [of tab] p by auto
qed

lemma CreateGateToken_Inl: "CreateGateToken c r1 r2 n k s = (Inl e, s') \<Longrightarrow> s' = s"
  by (auto simp: CreateGateToken_def Let_def split: if_splits)

definition page_url :: "string \<Rightarrow> url_values \<Rightarrow> url" where
  "page_url base vs = \<lparr>url_Scheme = [], url_Opaque = [], url_Host = [], url_Path = base, url_RawQuery = Values_Encode vs\<rparr>"

lemma redirect_with_url:
  assumes "plain_path base"
  shows "redirect_with base vs = url_String (page_url base (fold (\<lambda>(k, v) q. Values_Set q k v) vs []))"
proof -
  have e: "Values_Encode [] = []" by (simp add: Values_Encode_def order_by_def)
  have "url_Parse (\<lambda>_. None) base = Some (page_url base [])"
    using url_Parse_path_query [OF assms, of "\<lambda>_. None" "[]"] e
    by (simp add: page_url_def url_String_def)
  moreover have "ParseQuery [] = []" by (simp add: ParseQuery_def map_filter_simps parse_pair_def)
  ultimately show ?thesis by (simp add: redirect_with_def page_url_def url_Query_def e)
qed

lemma Values_Set_append: "k \<notin> fst ` set vs \<Longrightarrow> Values_Set vs k v = vs @ [(k, v)]"
  by (auto simp: Values_Set_def filter_id_conv image_iff)

text \<open>What the browser requests next, and what the page then shows.\<close>

lemma flash_query:
  "url_Query (page_url base [(''flash'', msg)]) = [(''flash'', msg)]"
  "url_Query (page_url base [(''flash'', msg), (''new_token'', t)]) = [(''flash'', msg), (''new_token'', t)]"
  by (simp_all add: url_Query_def page_url_def ParseQuery_Encode order_by_def)

definition leads_to :: "string \<Rightarrow> string \<Rightarrow> url_values \<Rightarrow> bool" where
  "leads_to u path vs \<longleftrightarrow> (\<forall>authority. \<exists>U. url_Parse authority u = Some U \<and>
     url_Scheme U = [] \<and> url_Host U = [] \<and> url_Path U = path \<and> url_Query U = vs)"

lemma leads_to_flash:
  assumes "plain_path base"
  shows "leads_to (adminRedirect base msg) base [(''flash'', msg)]"
    "leads_to (redirect_with base [(''flash'', msg), (''new_token'', t)]) base [(''flash'', msg), (''new_token'', t)]"
proof -
  have p: "url_Parse a (url_String (page_url base vs)) = Some (page_url base vs)" for a vs
    using url_Parse_path_query [OF assms] by (simp add: page_url_def)
  have "url_Scheme (page_url base vs) = []" "url_Host (page_url base vs) = []" "url_Path (page_url base vs) = base" for vs
    by (simp_all add: page_url_def)
  with p flash_query [of base msg] show
    "leads_to (adminRedirect base msg) base [(''flash'', msg)]"
    "leads_to (redirect_with base [(''flash'', msg), (''new_token'', t)]) base [(''flash'', msg), (''new_token'', t)]"
    by (simp_all add: leads_to_def adminRedirect_def redirect_with_url [OF assms] Values_Set_append)
qed

lemma redirect_replies:
  "respondError r st e v = HXRedirect u \<longleftrightarrow> wants_redirect r \<and> v = u"
  "respondSuccess r st d v = HXRedirect u \<longleftrightarrow> wants_redirect r \<and> v = u"
  "writeError st e \<noteq> HXRedirect u" "writeJSON st d \<noteq> HXRedirect u"
  by (simp_all add: respondError_def respondSuccess_def writeError_def writeJSON_def)

text \<open>
  The messages of the handlers.  Every handler that redirects, apart from a successful creation of a gate
  token, uses \<open>adminRedirect\<close> on one of the two pages.
\<close>

definition flash_messages :: "string list" where
  "flash_messages =
     [''Token not found'', ''Failed to activate token'', ''Failed to deactivate token'', ''Token activated'',
      ''Token deactivated'', ''Failed to delete token'', ''Token deleted'', ''Name and access_token are required'',
      ''Failed to create token'', ''Token created'', ''Name is required'', ''Token must start with gate-'']"

lemma flash_messages_mem [simp]:
  "''Token not found'' \<in> set flash_messages"
  "''Failed to activate token'' \<in> set flash_messages"
  "''Failed to deactivate token'' \<in> set flash_messages"
  "''Token activated'' \<in> set flash_messages"
  "''Token deactivated'' \<in> set flash_messages"
  "''Failed to delete token'' \<in> set flash_messages"
  "''Token deleted'' \<in> set flash_messages"
  "''Name and access_token are required'' \<in> set flash_messages"
  "''Failed to create token'' \<in> set flash_messages"
  "''Token created'' \<in> set flash_messages"
  "''Name is required'' \<in> set flash_messages"
  "''Token must start with gate-'' \<in> set flash_messages"
  by (simp_all only: flash_messages_def list.set(2) insert_iff simp_thms)

definition flashes :: "string \<Rightarrow> bool" where
  "flashes u \<longleftrightarrow> (\<exists>base msg. base \<in> {''/admin/real-tokens'', ''/admin/gate-tokens''} \<and> msg \<in> set flash_messages \<and>
     u = adminRedirect base msg)"

lemma flashesI [intro]:
  "msg \<in> set flash_messages \<Longrightarrow> flashes (adminRedirect (base_path tab) msg)"
  "msg \<in> set flash_messages \<Longrightarrow> flashes (adminRedirect ''/admin/real-tokens'' msg)"
  using base_path_cases [of tab] by (auto simp: flashes_def)

lemma handlers_flash:
  "fst (createRealToken c rnd f r s m) = HXRedirect u \<Longrightarrow> flashes u"
  "fst (deleteToken c f tab i r s m) = HXRedirect u \<Longrightarrow> flashes u"
  "fst (setTokenActive c f tab i b r s m) = HXRedirect u \<Longrightarrow> flashes u"
  by (auto simp: createRealToken_def deleteToken_def setTokenActive_def Let_def redirect_replies intro!: flashesI
      split: option.splits if_splits sum.splits prod.splits)

lemma handle_admin_flash:
  assumes "fst (handle_admin D A f rt r s m) = HXRedirect u" "rt \<noteq> CreateGate"
  shows "flashes u"
proof (cases rt)
  case CreateReal
  with assms(1) handlers_flash(1) show ?thesis by (simp add: handle_admin_eq Let_def)
next
  case (DeleteToken tab i)
  with assms(1) handlers_flash(2) show ?thesis by (simp add: handle_admin_eq Let_def)
next
  case (SetActive tab i b)
  with assms(1) handlers_flash(3) show ?thesis by (simp add: handle_admin_eq Let_def)
next
  case (UpdateToken tab i)
  with assms(1) show ?thesis
    by (auto simp: handle_admin_eq Let_def update_token_def redirect_replies split: option.splits if_splits prod.splits)
qed (use assms in \<open>auto simp: handle_admin_eq Let_def listRealTokens_def listGateTokens_def getUsage_def
      getUsageByToken_def handleUsage_def redirect_replies split: sum.splits token_table.splits\<close>)

lemma createGateToken_redirect:
  assumes "createGateToken c r1 r2 r s m = (HXRedirect u, s', m')"
  shows "(\<exists>msg. u = adminRedirect ''/admin/gate-tokens'' msg \<and> msg \<in> set flash_messages \<and> s' = s) \<or>
    (\<exists>t n k. CreateGateToken c r1 r2 n k s = (Inr t, s') \<and>
       u = redirect_with ''/admin/gate-tokens'' [(''flash'', ''Token created''), (''new_token'', gt_Token t)])"
proof -
  obtain q where q: "create_gate_request r = Some q"
    using assms by (auto simp: createGateToken_def writeError_def split: option.splits)
  obtain res s1 where c: "CreateGateToken c r1 r2 (cg_Name q) (cg_Token q) s = (res, s1)" by fastforce
  show ?thesis
  proof (cases res)
    case (Inl e)
    with c have "s1 = s" by (auto dest: CreateGateToken_Inl)
    with assms c q Inl show ?thesis
      by (auto simp: createGateToken_def respondError_def writeError_def split: if_splits)
  next
    case (Inr t)
    with assms c q show ?thesis
      by (auto simp: createGateToken_def respondError_def respondSuccess_def writeError_def writeJSON_def split: if_splits)
  qed
qed

text \<open>
  C33: Redirects are read back.  Whatever a call of the API answers with \<open>HX-Redirect\<close>, the URL stays on
  this server, names one of the two token pages, and the page's flash parameter is one of the handlers'
  messages, byte for byte; after a gate token has been created the page's \<open>new_token\<close> is the token
  that was stored, whatever characters a custom token has.
\<close>
theorem admin_redirects_read_back:
  assumes "handle_admin D A f rt r s m = (HXRedirect u, s', m')"
  shows "\<exists>path\<in>{''/admin/real-tokens'', ''/admin/gate-tokens''}. \<exists>msg\<in>set flash_messages.
    leads_to u path [(''flash'', msg)] \<and> (rt = CreateGate \<longrightarrow> s' = s) \<or>
    rt = CreateGate \<and> (\<exists>g. gate_tokens s' = gate_tokens s @ [g] \<and>
      leads_to u path [(''flash'', msg), (''new_token'', gr_token g)])"
proof (cases "rt = CreateGate")
  case False
  with handle_admin_flash [of D A f rt r s m u] assms have "flashes u" by simp
  with False show ?thesis using leads_to_flash(1) plain_bases unfolding flashes_def by blast
next
  case True
  have new: "\<exists>g. gate_tokens s' = gate_tokens s @ [g] \<and> gt_Token t = gr_token g"
    if "CreateGateToken c r1 r2 n k s = (Inr t, s')" for c r1 r2 n k t
    using that by (auto simp: CreateGateToken_def Let_def split: if_splits)
  from assms True have "createGateToken (ae_call A) (ae_rndID A) (ae_rndToken A) r s m = (HXRedirect u, s', m')"
    by (simp add: handle_admin_eq Let_def)
  from createGateToken_redirect [OF this] consider
    (flash) msg where "u = adminRedirect ''/admin/gate-tokens'' msg" "msg \<in> set flash_messages" "s' = s"
  | (created) t n k where "u = redirect_with ''/admin/gate-tokens'' [(''flash'', ''Token created''), (''new_token'', gt_Token t)]"
      "CreateGateToken (ae_call A) (ae_rndID A) (ae_rndToken A) n k s = (Inr t, s')"
    by blast
  then show ?thesis
  proof cases
    case flash
    with leads_to_flash(1) [OF plain_bases(2), of msg] show ?thesis by blast
  next
    case created
    with new obtain g where "gate_tokens s' = gate_tokens s @ [g]" "gt_Token t = gr_token g" by blast
    moreover from created(1) have "leads_to u ''/admin/gate-tokens'' [(''flash'', ''Token created''), (''new_token'', gt_Token t)]"
      using leads_to_flash(2) [OF plain_bases(2)] by blast
    moreover have "''Token created'' \<in> set flash_messages" by (rule flash_messages_mem)
    ultimately show ?thesis using True
      by (intro bexI [of _ "''/admin/gate-tokens''"] bexI [of _ "''Token created''"]) auto
  qed
qed

definition sample_form :: http_request where
  "sample_form = sample_api_request ''POST'' ''application/x-www-form-urlencoded'' ''name=n&token=gate-a%26b''"

lemma sample_form_reply:
  "fst (handle_admin text_driver sample_admin_env id CreateGate sample_form empty_db ()) =
     HXRedirect (redirect_with ''/admin/gate-tokens'' [(''flash'', ''Token created''), (''new_token'', ''gate-a&b'')])"
proof -
  have "media_type (Header_Get (rq_header sample_form) ''Content-Type'') = form_type" by code_simp
  then have "post_form sample_form = ParseQuery ''name=n&token=gate-a%26b''"
    by (simp add: post_form_def sample_form_def sample_api_request_def maxFormSize_def)
  moreover have "ParseQuery ''name=n&token=gate-a%26b'' = [(''name'', ''n''), (''token'', ''gate-a&b'')]" by code_simp
  moreover have "ParseQuery (rq_rawQuery sample_form) = []" by code_simp
  moreover have "isFormRequest sample_form" by code_simp
  ultimately have "create_gate_request sample_form = Some \<lparr>cg_Name = ''n'', cg_Token = ''gate-a&b''\<rparr>" "wants_redirect sample_form"
    by (simp_all add: create_gate_request_def ParseForm_def Let_def Values_Get_def wants_redirect_def)
  then show ?thesis
    by (simp add: handle_admin_eq Let_def createGateToken_def sample_admin_env_def CreateGateToken_def empty_db_def
        respondSuccess_def)
qed

theorem admin_redirects_read_back_witness:
  "\<exists>path msg vs. leads_to (redirect_with ''/admin/gate-tokens'' [(''flash'', ''Token created''), (''new_token'', ''gate-a&b'')])
     path ((''flash'', msg) # vs) \<and> msg \<in> set flash_messages \<and> path \<in> {''/admin/real-tokens'', ''/admin/gate-tokens''}"
proof -
  obtain s' m' where "handle_admin text_driver sample_admin_env id CreateGate sample_form empty_db () =
     (HXRedirect (redirect_with ''/admin/gate-tokens'' [(''flash'', ''Token created''), (''new_token'', ''gate-a&b'')]), s', m')"
    using sample_form_reply by (metis prod.collapse)
  from admin_redirects_read_back [OF this] show ?thesis by blast
qed

end
