(* ===== verification/Admin_Secrecy.thy ===== *)
theory Admin_Secrecy
  imports Admin_Properties
begin

text \<open>
  The admin API does not reveal the stored access and refresh tokens: what it answers and what it
  changes is the same for two databases that differ only in them.
\<close>

definition pub_row :: "real_row \<Rightarrow> real_row" where
  "pub_row r = r\<lparr>rr_access := [], rr_refresh := []\<rparr>"

definition public :: "db \<Rightarrow> db" where
  "public s = s\<lparr>real_tokens := map pub_row (real_tokens s)\<rparr>"

lemma pub_row_sel [simp]:
  "rr_id (pub_row r) = rr_id r" "rr_created (pub_row r) = rr_created r" "rr_active (pub_row r) = rr_active r"
  "rr_failures (pub_row r) = rr_failures r" "rr_name (pub_row r) = rr_name r"
  by (simp_all add: pub_row_def)

lemma public_sel [simp]:
  "real_tokens (public s) = map pub_row (real_tokens s)" "gate_tokens (public s) = gate_tokens s"
  "usage_logs (public s) = usage_logs s" "usage_seq (public s) = usage_seq s"
  "sticky_sessions (public s) = sticky_sessions s"
  by (simp_all add: public_def)

section \<open>Listing\<close>

lemma sanitized_scan:
  "map_sum id sanitizeRealToken (scanRealToken D (pub_row r)) = map_sum id sanitizeRealToken (scanRealToken D r)"
  by (auto simp: scanRealToken_def sanitizeRealToken_def pub_row_def split: sum.split option.split)

lemma scan_rows_sum: "map_sum id (map h) (scan_rows f rs) = scan_rows (\<lambda>r. map_sum id h (f r)) rs"
  by (induction rs) (auto split: sum.split)

lemma scan_rows_comp: "scan_rows f (map g rs) = scan_rows (\<lambda>r. f (g r)) rs"
  by (induction rs) (auto split: sum.split)

lemma query_rows_sum:
  "map_sum id (map h) (query_rows c msg f rs) = query_rows c msg (\<lambda>r. map_sum id h (f r)) rs"
  by (auto simp: query_rows_def scan_rows_sum [symmetric] split: sum.split)

lemma listRealTokens_sum:
  "listRealTokens D c s = (case map_sum id (map sanitizeRealToken) (ListRealTokens D c s) of
     Inl e \<Rightarrow> writeError 500 ''failed to list real tokens'' | Inr ts \<Rightarrow> writeJSON 200 (RealTokenList ts))"
  by (simp add: listRealTokens_def split: sum.split)

lemma query_rows_comp: "query_rows c msg f (map g rs) = query_rows c msg (\<lambda>r. f (g r)) rs"
  by (simp add: query_rows_def scan_rows_comp)

lemma listRealTokens_public: "listRealTokens D c (public s) = listRealTokens D c s"
  by (simp add: listRealTokens_sum ListRealTokens_def query_rows_sum query_rows_comp order_by_map sanitized_scan)

lemma usage_public:
  "getUsage D c f r (public s) = getUsage D c f r s"
  "getUsageByToken D c f tab i r (public s) = getUsageByToken D c f tab i r s"
  by (cases tab; simp add: getUsage_def getUsageByToken_def handleUsage_def GetUsageStats_def GetUsageStatsByRealToken_def
      GetUsageStatsByGateToken_def queryUsageStats_def)+

section \<open>Changes\<close>

lemma count_token_public [simp]: "count_token tab i (public s) = count_token tab i s"
  by (cases tab) (simp_all add: count_token_def count_where_map)

lemma referenced_public [simp]: "referenced tab i (public s) = referenced tab i s"
  by (cases tab) (simp_all add: referenced_def)

lemma deletes_public [simp]:
  "delete_sticky tab i (public s) = public (delete_sticky tab i s)"
  "delete_usage tab i (public s) = public (delete_usage tab i s)"
  "delete_token tab i (public s) = public (delete_token tab i s)"
  by (cases tab; simp add: delete_sticky_def delete_usage_def delete_token_def public_def filter_map comp_def)+

lemma update_real_public:
  "(\<And>r. f (pub_row r) = pub_row (f r)) \<Longrightarrow> update_real i f (public s) = public (update_real i f s)"
  by (simp add: update_real_def public_def update_where_map)

lemma update_gate_public [simp]: "update_gate i f (public s) = public (update_gate i f s)"
  by (simp add: update_gate_def public_def)

lemma cascade_public: "cascadeDelete c tab i (public s) = map_prod id public (cascadeDelete c tab i s)"
  by (simp add: cascadeDelete_def Let_def)

lemma withTx_public:
  "(\<And>s. body (public s) = map_prod id public (body s)) \<Longrightarrow>
   withTx c k body (public s) = map_prod id public (withTx c k body s)"
  by (auto simp: withTx_def split: option.split prod.split)

lemma ops_public:
  "set_active_op tab c i b (public s) = map_prod id public (set_active_op tab c i b s)"
  "delete_op tab c i (public s) = map_prod id public (delete_op tab c i s)"
  "rename_op tab c i n (public s) = map_prod id public (rename_op tab c i n s)"
  by (cases tab; simp add: set_active_op_def delete_op_def rename_op_def SetRealTokenActive_def SetGateTokenActive_def
      DeleteRealToken_def DeleteGateToken_def UpdateRealToken_def UpdateGateToken_def Let_def
      withTx_public cascade_public update_real_public pub_row_def)+

lemma CreateGateToken_public:
  "CreateGateToken c r1 r2 n k (public s) = map_prod id public (CreateGateToken c r1 r2 n k s)"
  by (simp add: CreateGateToken_def Let_def public_def)

text \<open>A reply with the public part of the state it leaves.\<close>

definition pub3 :: "admin_reply \<times> db \<times> 'm \<Rightarrow> admin_reply \<times> db \<times> 'm" where
  "pub3 x = (fst x, public (fst (snd x)), snd (snd x))"

lemma handlers_public:
  "setTokenActive c f tab i b r (public s) m = pub3 (setTokenActive c f tab i b r s m)"
  "deleteToken c f tab i r (public s) m = pub3 (deleteToken c f tab i r s m)"
  by (simp_all add: handler_ops ops_public pub3_def Let_def split: prod.split option.split)

lemma update_token_public: "update_token c tab i r (public s) m = pub3 (update_token c tab i r s m)"
proof -
  consider (bad) "decode_body update_name_field [] r = None"
    | (empty) "decode_body update_name_field [] r = Some []"
    | (name) name where "decode_body update_name_field [] r = Some name" "name \<noteq> []"
    by (metis option.exhaust)
  then show ?thesis
    by cases (simp_all add: update_ops, simp_all add: update_token_def ops_public pub3_def split: prod.split option.split)
qed

lemma createGateToken_public: "createGateToken c r1 r2 r (public s) m = pub3 (createGateToken c r1 r2 r s m)"
  by (simp add: createGateToken_def CreateGateToken_public pub3_def split: option.split prod.split sum.split)

lemma handle_admin_public:
  "rt \<noteq> CreateReal \<Longrightarrow> handle_admin D A f rt r (public s) m = pub3 (handle_admin D A f rt r s m)"
  by (cases rt)
    (simp_all add: handle_admin_eq Let_def handlers_public update_token_public createGateToken_public,
     simp_all add: pub3_def listRealTokens_public listGateTokens_def ListGateTokens_def usage_public)

lemma CreateRealToken_public:
  assumes "public s1 = public s2" "k \<in> rr_access ` set (real_tokens s1) \<longleftrightarrow> k \<in> rr_access ` set (real_tokens s2)"
  shows "fst (CreateRealToken c rnd n k q s1) = fst (CreateRealToken c rnd n k q s2) \<and>
    public (snd (CreateRealToken c rnd n k q s1)) = public (snd (CreateRealToken c rnd n k q s2))"
proof -
  have rows: "map pub_row (real_tokens s1) = map pub_row (real_tokens s2)"
    using assms(1) by (metis public_sel(1))
  have "map rr_id (map pub_row (real_tokens s)) = map rr_id (real_tokens s)" for s by simp
  with rows have "rr_id ` set (real_tokens s1) = rr_id ` set (real_tokens s2)" by (metis list.set_map)
  with assms(2) have "list_ex (\<lambda>r. rr_id r = newID rnd \<or> rr_access r = k) (real_tokens s1) \<longleftrightarrow>
      list_ex (\<lambda>r. rr_id r = newID rnd \<or> rr_access r = k) (real_tokens s2)"
    unfolding list_ex_iff by (metis (no_types, lifting) image_iff)
  then show ?thesis using assms(1) rows
    by (cases s1; cases s2; simp add: CreateRealToken_def Let_def public_def)
qed

text \<open>
  C17: The admin API keeps the credentials secret, up to one question that it answers.  Let two databases
  differ only in the access and refresh tokens of their real tokens.  Then every authorised call of the API that is
  not a creation of a real token gets the same reply from both and leaves them different only in
  those columns.  So does a creation of a real token whose submitted access token is stored in both
  databases or in neither.  For a creation whose submitted access token is stored in exactly one of them nothing
  is claimed: there the replies differ, since the API refuses an access token that it has already.
\<close>
theorem admin_hides_credentials:
  assumes "public s1 = public s2"
    and "rt = CreateReal \<Longrightarrow> (\<forall>q. create_real_request r = Some q \<longrightarrow>
      (cr_AccessToken q \<in> rr_access ` set (real_tokens s1) \<longleftrightarrow> cr_AccessToken q \<in> rr_access ` set (real_tokens s2)))"
  shows "fst (handle_admin D A f rt r s1 m) = fst (handle_admin D A f rt r s2 m) \<and>
    public (fst (snd (handle_admin D A f rt r s1 m))) = public (fst (snd (handle_admin D A f rt r s2 m))) \<and>
    snd (snd (handle_admin D A f rt r s1 m)) = snd (snd (handle_admin D A f rt r s2 m))"
proof (cases "rt = CreateReal")
  case False
  have "pub3 (handle_admin D A f rt r s1 m) = pub3 (handle_admin D A f rt r s2 m)"
    using handle_admin_public [OF False, of D A f r _ m] assms(1) by metis
  then show ?thesis by (simp add: pub3_def)
next
  case True
  show ?thesis
  proof (cases "create_real_request r")
    case None
    with True assms(1) show ?thesis by (simp add: handle_admin_eq Let_def createRealToken_def)
  next
    case (Some q)
    with assms True have "cr_AccessToken q \<in> rr_access ` set (real_tokens s1) \<longleftrightarrow>
        cr_AccessToken q \<in> rr_access ` set (real_tokens s2)" by blast
    from CreateRealToken_public [OF assms(1) this, of "ae_call A" "ae_rndID A" "cr_Name q" "cr_RefreshToken q"] Some True assms(1)
    show ?thesis by (auto simp: handle_admin_eq Let_def createRealToken_def split: prod.split sum.split)
  qed
qed

definition stored_token :: "string \<Rightarrow> string \<Rightarrow> real_row" where
  "stored_token i secret =
     \<lparr>rr_id = i, rr_name = i, rr_access = secret, rr_refresh = secret, rr_active = 1, rr_failures = 0,
      rr_last_failure = None, rr_last_used = None, rr_in = 0, rr_out = 0,
      rr_created = Bound (UTC 0), rr_updated = Bound (UTC 0)\<rparr>"

theorem admin_hides_credentials_witness:
  "fst (handle_admin text_driver sample_admin_env id ListReal (sample_api_request ''GET'' [] [])
       (empty_db\<lparr>real_tokens := [stored_token ''a'' ''one'']\<rparr>) ()) =
   fst (handle_admin text_driver sample_admin_env id ListReal (sample_api_request ''GET'' [] [])
       (empty_db\<lparr>real_tokens := [stored_token ''a'' ''two'']\<rparr>) ())"
proof -
  have "public (empty_db\<lparr>real_tokens := [stored_token ''a'' ''one'']\<rparr>) = public (empty_db\<lparr>real_tokens := [stored_token ''a'' ''two'']\<rparr>)"
    by (simp add: public_def pub_row_def stored_token_def)
  from admin_hides_credentials [OF this, of ListReal "sample_api_request ''GET'' [] []" text_driver sample_admin_env id "()"]
  show ?thesis by blast
qed

section \<open>Multipart forms\<close>

lemma trim_string_head: "\<not> is_space c \<Longrightarrow> \<exists>v. trim_string (c # w) = c # v"
  by (intro exI [of _ "rev (dropWhile is_space (rev w))"]) (auto simp: trim_string_def dropWhile_append)

text \<open>
  A multipart form is never read.  A client that creates a token with a \<open>multipart/form-data\<close> body is
  taken for a form, but the handlers call \<open>ParseForm\<close>, after which \<open>FormValue\<close> does not look at the
  body: unless the name is in the query, every such request is redirected to the page with the
  message that a name is required, whatever it sends, and nothing is created.
\<close>
theorem multipart_forms_refused:
  assumes "HasPrefix (Header_Get (rq_header r) ''Content-Type'') multipart_type"
    and "Values_Get (ParseQuery (rq_rawQuery r)) ''name'' = []"
  shows "handle_admin D A f CreateReal r s m =
      (HXRedirect (adminRedirect ''/admin/real-tokens'' ''Name and access_token are required''), s, m) \<and>
    handle_admin D A f CreateGate r s m =
      (HXRedirect (adminRedirect ''/admin/gate-tokens'' ''Name is required''), s, m)"
proof -
  let ?ct = "Header_Get (rq_header r) ''Content-Type''"
  have "media_type ?ct \<noteq> form_type"
  proof -
    obtain t where t: "?ct = multipart_type @ t" using assms(1) by (auto simp: HasPrefix_iff)
    obtain u where "map lower_char (fst (Cut (CHR '';'') ?ct)) = CHR ''m'' # u"
      unfolding t by (simp add: Cut_def multipart_type_def lower_char_def)
    then have "\<exists>v. media_type ?ct = CHR ''m'' # v"
      using trim_string_head [of "CHR ''m''" u] by (simp add: media_type_def is_space_def)
    then show ?thesis by (auto simp: form_type_def)
  qed
  then have "ParseForm r = ParseQuery (rq_rawQuery r)" by (simp add: ParseForm_def post_form_def)
  moreover have "isFormRequest r" using assms(1) by (simp add: isFormRequest_def Let_def)
  ultimately show ?thesis
    using assms(2)
    by (simp add: handle_admin_eq Let_def createRealToken_def create_real_request_def createGateToken_def
        create_gate_request_def respondError_def wants_redirect_def)
qed

definition multipart_request :: http_request where
  "multipart_request =
     (sample_api_request ''POST'' ''multipart/form-data; boundary=x'' ''...'')"

theorem multipart_forms_refused_witness:
  "handle_admin text_driver sample_admin_env id CreateGate multipart_request empty_db () =
     (HXRedirect (adminRedirect ''/admin/gate-tokens'' ''Name is required''), empty_db, ())"
proof -
  have ct: "HasPrefix (Header_Get (rq_header multipart_request) ''Content-Type'') multipart_type"
    by (simp add: multipart_request_def sample_api_request_def Header_Get_def multipart_type_def)
  have q: "Values_Get (ParseQuery (rq_rawQuery multipart_request)) ''name'' = []" by code_simp
  show ?thesis by (rule multipart_forms_refused [OF ct q, THEN conjunct2])
qed

end
