(* ===== verification/Web.thy ===== *)
theory Web
  imports Admin
begin

text \<open>
  web/handler.go: the web UI.  Its state is the cache of login sessions, a \<open>ttlcache\<close> from session
  tokens to \<open>True\<close>; the database is only read.  A page is its data here; \<open>Pages\<close> renders it.
\<close>

section \<open>Replies\<close>

record dashboard =
  da_RealTokenCount :: nat
  da_ActiveRealTokenCount :: nat
  da_GateTokenCount :: nat
  da_ActiveGateTokenCount :: nat
  da_Usage24h :: UsageStats

datatype web_page =
    LoginPage string
  | DashboardPage dashboard
  | RealTokensPage "RealToken list" "string \<rightharpoonup> UsageStats" string
  | GateTokensPage "GateToken list" "string \<rightharpoonup> UsageStats" string string

datatype web_reply =
    Html web_page
  | TextError int go_error
  | SeeOther string "set_cookie option"

section \<open>Sessions\<close>

definition sessionCookieName :: string where
  "sessionCookieName = ''claude_gate_session''"

definition sessionTTL :: int where
  "sessionTTL = 24 * 3600 * second"

definition generateSessionToken :: "bytes \<Rightarrow> string" where
  "generateSessionToken rnd = hex_encode rnd"

definition ValidateSession :: "('w, bool) ttlcache \<Rightarrow> int \<Rightarrow> http_request \<Rightarrow> 'w \<Rightarrow> bool \<times> 'w" where
  "ValidateSession W now r w =
     (case request_cookie sessionCookieName r of
        None \<Rightarrow> (False, w)
      | Some v \<Rightarrow> (case tc_get W w now v of (item, w') \<Rightarrow> (item \<noteq> None, w')))"

text \<open>\<open>http.Redirect\<close> to a path below the root leaves it as it is.\<close>

definition requireAuth ::
  "('w, bool) ttlcache \<Rightarrow> int \<Rightarrow> http_request \<Rightarrow> web_reply \<Rightarrow> 'w \<Rightarrow> web_reply \<times> 'w" where
  "requireAuth W now r page w =
     (case request_cookie sessionCookieName r of
        None \<Rightarrow> (SeeOther ''/admin/login'' None, w)
      | Some v \<Rightarrow>
          (case tc_get W w now v of
             (None, w') \<Rightarrow> (SeeOther ''/admin/login'' None, w')
           | (Some _, w') \<Rightarrow> (page, w')))"

definition loginPage :: web_reply where
  "loginPage = Html (LoginPage [])"

definition session_cookie :: "string \<Rightarrow> set_cookie" where
  "session_cookie token =
     \<lparr>sc_Name = sessionCookieName, sc_Value = token, sc_Path = ''/admin'', sc_HttpOnly = True,
      sc_SameSite = ''Lax'',
      sc_MaxAge = sessionTTL div second\<rparr>"

definition loginSubmit ::
  "('w, bool) ttlcache \<Rightarrow> string \<Rightarrow> (http_request \<Rightarrow> url_values) \<Rightarrow> int \<Rightarrow> bytes \<Rightarrow> http_request \<Rightarrow> 'w \<Rightarrow>
     web_reply \<times> 'w" where
  "loginSubmit W adminSecret multipart now rnd r w =
     (if FormValue multipart r ''secret'' \<noteq> adminSecret
      then (Html (LoginPage ''Invalid admin secret''), w)
      else let token = generateSessionToken rnd in
        (SeeOther ''/admin/'' (Some (session_cookie token)), tc_set W w now token True sessionTTL))"

definition logout :: "('w, bool) ttlcache \<Rightarrow> http_request \<Rightarrow> 'w \<Rightarrow> web_reply \<times> 'w" where
  "logout W r w =
     (SeeOther ''/admin/login''
        (Some \<lparr>sc_Name = sessionCookieName, sc_Value = [], sc_Path = ''/admin'', sc_HttpOnly = False,
           sc_SameSite = [], sc_MaxAge = - 1\<rparr>),
      case request_cookie sessionCookieName r of None \<Rightarrow> w | Some v \<Rightarrow> tc_delete W w v)"

section \<open>Pages\<close>

text \<open>
  A page makes several store calls; \<open>calls k\<close> is what the \<open>k\<close>-th meets.  \<open>local t\<close> is the offset of
  the server's time zone at the instant \<open>t\<close>: \<open>time.Now\<close> and \<open>time.Unix\<close> return local times.
\<close>

definition dashboard_page :: "driver \<Rightarrow> (nat \<Rightarrow> callenv) \<Rightarrow> (int \<Rightarrow> int) \<Rightarrow> db \<Rightarrow> web_reply" where
  "dashboard_page D calls local s =
     (case ListRealTokens D (calls 0) s of
        Inl e \<Rightarrow> TextError 500 e
      | Inr realTokens \<Rightarrow>
          (case ListGateTokens D (calls 1) s of
             Inl e \<Rightarrow> TextError 500 e
           | Inr gateTokens \<Rightarrow>
               (let t = clock (calls 2) - 24 * 3600 * second in
                case GetUsageStats D (calls 2) (GoTime t (local t)) s of
                  Inl e \<Rightarrow> TextError 500 e
                | Inr usage24h \<Rightarrow>
                    Html (DashboardPage
                      \<lparr>da_RealTokenCount = length realTokens,
                       da_ActiveRealTokenCount = count_where rt_IsActive realTokens,
                       da_GateTokenCount = length gateTokens,
                       da_ActiveGateTokenCount = count_where gt_IsActive gateTokens,
                       da_Usage24h = usage24h\<rparr>))))"

fun collect_stats ::
  "(callenv \<Rightarrow> string \<Rightarrow> go_error + UsageStats) \<Rightarrow> (nat \<Rightarrow> callenv) \<Rightarrow> nat \<Rightarrow> string list \<Rightarrow>
     (string \<rightharpoonup> UsageStats) \<Rightarrow> go_error + (string \<rightharpoonup> UsageStats)" where
  "collect_stats query calls k [] acc = Inr acc"
| "collect_stats query calls k (i # is) acc =
     (case query (calls k) i of
        Inl e \<Rightarrow> Inl e
      | Inr stats \<Rightarrow> collect_stats query calls (k + 1) is (acc(i \<mapsto> stats)))"

definition realTokensPage ::
  "driver \<Rightarrow> (nat \<Rightarrow> callenv) \<Rightarrow> (int \<Rightarrow> int) \<Rightarrow> http_request \<Rightarrow> db \<Rightarrow> web_reply" where
  "realTokensPage D calls local r s =
     (case ListRealTokens D (calls 0) s of
        Inl e \<Rightarrow> TextError 500 e
      | Inr tokens \<Rightarrow>
          (case collect_stats (\<lambda>c i. GetUsageStatsByRealToken D c i (GoTime 0 (local 0)) s) calls 1
                  (map rt_ID tokens) (\<lambda>_. None) of
             Inl e \<Rightarrow> TextError 500 e
           | Inr cacheStats \<Rightarrow>
               Html (RealTokensPage tokens cacheStats (Values_Get (ParseQuery (rq_rawQuery r)) ''flash''))))"

definition gateTokensPage ::
  "driver \<Rightarrow> (nat \<Rightarrow> callenv) \<Rightarrow> (int \<Rightarrow> int) \<Rightarrow> http_request \<Rightarrow> db \<Rightarrow> web_reply" where
  "gateTokensPage D calls local r s =
     (case ListGateTokens D (calls 0) s of
        Inl e \<Rightarrow> TextError 500 e
      | Inr tokens \<Rightarrow>
          (case collect_stats (\<lambda>c i. GetUsageStatsByGateToken D c i (GoTime 0 (local 0)) s) calls 1
                  (map gt_ID tokens) (\<lambda>_. None) of
             Inl e \<Rightarrow> TextError 500 e
           | Inr cacheStats \<Rightarrow>
               Html (GateTokensPage tokens cacheStats (Values_Get (ParseQuery (rq_rawQuery r)) ''flash'')
                 (Values_Get (ParseQuery (rq_rawQuery r)) ''new_token''))))"

section \<open>Routes\<close>

datatype web_route = LoginForm | LoginSubmit | Logout | Dashboard | RealTokensUI | GateTokensUI

text \<open>
  \<open>RegisterRoutes\<close>: the method and the segments below \<open>/admin\<close> (\<open>[""]\<close> for \<open>/admin/\<close> itself).  The
  pattern \<open>GET /admin/\<close> takes every GET that no other pattern of the program takes; the static files
  are served by the library and are left out here, the caller takes them away first.
\<close>

definition RegisterRoutes :: "string \<Rightarrow> string list \<Rightarrow> web_route option" where
  "RegisterRoutes method segs =
     (if segs = [''login''] \<and> method = ''POST'' then Some LoginSubmit
      else if \<not> is_get method then None
      else if segs = [''login''] then Some LoginForm
      else if segs = [''logout''] then Some Logout
      else if segs = [''real-tokens''] then Some RealTokensUI
      else if segs = [''gate-tokens''] then Some GateTokensUI
      else Some Dashboard)"

record web_env =
  we_calls :: "nat \<Rightarrow> callenv"
  we_local :: "int \<Rightarrow> int"
  we_rnd :: bytes
  we_multipart :: "http_request \<Rightarrow> url_values"

definition we_now :: "web_env \<Rightarrow> int" where
  "we_now E = clock (we_calls E 0)"

definition serve_web ::
  "driver \<Rightarrow> ('w, bool) ttlcache \<Rightarrow> string \<Rightarrow> web_env \<Rightarrow> web_route \<Rightarrow> http_request \<Rightarrow> db \<Rightarrow> 'w \<Rightarrow> web_reply \<times> 'w" where
  "serve_web D W secret E route r s w =
     (case route of
        LoginForm \<Rightarrow> (loginPage, w)
      | LoginSubmit \<Rightarrow> loginSubmit W secret (we_multipart E) (we_now E) (we_rnd E) r w
      | Logout \<Rightarrow> logout W r w
      | Dashboard \<Rightarrow> requireAuth W (we_now E) r (dashboard_page D (we_calls E) (we_local E) s) w
      | RealTokensUI \<Rightarrow> requireAuth W (we_now E) r (realTokensPage D (we_calls E) (we_local E) r s) w
      | GateTokensUI \<Rightarrow> requireAuth W (we_now E) r (gateTokensPage D (we_calls E) (we_local E) r s) w)"

text \<open>\<open>securityHeaders\<close>.\<close>

definition securityHeaders :: "http_header \<Rightarrow> http_header" where
  "securityHeaders h =
     Header_Set
       (Header_Set (Header_Set h ''X-Frame-Options'' ''DENY'') ''X-Content-Type-Options'' ''nosniff'')
       ''Content-Security-Policy''
       (''default-src '' @ [CHR 0x27] @ ''self'' @ [CHR 0x27] @ ''; script-src '' @ [CHR 0x27] @ ''self'' @ [CHR 0x27] @
        '' '' @ [CHR 0x27] @ ''unsafe-inline'' @ [CHR 0x27] @ ''; style-src '' @ [CHR 0x27] @ ''self'' @ [CHR 0x27] @
        '' '' @ [CHR 0x27] @ ''unsafe-inline'' @ [CHR 0x27])"

end
