(* ===== verification/Configuration.thy ===== *)
theory Configuration
  imports Url Sql
begin

text \<open>
  internal/config/config.go and internal/logging/logging.go: the settings read from the environment,
  the warnings about them, and the log level.
\<close>

section \<open>Paths\<close>

text \<open>\<open>filepath.Clean\<close> and \<open>filepath.Dir\<close> with the separator \<open>/\<close>.\<close>

fun clean_onto :: "bool \<Rightarrow> string list \<Rightarrow> string list \<Rightarrow> string list" where
  "clean_onto rooted out [] = rev out"
| "clean_onto rooted out (w # ws) =
     (if w = [] \<or> w = ''.'' then clean_onto rooted out ws
      else if w = ''..'' then
        (case out of
           [] \<Rightarrow> clean_onto rooted (if rooted then [] else [w]) ws
         | v # vs \<Rightarrow> if v = ''..'' then clean_onto rooted (w # out) ws else clean_onto rooted vs ws)
      else clean_onto rooted (w # out) ws)"

fun join_slash :: "string list \<Rightarrow> string" where
  "join_slash [] = []"
| "join_slash [s] = s"
| "join_slash (s # t # ss) = s @ CHR ''/'' # join_slash (t # ss)"

definition Clean :: "string \<Rightarrow> string" where
  "Clean p =
     (let rooted = HasPrefix p ''/'';
          r = (if rooted then ''/'' else []) @ join_slash (clean_onto rooted [] (split_on (CHR ''/'') p)) in
      if r = [] then ''.'' else r)"

definition Dir :: "string \<Rightarrow> string" where
  "Dir p = Clean (rev (dropWhile (\<lambda>c. c \<noteq> CHR ''/'') (rev p)))"

section \<open>Loading\<close>

record Config =
  cf_Addr :: string
  cf_DBPath :: string
  cf_AdminSecret :: string
  cf_UpstreamURL :: string
  cf_StickyTTL :: int
  cf_MaxFailures :: int
  cf_LogLevel :: string

text \<open>
  \<open>os.Getenv\<close> is a function that is empty on a variable that is not set; \<open>flt\<close> is the parameter of
  \<open>ParseDuration\<close>.
\<close>

type_synonym environ = "string \<Rightarrow> string"

definition envOr :: "environ \<Rightarrow> string \<Rightarrow> string \<Rightarrow> string" where
  "envOr getenv key fallback = (let v = getenv key in if v \<noteq> [] then v else fallback)"

definition envDuration :: "(nat \<Rightarrow> nat \<Rightarrow> nat \<Rightarrow> nat) \<Rightarrow> environ \<Rightarrow> string \<Rightarrow> int \<Rightarrow> int" where
  "envDuration flt getenv key fallback =
     (let v = getenv key in
      if v \<noteq> [] then (case ParseDuration flt v of Some d \<Rightarrow> d | None \<Rightarrow> fallback) else fallback)"

definition envInt :: "environ \<Rightarrow> string \<Rightarrow> int \<Rightarrow> int" where
  "envInt getenv key fallback =
     (let v = getenv key in
      if v \<noteq> [] then (case Atoi v of Some n \<Rightarrow> n | None \<Rightarrow> fallback) else fallback)"

definition default_sticky_ttl :: int where
  "default_sticky_ttl = 10 * 60 * second"

definition default_max_failures :: int where
  "default_max_failures = 5"

definition Load :: "(nat \<Rightarrow> nat \<Rightarrow> nat \<Rightarrow> nat) \<Rightarrow> environ \<Rightarrow> string + Config" where
  "Load flt getenv =
     (let cfg = \<lparr>cf_Addr = envOr getenv ''CLAUDE_GATE_ADDR'' '':8080'',
                 cf_DBPath = envOr getenv ''CLAUDE_GATE_DB_PATH'' ''./claude-gate.db'',
                 cf_AdminSecret = getenv ''CLAUDE_GATE_ADMIN_SECRET'',
                 cf_UpstreamURL = envOr getenv ''CLAUDE_GATE_UPSTREAM_URL'' ''https://api.anthropic.com'',
                 cf_StickyTTL = envDuration flt getenv ''CLAUDE_GATE_STICKY_TTL'' default_sticky_ttl,
                 cf_MaxFailures = envInt getenv ''CLAUDE_GATE_MAX_FAILURES'' default_max_failures,
                 cf_LogLevel = envOr getenv ''CLAUDE_GATE_LOG_LEVEL'' ''info''\<rparr> in
      if cf_AdminSecret cfg = [] then Inl ''CLAUDE_GATE_ADMIN_SECRET is required'' else Inr cfg)"

section \<open>Validation\<close>

text \<open>The warnings, with the value and the default they print.\<close>

datatype config_warning =
    InvalidUpstreamURL string
  | NoDirectory string
  | BadStickyTTL string int
  | BadMaxFailures string int

text \<open>
  \<open>authority\<close> is the parameter of \<open>url.Parse\<close>, \<open>absent\<close> says of which directories \<open>os.Stat\<close> reports
  that they do not exist.
\<close>

definition Validate ::
  "(nat \<Rightarrow> nat \<Rightarrow> nat \<Rightarrow> nat) \<Rightarrow> (string \<Rightarrow> string option) \<Rightarrow> (string \<Rightarrow> bool) \<Rightarrow> environ \<Rightarrow> Config \<Rightarrow>
     config_warning list" where
  "Validate flt authority absent getenv c =
     (let dir = Dir (cf_DBPath c);
          ttl = getenv ''CLAUDE_GATE_STICKY_TTL'';
          mf = getenv ''CLAUDE_GATE_MAX_FAILURES'' in
      (case url_Parse authority (cf_UpstreamURL c) of
         None \<Rightarrow> [InvalidUpstreamURL (cf_UpstreamURL c)]
       | Some u \<Rightarrow> if url_Scheme u = [] then [InvalidUpstreamURL (cf_UpstreamURL c)] else []) @
      (if dir \<noteq> ''.'' \<and> dir \<noteq> [] \<and> absent dir then [NoDirectory dir] else []) @
      (if ttl \<noteq> [] \<and> ParseDuration flt ttl = None then [BadStickyTTL ttl (cf_StickyTTL c)] else []) @
      (if mf \<noteq> [] \<and> Atoi mf = None then [BadMaxFailures mf (cf_MaxFailures c)] else []))"

section \<open>Log level\<close>

datatype slog_level = LevelDebug | LevelInfo | LevelWarn | LevelError

definition SetupLogger :: "string \<Rightarrow> slog_level" where
  "SetupLogger level =
     (let l = map lower_char level in
      if l = ''debug'' then LevelDebug else if l = ''warn'' then LevelWarn
      else if l = ''error'' then LevelError else LevelInfo)"

section \<open>Properties\<close>

lemma default_fits [simp]: "fits64 default_sticky_ttl" "fits64 default_max_failures"
  by (simp_all add: fits64_def default_sticky_ttl_def default_max_failures_def int64_min_def int64_max_def second_def)

lemma envDuration_fits: "fits64 fallback \<Longrightarrow> fits64 (envDuration flt getenv key fallback)"
  by (auto simp: envDuration_def Let_def dest: ParseDuration_fits split: option.split)

lemma envInt_fits: "fits64 fallback \<Longrightarrow> fits64 (envInt getenv key fallback)"
  by (auto simp: envInt_def Let_def dest: Atoi_fits split: option.split)

text \<open>
  C40: Loading the configuration.  It fails exactly without an admin secret; otherwise every text
  setting is non-empty and every number fits its 64-bit type, whatever the environment holds.
\<close>
theorem config_load_bounds:
  "case Load flt getenv of
     Inl e \<Rightarrow> e = ''CLAUDE_GATE_ADMIN_SECRET is required'' \<and> getenv ''CLAUDE_GATE_ADMIN_SECRET'' = []
   | Inr c \<Rightarrow> cf_AdminSecret c = getenv ''CLAUDE_GATE_ADMIN_SECRET'' \<and> cf_AdminSecret c \<noteq> [] \<and>
       cf_Addr c \<noteq> [] \<and> cf_DBPath c \<noteq> [] \<and> cf_UpstreamURL c \<noteq> [] \<and> cf_LogLevel c \<noteq> [] \<and>
       fits64 (cf_StickyTTL c) \<and> fits64 (cf_MaxFailures c)"
  by (simp add: Load_def Let_def envOr_def envDuration_fits envInt_fits)

text \<open>
  The numeric settings and the warnings about them.  A duration written as a whole number of one
  unit and an integer printed in decimal are read back exactly and without a warning; any other
  value warns only if it does not parse, and then the default is in force, which is the value the
  warning prints.
\<close>
theorem config_numbers:
  assumes "Load flt getenv = Inr c"
  shows "(\<forall>n u unit. (u, unit) \<in> set unitMap \<longrightarrow> n * unit < 2 ^ 63 \<longrightarrow>
           getenv ''CLAUDE_GATE_STICKY_TTL'' = nat_digits n @ u \<longrightarrow> cf_StickyTTL c = int (n * unit)) \<and>
    (\<forall>n. fits64 n \<longrightarrow> getenv ''CLAUDE_GATE_MAX_FAILURES'' = fmt_d n \<longrightarrow> cf_MaxFailures c = n) \<and>
    (\<forall>v d. BadStickyTTL v d \<in> set (Validate flt authority absent getenv c) \<longleftrightarrow>
       v = getenv ''CLAUDE_GATE_STICKY_TTL'' \<and> v \<noteq> [] \<and> ParseDuration flt v = None \<and> d = default_sticky_ttl) \<and>
    (\<forall>v d. BadMaxFailures v d \<in> set (Validate flt authority absent getenv c) \<longleftrightarrow>
       v = getenv ''CLAUDE_GATE_MAX_FAILURES'' \<and> v \<noteq> [] \<and> Atoi v = None \<and> d = default_max_failures)"
proof -
  have c: "cf_StickyTTL c = envDuration flt getenv ''CLAUDE_GATE_STICKY_TTL'' default_sticky_ttl"
    "cf_MaxFailures c = envInt getenv ''CLAUDE_GATE_MAX_FAILURES'' default_max_failures"
    using assms by (auto simp: Load_def Let_def split: if_splits)
  have "fmt_d n \<noteq> []" for n using nat_digits_head [of "nat \<bar>n\<bar>"] by (auto simp: fmt_d_def)
  moreover have "nat_digits n @ u \<noteq> []" for n u using nat_digits_head [of n] by auto
  ultimately show ?thesis
    unfolding c
    by (auto simp: Validate_def Let_def c envDuration_def envInt_def ParseDuration_unit Atoi_fmt split: option.splits)
qed

definition sample_environ :: environ where
  "sample_environ = (\<lambda>_. [])(''CLAUDE_GATE_ADMIN_SECRET'' := ''s3cret'', ''CLAUDE_GATE_STICKY_TTL'' := ''30m'',
     ''CLAUDE_GATE_MAX_FAILURES'' := ''three'')"

lemma sample_Load: "\<exists>c. Load flt sample_environ = Inr c"
  by (simp add: Load_def Let_def sample_environ_def)

theorem config_numbers_witness:
  "\<exists>c. Load (\<lambda>_ _ _. 0) sample_environ = Inr c \<and> cf_StickyTTL c = 30 * 60 * second \<and>
     BadMaxFailures ''three'' 5 \<in> set (Validate (\<lambda>_ _ _. 0) Some (\<lambda>_. False) sample_environ c)"
proof -
  obtain c where c: "Load (\<lambda>_ _ _. 0) sample_environ = Inr c" using sample_Load by blast
  note p = config_numbers [OF c, of Some "\<lambda>_. False"]
  have u: "(''m'', 60000000000) \<in> set unitMap" by (simp add: unitMap_def)
  have d: "sample_environ ''CLAUDE_GATE_STICKY_TTL'' = nat_digits 30 @ ''m''" by code_simp
  have a: "Atoi ''three'' = None" by code_simp
  have e: "sample_environ ''CLAUDE_GATE_MAX_FAILURES'' = ''three''" by (simp add: sample_environ_def)
  from conjunct1 [OF p, rule_format, OF u _ d] have "cf_StickyTTL c = 30 * 60 * second"
    by (simp add: second_def)
  moreover from p have "BadMaxFailures ''three'' default_max_failures
      \<in> set (Validate (\<lambda>_ _ _. 0) Some (\<lambda>_. False) sample_environ c)"
    unfolding e by (simp only: a) simp
  ultimately show ?thesis using c by (auto simp: default_max_failures_def)
qed

end
