(* ===== verification/Migrate.thy ===== *)
theory Migrate
  imports Url Sql
begin

text \<open>
  internal/store/store.go, \<open>New\<close> and \<open>migrate\<close>: opening the database and bringing its schema up to
  date with the SQL files embedded in the binary (internal/store/migrations).
\<close>

section \<open>Files and versions\<close>

text \<open>An entry of the embedded directory: its name, whether it is a directory, its content.\<close>

type_synonym 'f entry = "string \<times> bool \<times> 'f"

definition HasSuffix :: "string \<Rightarrow> string \<Rightarrow> bool" where
  "HasSuffix s p = HasPrefix (rev s) (rev p)"

record 'f migration =
  mi_version :: int
  mi_name :: string
  mi_content :: 'f

text \<open>\<open>strings.SplitN(name, "_", 2)\<close> has two parts exactly if the name has an underscore.\<close>

definition migration_of :: "'f entry \<Rightarrow> 'f migration option" where
  "migration_of e =
     (case e of (name, isDir, content) \<Rightarrow>
        if isDir \<or> \<not> HasSuffix name ''.sql'' then None
        else if CHR ''_'' \<notin> set name then None
        else case Atoi (fst (Cut (CHR ''_'') name)) of
          None \<Rightarrow> None
        | Some v \<Rightarrow> Some \<lparr>mi_version = v, mi_name = name, mi_content = content\<rparr>)"

definition migrations :: "'f entry list \<Rightarrow> 'f migration list" where
  "migrations entries = order_by (\<le>) mi_version (List.map_filter migration_of entries)"

section \<open>Running them\<close>

text \<open>
  The database: the rows of \<open>schema_migrations\<close> and everything else in it, which only the embedded
  SQL changes.
\<close>

record 's mig_db =
  md_versions :: "int list"
  md_schema :: 's

text \<open>
  What a start meets: which opens and driver calls fail, which rows of the applied versions do not
  scan, and after how many rows the driver breaks off the iteration over them, if it does.
\<close>

record start_env =
  se_openWrite :: bool
  se_openRead :: bool
  se_fault :: "nat \<Rightarrow> bool"
  se_scan :: "nat \<Rightarrow> bool"
  se_broken :: "nat option"

text \<open>
  The loop over the rows, from the \<open>k\<close>-th on.  A row that does not scan is an error; \<open>rows.Err\<close> is not
  asked, so a read that breaks off looks like a short table.
\<close>

fun read_versions :: "start_env \<Rightarrow> nat \<Rightarrow> int list \<Rightarrow> go_error + int list" where
  "read_versions E k [] = Inr []"
| "read_versions E k (v # vs) =
     (if se_broken E = Some k then Inr []
      else if se_scan E k then Inl (Wrap ''scan migration version'' ErrScan)
      else case read_versions E (k + 1) vs of Inl e \<Rightarrow> Inl e | Inr applied \<Rightarrow> Inr (v # applied))"

text \<open>
  One migration in its own transaction, its driver calls numbered from \<open>k\<close>: begin, the file, the
  version, commit.  \<open>exec\<close> is the effect of a file on the schema, \<open>None\<close> when SQLite refuses it; a
  version is a primary key.
\<close>

definition run_migration ::
  "('f \<Rightarrow> 's \<Rightarrow> 's option) \<Rightarrow> start_env \<Rightarrow> nat \<Rightarrow> 'f migration \<Rightarrow> 's mig_db \<Rightarrow> go_error option \<times> 's mig_db" where
  "run_migration exec E k m d =
     (if se_fault E k then (Some (Wrap (''begin tx for migration '' @ mi_name m) ErrDriver), d)
      else if se_fault E (k + 1) then (Some (Wrap (''exec migration '' @ mi_name m) ErrDriver), d)
      else case exec (mi_content m) (md_schema d) of
        None \<Rightarrow> (Some (Wrap (''exec migration '' @ mi_name m) (ErrConstraint ''SQL'')), d)
      | Some s \<Rightarrow>
          if se_fault E (k + 2) then (Some (Wrap (''record migration '' @ mi_name m) ErrDriver), d)
          else if mi_version m \<in> set (md_versions d)
          then (Some (Wrap (''record migration '' @ mi_name m) (ErrConstraint ''UNIQUE'')), d)
          else if se_fault E (k + 3) then (Some (Wrap (''commit migration '' @ mi_name m) ErrDriver), d)
          else (None, \<lparr>md_versions = md_versions d @ [mi_version m], md_schema = s\<rparr>))"

fun run_migrations ::
  "('f \<Rightarrow> 's \<Rightarrow> 's option) \<Rightarrow> start_env \<Rightarrow> nat \<Rightarrow> int list \<Rightarrow> 'f migration list \<Rightarrow> 's mig_db \<Rightarrow>
     go_error option \<times> 's mig_db" where
  "run_migrations exec E k applied [] d = (None, d)"
| "run_migrations exec E k applied (m # ms) d =
     (if mi_version m \<in> set applied then run_migrations exec E k applied ms d
      else case run_migration exec E k m d of
        (Some e, d') \<Rightarrow> (Some e, d')
      | (None, d') \<Rightarrow> run_migrations exec E (k + 4) applied ms d')"

text \<open>Driver call 0 creates \<open>schema_migrations\<close> if it is missing, call 1 reads it.\<close>

definition migrate ::
  "('f \<Rightarrow> 's \<Rightarrow> 's option) \<Rightarrow> start_env \<Rightarrow> 'f entry list \<Rightarrow> 's mig_db \<Rightarrow> go_error option \<times> 's mig_db" where
  "migrate exec E entries d =
     (if se_fault E 0 then (Some (Wrap ''create migrations table'' ErrDriver), d)
      else if se_fault E 1 then (Some (Wrap ''query migrations'' ErrDriver), d)
      else case read_versions E 0 (md_versions d) of
        Inl e \<Rightarrow> (Some e, d)
      | Inr applied \<Rightarrow> run_migrations exec E 2 applied (migrations entries) d)"

text \<open>\<open>New\<close>: the error, or \<open>None\<close> when the store is usable.\<close>

definition New ::
  "('f \<Rightarrow> 's \<Rightarrow> 's option) \<Rightarrow> start_env \<Rightarrow> 'f entry list \<Rightarrow> 's mig_db \<Rightarrow> go_error option \<times> 's mig_db" where
  "New exec E entries d =
     (if se_openWrite E then (Some (Wrap ''open write db'' ErrDriver), d)
      else if se_openRead E then (Some (Wrap ''open read db'' ErrDriver), d)
      else case migrate exec E entries d of
        (Some e, d') \<Rightarrow> (Some (Wrap ''migrate'' e), d')
      | (None, d') \<Rightarrow> (None, d'))"

section \<open>The embedded files\<close>

text \<open>
  The statements of the two files.  All have \<open>IF NOT EXISTS\<close>; \<open>dup\<close> tells of a unique index whether
  the rows that are there already violate it, in which case SQLite refuses to create it.
\<close>

datatype ddl = CreateTable string | CreateIndex bool string string

definition exec_ddl :: "(string \<Rightarrow> bool) \<Rightarrow> ddl \<Rightarrow> string list \<Rightarrow> string list option" where
  "exec_ddl dup st objs =
     (case st of
        CreateTable t \<Rightarrow> Some (if t \<in> set objs then objs else objs @ [t])
      | CreateIndex unique i t \<Rightarrow>
          if t \<notin> set objs then None
          else if i \<in> set objs then Some objs
          else if unique \<and> dup i then None else Some (objs @ [i]))"

fun exec_file :: "(string \<Rightarrow> bool) \<Rightarrow> ddl list \<Rightarrow> string list \<Rightarrow> string list option" where
  "exec_file dup [] objs = Some objs"
| "exec_file dup (st # sts) objs = (case exec_ddl dup st objs of None \<Rightarrow> None | Some o' \<Rightarrow> exec_file dup sts o')"

definition initial_sql :: "ddl list" where
  "initial_sql =
     [CreateTable ''real_tokens'', CreateTable ''gate_tokens'',
      CreateIndex True ''idx_gate_tokens_token'' ''gate_tokens'',
      CreateTable ''usage_logs'',
      CreateIndex False ''idx_usage_logs_gate_token_id'' ''usage_logs'',
      CreateIndex False ''idx_usage_logs_real_token_id'' ''usage_logs'',
      CreateIndex False ''idx_usage_logs_created_at'' ''usage_logs'',
      CreateTable ''sticky_sessions'', CreateTable ''schema_migrations'']"

definition indexes_and_cascades_sql :: "ddl list" where
  "indexes_and_cascades_sql =
     [CreateIndex True ''idx_real_tokens_access_token'' ''real_tokens'',
      CreateIndex False ''idx_sticky_sessions_expires_at'' ''sticky_sessions'']"

definition migrationsFS :: "ddl list entry list" where
  "migrationsFS =
     [(''001_initial.sql'', False, initial_sql),
      (''002_indexes_and_cascades.sql'', False, indexes_and_cascades_sql)]"

section \<open>Lemmas\<close>

text \<open>The clean run: the files one after the other.\<close>

fun clean_run :: "('f \<Rightarrow> 's \<Rightarrow> 's option) \<Rightarrow> 'f migration list \<Rightarrow> 's \<Rightarrow> 's option" where
  "clean_run exec [] s = Some s"
| "clean_run exec (m # ms) s = (case exec (mi_content m) s of None \<Rightarrow> None | Some s' \<Rightarrow> clean_run exec ms s')"

text \<open>The abstract state: how many of the migrations, in ascending order, have been applied.\<close>

definition migrated ::
  "('f \<Rightarrow> 's \<Rightarrow> 's option) \<Rightarrow> 'f migration list \<Rightarrow> 's \<Rightarrow> nat \<Rightarrow> 's mig_db \<Rightarrow> bool" where
  "migrated exec ms s0 n d \<longleftrightarrow>
     n \<le> length ms \<and> md_versions d = map mi_version (take n ms) \<and>
     clean_run exec (take n ms) s0 = Some (md_schema d)"

lemma clean_run_append:
  "clean_run exec (xs @ ys) s = (case clean_run exec xs s of None \<Rightarrow> None | Some s' \<Rightarrow> clean_run exec ys s')"
  by (induction xs arbitrary: s) (auto split: option.split)

lemma run_migration_cases:
  "run_migration exec E k m d = (e, d') \<Longrightarrow>
     (e \<noteq> None \<and> d' = d) \<or>
     (e = None \<and> mi_version m \<notin> set (md_versions d) \<and> md_versions d' = md_versions d @ [mi_version m] \<and>
      exec (mi_content m) (md_schema d) = Some (md_schema d'))"
  by (auto simp: run_migration_def split: if_splits option.splits)

lemma run_migration_ok:
  assumes "\<And>i. \<not> se_fault E i" "mi_version m \<notin> set (md_versions d)" "exec (mi_content m) (md_schema d) = Some s"
  shows "run_migration exec E k m d = (None, \<lparr>md_versions = md_versions d @ [mi_version m], md_schema = s\<rparr>)"
  using assms by (simp add: run_migration_def)

text \<open>One migration advances the abstract state by one, or leaves it.\<close>

lemma migrated_step:
  assumes "migrated exec ms s0 n d" "n < length ms" "run_migration exec E k (ms ! n) d = (None, d')"
  shows "migrated exec ms s0 (Suc n) d'"
  using assms run_migration_cases [OF assms(3)]
  by (auto simp: migrated_def take_Suc_conv_app_nth clean_run_append split: option.split)

lemma run_migrations_applied:
  "set (map mi_version ms) \<subseteq> set applied \<Longrightarrow> run_migrations exec E k applied (ms @ ms') d = run_migrations exec E k applied ms' d"
  by (induction ms) auto

text \<open>
  The loop from the state \<open>n\<close>: whatever it has read of the applied versions and whatever fails, it
  stops in a state between \<open>n\<close> and the end.
\<close>

lemma run_migrations_migrated:
  assumes "distinct (map mi_version all)" "migrated exec all s0 n d" "set applied \<subseteq> set (md_versions d)"
    and "ms = drop j all" "j \<le> n"
  shows "\<exists>n'\<ge>n. migrated exec all s0 n' (snd (run_migrations exec E k applied ms d)) \<and>
    (fst (run_migrations exec E k applied ms d) = None \<longrightarrow> n' = length all)"
  using assms(2-5)
proof (induction ms arbitrary: n d j k)
  case Nil
  then show ?case by (auto simp: migrated_def)
next
  case (Cons m ms)
  then have j: "j < length all" "m = all ! j" "ms = drop (Suc j) all"
    by (metis drop_eq_Nil2 linorder_not_less list.distinct(1), metis Cons_nth_drop_Suc drop_eq_Nil2 list.inject linorder_not_less list.distinct(1),
        metis drop_Suc tl_drop list.sel(3))
  have vs: "md_versions d = map mi_version (take n all)" "n \<le> length all"
    using Cons.prems(1) by (simp_all add: migrated_def)
  have known: "mi_version m \<in> set (md_versions d) \<longleftrightarrow> j < n"
  proof
    assume "mi_version m \<in> set (md_versions d)"
    then obtain i where i: "i < n" "i < length all" "mi_version (all ! i) = mi_version (all ! j)"
      using j(2) vs by (auto simp: in_set_conv_nth)
    then have "i = j" using assms(1) j(1) by (metis length_map nth_eq_iff_index_eq nth_map)
    with i show "j < n" by simp
  next
    assume "j < n"
    then have "all ! j \<in> set (take n all)" using j(1) vs(2) by (auto simp: in_set_conv_nth)
    then show "mi_version m \<in> set (md_versions d)" unfolding vs(1) j(2) by simp
  qed
  show ?case
  proof (cases "mi_version m \<in> set applied")
    case True
    then have "Suc j \<le> n" using known Cons.prems(2) by auto
    from Cons.IH [OF Cons.prems(1,2) j(3) this, of k] True show ?thesis by simp
  next
    case False
    obtain e d' where r: "run_migration exec E k m d = (e, d')" by fastforce
    show ?thesis
    proof (cases e)
      case (Some x)
      with r False run_migration_cases [OF r] Cons.prems(1) show ?thesis by auto
    next
      case None
      with run_migration_cases [OF r] known have "n = j" "md_versions d' = md_versions d @ [mi_version m]"
        using Cons.prems(4) by auto
      moreover have "migrated exec all s0 (Suc n) d'"
        using migrated_step [OF Cons.prems(1)] r j None \<open>n = j\<close> by auto
      ultimately have "\<exists>n'\<ge>Suc n. migrated exec all s0 n' (snd (run_migrations exec E (k + 4) applied ms d')) \<and>
          (fst (run_migrations exec E (k + 4) applied ms d') = None \<longrightarrow> n' = length all)"
        using Cons.IH [of "Suc n" d' "Suc j" "k + 4"] Cons.prems(2) j(3) by auto
      then obtain n' where "Suc n \<le> n' \<and> migrated exec all s0 n' (snd (run_migrations exec E (k + 4) applied ms d')) \<and>
          (fst (run_migrations exec E (k + 4) applied ms d') = None \<longrightarrow> n' = length all)" ..
      with r None False show ?thesis by (auto intro!: exI [of _ n'])
    qed
  qed
qed


lemma distinct_nth_take:
  assumes "distinct (map f xs)" "n < length xs" "j \<le> n"
  shows "f (xs ! n) \<notin> set (map f (take j xs))"
proof -
  have "distinct (map f (take n xs @ xs ! n # drop (Suc n) xs))"
    using assms(1) id_take_nth_drop [OF assms(2)] by simp
  then have "f (xs ! n) \<notin> f ` set (take n xs)" by auto
  moreover have "set (take j xs) \<subseteq> set (take n xs)" by (rule set_take_subset_set_take [OF assms(3)])
  ultimately show ?thesis by auto
qed

text \<open>Without faults and with the whole table read, the rest is applied.\<close>

lemma run_migrations_complete:
  assumes "distinct (map mi_version all)" "migrated exec all s0 n d" "\<And>i. \<not> se_fault E i"
    and "clean_run exec all s0 = Some sN" "\<And>v. v \<in> set applied \<longleftrightarrow> v \<in> set (map mi_version (take m all))"
    and "m \<le> n"
  shows "\<exists>d'. run_migrations exec E k applied (drop n all) d = (None, d') \<and> migrated exec all s0 (length all) d'"
  using assms(2,6)
proof (induction "length all - n" arbitrary: n d k)
  case 0
  then have "n = length all" by (simp add: migrated_def)
  with 0 show ?case by simp
next
  case (Suc x)
  then have n: "n < length all" by simp
  have d: "md_versions d = map mi_version (take n all)" "clean_run exec (take n all) s0 = Some (md_schema d)"
    using Suc.prems(1) by (simp_all add: migrated_def)
  note new = distinct_nth_take [OF assms(1) n]
  obtain s where s: "exec (mi_content (all ! n)) (md_schema d) = Some s"
  proof -
    have "clean_run exec (take n all @ all ! n # drop (Suc n) all) s0 = Some sN"
      using assms(4) id_take_nth_drop [OF n] by simp
    with d(2) that show ?thesis by (auto simp: clean_run_append split: option.splits)
  qed
  let ?d = "\<lparr>md_versions = md_versions d @ [mi_version (all ! n)], md_schema = s\<rparr>"
  have r: "run_migration exec E k (all ! n) d = (None, ?d)"
    using assms(3) s new [OF order_refl] by (intro run_migration_ok) (simp_all add: d(1))
  then have "migrated exec all s0 (Suc n) ?d" using migrated_step [OF Suc.prems(1) n] by blast
  then obtain d' where "run_migrations exec E (k + 4) applied (drop (Suc n) all) ?d = (None, d')"
    "migrated exec all s0 (length all) d'"
    using Suc.hyps(1) [of "Suc n" ?d "k + 4"] Suc.hyps(2) Suc.prems(2) n by (metis Suc_diff_Suc diff_Suc_1 le_SucI)
  moreover have "mi_version (all ! n) \<notin> set applied" using new [OF Suc.prems(2)] assms(5) by blast
  ultimately show ?case using r by (simp add: Cons_nth_drop_Suc [OF n, symmetric])
qed

lemma read_versions_Inr: "read_versions E k vs = Inr applied \<Longrightarrow> set applied \<subseteq> set vs"
  by (induction E k vs arbitrary: applied rule: read_versions.induct) (auto split: if_splits sum.splits)

lemma read_versions_all: "(\<And>i. \<not> se_scan E i) \<Longrightarrow> se_broken E = None \<Longrightarrow> read_versions E k vs = Inr vs"
  by (induction vs arbitrary: k) simp_all

lemma migrate_complete:
  assumes "distinct (map mi_version (migrations entries))" "migrated exec (migrations entries) s0 n d"
    and "\<And>i. \<not> se_fault E i" "\<And>i. \<not> se_scan E i" "se_broken E = None" "clean_run exec (migrations entries) s0 = Some sN"
  shows "\<exists>d'. migrate exec E entries d = (None, d') \<and> migrated exec (migrations entries) s0 (length (migrations entries)) d'"
proof -
  let ?ms = "migrations entries"
  have vs: "md_versions d = map mi_version (take n ?ms)" using assms(2) by (simp add: migrated_def)
  have "run_migrations exec E 2 (md_versions d) (take n ?ms @ drop n ?ms) d
      = run_migrations exec E 2 (md_versions d) (drop n ?ms) d"
    by (rule run_migrations_applied) (simp add: vs)
  moreover have "\<exists>d'. run_migrations exec E 2 (md_versions d) (drop n ?ms) d = (None, d') \<and>
      migrated exec ?ms s0 (length ?ms) d'"
    by (rule run_migrations_complete [OF assms(1,2,3,6), of _ n]) (simp_all add: vs)
  ultimately show ?thesis using assms(3) read_versions_all [OF assms(4,5)] by (simp add: migrate_def)
qed

lemma migrate_migrated:
  assumes "distinct (map mi_version (migrations entries))" "migrated exec (migrations entries) s0 n d"
  shows "\<exists>n'\<ge>n. migrated exec (migrations entries) s0 n' (snd (migrate exec E entries d)) \<and>
    (fst (migrate exec E entries d) = None \<longrightarrow> n' = length (migrations entries))"
proof (cases "read_versions E 0 (md_versions d)")
  case (Inl e)
  with assms(2) show ?thesis by (auto simp: migrate_def)
next
  case (Inr applied)
  from run_migrations_migrated [OF assms read_versions_Inr [OF Inr], of "migrations entries" 0 E 2] assms(2) Inr
  show ?thesis by (auto simp: migrate_def)
qed

text \<open>A sequence of starts of the program, each after the one before has failed or stopped.\<close>

fun starts :: "('f \<Rightarrow> 's \<Rightarrow> 's option) \<Rightarrow> start_env list \<Rightarrow> 'f entry list \<Rightarrow> 's mig_db \<Rightarrow> 's mig_db" where
  "starts exec [] entries d = d"
| "starts exec (E # Es) entries d = starts exec Es entries (snd (New exec E entries d))"

lemma New_migrate:
  "snd (New exec E entries d) = (if se_openWrite E \<or> se_openRead E then d else snd (migrate exec E entries d))"
  "fst (New exec E entries d) = None \<longleftrightarrow>
     \<not> se_openWrite E \<and> \<not> se_openRead E \<and> fst (migrate exec E entries d) = None"
  by (auto simp: New_def split: prod.splits option.splits)

lemma starts_migrated:
  assumes "distinct (map mi_version (migrations entries))" "migrated exec (migrations entries) s0 n d"
  shows "\<exists>n'\<ge>n. migrated exec (migrations entries) s0 n' (starts exec Es entries d)"
  using assms(2)
proof (induction Es arbitrary: n d)
  case Nil
  then show ?case by auto
next
  case (Cons E Es)
  obtain n1 where n1: "n1 \<ge> n" "migrated exec (migrations entries) s0 n1 (snd (New exec E entries d))"
  proof (cases "se_openWrite E \<or> se_openRead E")
    case True
    with Cons.prems that [of n] show ?thesis by (simp add: New_migrate)
  next
    case False
    then have "snd (New exec E entries d) = snd (migrate exec E entries d)" by (simp add: New_migrate)
    with migrate_migrated [OF assms(1) Cons.prems, of E] that show ?thesis by metis
  qed
  from Cons.IH [OF n1(2)] obtain n2 where "n2 \<ge> n1"
    "migrated exec (migrations entries) s0 n2 (starts exec Es entries (snd (New exec E entries d)))" by blast
  with n1(1) show ?case by (auto intro!: exI [of _ n2])
qed

section \<open>Properties\<close>

text \<open>The abstract specification: one clean run of all files, recorded in ascending order.\<close>

definition up_to_date :: "('f \<Rightarrow> 's \<Rightarrow> 's option) \<Rightarrow> 'f entry list \<Rightarrow> 's \<Rightarrow> 's mig_db \<Rightarrow> bool" where
  "up_to_date exec entries s0 d \<longleftrightarrow>
     md_versions d = map mi_version (migrations entries) \<and> sorted (md_versions d) \<and>
     clean_run exec (migrations entries) s0 = Some (md_schema d)"

lemma sorted_migrations: "sorted (map mi_version (migrations entries))"
proof -
  have "sorted_wrt (\<lambda>a b. mi_version a \<le> mi_version b) (migrations entries)"
    unfolding migrations_def by (rule sorted_order_by) auto
  then show ?thesis by (simp add: sorted_map)
qed

lemma migrated_all: "migrated exec (migrations entries) s0 (length (migrations entries)) d = up_to_date exec entries s0 d"
  using sorted_migrations [of entries] by (auto simp: migrated_def up_to_date_def)

text \<open>
  C16: Migrations resume.  Take a fresh database and any number of starts that fail anywhere, with the
  table of versions read in part, with an error or not at all.  Every file is then applied at most once and in
  ascending order; the schema is the one of a clean run over the files recorded; a start that
  succeeds leaves the result of one clean run over all files; and a start without faults succeeds if
  the clean run does.
\<close>
theorem migrations_resume:
  assumes "distinct (map mi_version (migrations entries))"
    and "d = starts exec Es entries \<lparr>md_versions = [], md_schema = s0\<rparr>"
  shows "(\<exists>n. migrated exec (migrations entries) s0 n d) \<and>
    (fst (New exec E entries d) = None \<longrightarrow> up_to_date exec entries s0 (snd (New exec E entries d))) \<and>
    ((\<forall>i. \<not> se_fault E i \<and> \<not> se_scan E i) \<and> \<not> se_openWrite E \<and> \<not> se_openRead E \<and> se_broken E = None \<and>
      clean_run exec (migrations entries) s0 \<noteq> None \<longrightarrow> fst (New exec E entries d) = None)"
proof -
  have "migrated exec (migrations entries) s0 0 \<lparr>md_versions = [], md_schema = s0\<rparr>" by (simp add: migrated_def)
  from starts_migrated [OF assms(1) this] obtain n where n: "migrated exec (migrations entries) s0 n d"
    unfolding assms(2) by blast
  have "up_to_date exec entries s0 (snd (New exec E entries d))" if "fst (New exec E entries d) = None"
    using migrate_migrated [OF assms(1) n, of E] that by (auto simp: New_migrate migrated_all)
  moreover have "fst (New exec E entries d) = None"
    if "\<forall>i. \<not> se_fault E i \<and> \<not> se_scan E i" "\<not> se_openWrite E" "\<not> se_openRead E" "se_broken E = None"
      "clean_run exec (migrations entries) s0 \<noteq> None"
    using migrate_complete [OF assms(1) n, of E] that by (auto simp: New_migrate)
  ultimately show ?thesis using n by blast
qed

definition calm_start :: start_env where
  "calm_start = \<lparr>se_openWrite = False, se_openRead = False, se_fault = (\<lambda>_. False), se_scan = (\<lambda>_. False), se_broken = None\<rparr>"

definition broken_start :: start_env where
  "broken_start = \<lparr>se_openWrite = False, se_openRead = False, se_fault = (\<lambda>k. k = 7), se_scan = (\<lambda>_. False), se_broken = None\<rparr>"

lemma shipped_versions: "map mi_version (migrations migrationsFS) = [1, 2]"
  by code_simp

lemma shipped_run: "clean_run (exec_file (\<lambda>_. False)) (migrations migrationsFS) [] \<noteq> None"
  by code_simp

theorem migrations_resume_witness:
  "up_to_date (exec_file (\<lambda>_. False)) migrationsFS []
     (snd (New (exec_file (\<lambda>_. False)) calm_start migrationsFS
        (starts (exec_file (\<lambda>_. False)) [broken_start] migrationsFS \<lparr>md_versions = [], md_schema = []\<rparr>)))"
proof -
  have "distinct (map mi_version (migrations migrationsFS))" by (simp add: shipped_versions)
  from migrations_resume [OF this refl, where exec = "exec_file (\<lambda>_. False)" and Es = "[broken_start]"
      and ?s0.0 = "[]" and E = calm_start] shipped_run
  show ?thesis by (auto simp: calm_start_def)
qed

end
