(* ===== verification/Server.thy ===== *)
theory Server
  imports Web Proxy Configuration Migrate
begin

text \<open>
  cmd/claude-gate/main.go and internal/proxy/setup.go: the composition of the program.  The request
  multiplexer, the shared state of the handlers, the background activities, and the start.
\<close>

section \<open>The multiplexer\<close>

datatype target =
    ToProxy
  | ToAdmin admin_route
  | ToWeb web_route
  | ToStatic
  | Canonical string

text \<open>\<open>cleanPath\<close> of \<open>http.ServeMux\<close>, on the path as it was sent.\<close>

definition cleanPath :: "string \<Rightarrow> string" where
  "cleanPath p =
     (if p = [] then ''/''
      else let p1 = (if hd p = CHR ''/'' then p else CHR ''/'' # p); np = Clean p1 in
        if last p1 = CHR ''/'' \<and> np \<noteq> ''/'' then np @ ''/'' else np)"

definition path_segments :: "string \<Rightarrow> string list" where
  "path_segments p = map (\<lambda>w. case PathUnescape w of None \<Rightarrow> w | Some t \<Rightarrow> t) (split_on (CHR ''/'') (tl p))"

text \<open>A single-segment wildcard does not match the segment \<open>/\<close>, which an escaped slash makes.\<close>

definition wildcard :: "string \<Rightarrow> bool" where
  "wildcard seg \<longleftrightarrow> seg \<noteq> [] \<and> seg \<noteq> ''/''"

fun route_id :: "admin_route \<Rightarrow> string option" where
  "route_id (UpdateToken _ i) = Some i"
| "route_id (DeleteToken _ i) = Some i"
| "route_id (SetActive _ i _) = Some i"
| "route_id (UsageByToken _ i) = Some i"
| "route_id _ = None"

definition admin_match :: "string \<Rightarrow> string list \<Rightarrow> admin_route option" where
  "admin_match method rest =
     (case rest of
        [] \<Rightarrow> None
      | a # xs \<Rightarrow>
          if a \<noteq> ''api'' then None
          else case Register method xs of
            None \<Rightarrow> None
          | Some rt \<Rightarrow> (case route_id rt of None \<Rightarrow> Some rt | Some i \<Rightarrow> if wildcard i then Some rt else None))"

definition is_static :: "string list \<Rightarrow> bool" where
  "is_static rest \<longleftrightarrow> (case rest of a # b # _ \<Rightarrow> a = ''static'' | _ \<Rightarrow> False)"

definition route :: "string \<Rightarrow> string list \<Rightarrow> target" where
  "route method segs =
     (case segs of
        [] \<Rightarrow> ToProxy
      | a # rest \<Rightarrow>
          if a \<noteq> ''admin'' \<or> rest = [] then ToProxy
          else case admin_match method rest of
            Some rt \<Rightarrow> ToAdmin rt
          | None \<Rightarrow>
              if is_get method \<and> is_static rest then ToStatic
              else case RegisterRoutes method rest of Some rt \<Rightarrow> ToWeb rt | None \<Rightarrow> ToProxy)"

text \<open>
  A request whose path is not clean is redirected, as is a GET of \<open>/admin\<close> or \<open>/admin/static\<close>, whose
  pattern ends in a slash.  What no pattern takes goes to the catch-all, the proxy.
\<close>

definition dispatch :: "string \<Rightarrow> string \<Rightarrow> target" where
  "dispatch method escapedPath =
     (if method = ''CONNECT'' then ToProxy
      else let p = cleanPath escapedPath; segs = path_segments p in
        if is_get method \<and> segs = [''admin''] then Canonical ''/admin/''
        else if is_get method \<and> segs = [''admin'', ''static''] then Canonical ''/admin/static/''
        else if p \<noteq> escapedPath then Canonical p
        else route method segs)"

section \<open>State\<close>

text \<open>
  What the handlers and the background activities share.  \<open>sv_fired\<close> counts the refreshes of the pool
  whose timer has fired and that have not read the database yet, \<open>sv_reads\<close> holds what the others have read
  and not yet installed.  \<open>sv_running\<close> and \<open>sv_cancelled\<close>: whether the usage writer still runs, and whether
  the program has been told to stop.
\<close>

record ('c, 'w) server =
  sv_gate :: "'c gateway"
  sv_sessions :: 'w
  sv_fired :: nat
  sv_reads :: "RealToken list list"
  sv_writer :: writer
  sv_running :: bool
  sv_cancelled :: bool

text \<open>What is fixed while the program runs.\<close>

record ('c, 'w) program =
  pg_driver :: driver
  pg_cache :: "('c, string) ttlcache"
  pg_sessions :: "('w, bool) ttlcache"
  pg_upstream :: upstream_url
  pg_secret :: string

record request_env =
  en_exchange :: exchange
  en_admin :: admin_env
  en_web :: web_env

datatype body =
    FromProxy reply
  | FromAdmin admin_reply
  | FromWeb web_reply
  | StaticFile string
  | RedirectTo string

definition gate_headers :: http_header where
  "gate_headers = securityHeaders (\<lambda>_. [])"

text \<open>The reverse proxy adds the upstream's values to the headers that are already set.\<close>

fun with_gate_headers :: "reply \<Rightarrow> reply" where
  "with_gate_headers (Forward st h outs) = Forward st (\<lambda>k. gate_headers k @ h k) outs"
| "with_gate_headers rep = rep"

section \<open>Requests\<close>

definition session_auth :: "('c, 'w) program \<Rightarrow> int \<Rightarrow> http_request \<Rightarrow> 'w \<Rightarrow> bool \<times> 'w" where
  "session_auth P now r w = ValidateSession (pg_sessions P) now r w"

definition serve_proxy ::
  "('c, 'w) program \<Rightarrow> request_env \<Rightarrow> http_request \<Rightarrow> ('c, 'w) server \<Rightarrow> body \<times> ('c, 'w) server" where
  "serve_proxy P E r S =
     (case ServeHTTP (pg_driver P) (pg_cache P) (pg_upstream P) (en_exchange E) r (sv_gate S) of
        (rep, _, G) \<Rightarrow> (FromProxy (with_gate_headers rep), S\<lparr>sv_gate := G\<rparr>))"

definition serve_api ::
  "('c, 'w) program \<Rightarrow> request_env \<Rightarrow> admin_route \<Rightarrow> http_request \<Rightarrow> ('c, 'w) server \<Rightarrow> body \<times> ('c, 'w) server" where
  "serve_api P E rt r S =
     (let now = clock (ae_call (en_admin E)); G = sv_gate S in
      case serve_admin (pg_driver P) (pg_secret P) (Some (session_auth P now)) (en_admin E) (RefreshPool now)
             rt r (gw_db G) (gw_mgr G) (sv_sessions S) of
        (rep, s, m, w) \<Rightarrow> (FromAdmin rep, S\<lparr>sv_gate := G\<lparr>gw_db := s, gw_mgr := m\<rparr>, sv_sessions := w\<rparr>))"

definition serve_ui ::
  "('c, 'w) program \<Rightarrow> request_env \<Rightarrow> web_route \<Rightarrow> http_request \<Rightarrow> ('c, 'w) server \<Rightarrow> body \<times> ('c, 'w) server" where
  "serve_ui P E rt r S =
     (case serve_web (pg_driver P) (pg_sessions P) (pg_secret P) (en_web E) rt r (gw_db (sv_gate S)) (sv_sessions S) of
        (rep, w) \<Rightarrow> (FromWeb rep, S\<lparr>sv_sessions := w\<rparr>))"

definition serve ::
  "('c, 'w) program \<Rightarrow> request_env \<Rightarrow> http_request \<Rightarrow> ('c, 'w) server \<Rightarrow> body \<times> ('c, 'w) server" where
  "serve P E r S =
     (case dispatch (rq_method r) (rq_escapedPath r) of
        ToProxy \<Rightarrow> serve_proxy P E r S
      | ToAdmin rt \<Rightarrow> serve_api P E rt r S
      | ToWeb rt \<Rightarrow> serve_ui P E rt r S
      | ToStatic \<Rightarrow> (StaticFile (rq_path r), S)
      | Canonical p \<Rightarrow> (RedirectTo p, S))"

section \<open>Steps\<close>

text \<open>
  The activities of the running program: a request; the refresh timer once its deadline has come, the
  read of a refresh and its installation, each at any later time and in any order, for the pool's lock is
  taken only after the read and stopping the timer does not wait for a refresh that has started; a tick of
  the sticky cleanup; a turn of the usage writer; and the signal to stop.
\<close>

datatype event =
    Served request_env http_request
  | TimerFires int
  | PoolReads callenv
  | PoolInstalls
  | Cleanup callenv
  | WriterTurn flushenv select_case
  | Interrupt

definition update_gate_state :: "('c gateway \<Rightarrow> 'c gateway) \<Rightarrow> ('c, 'w) server \<Rightarrow> ('c, 'w) server" where
  "update_gate_state f S = S\<lparr>sv_gate := f (sv_gate S)\<rparr>"

fun refresh_due :: "int \<Rightarrow> 'c manager \<Rightarrow> bool" where
  "refresh_due now m = (case mg_refreshAt m of None \<Rightarrow> False | Some t \<Rightarrow> t \<le> now)"

inductive server_step :: "('c, 'w) program \<Rightarrow> event \<Rightarrow> ('c, 'w) server \<Rightarrow> ('c, 'w) server \<Rightarrow> bool" for P where
  request: "server_step P (Served E r) S (snd (serve P E r S))"
| timer: "refresh_due t (gw_mgr (sv_gate S)) \<Longrightarrow>
    server_step P (TimerFires t) S
      ((update_gate_state (\<lambda>G. G\<lparr>gw_mgr := timer_fires (gw_mgr G)\<rparr>) S)\<lparr>sv_fired := sv_fired S + 1\<rparr>)"
| pool_read: "0 < sv_fired S \<Longrightarrow>
    ListActiveRealTokens (pg_driver P) c (pl_maxFailures (mg_pool (gw_mgr (sv_gate S)))) (gw_db (sv_gate S)) = Inr ts \<Longrightarrow>
    server_step P (PoolReads c) S (S\<lparr>sv_fired := sv_fired S - 1, sv_reads := sv_reads S @ [ts]\<rparr>)"
| pool_read_fails: "0 < sv_fired S \<Longrightarrow>
    ListActiveRealTokens (pg_driver P) c (pl_maxFailures (mg_pool (gw_mgr (sv_gate S)))) (gw_db (sv_gate S)) = Inl e \<Longrightarrow>
    server_step P (PoolReads c) S (S\<lparr>sv_fired := sv_fired S - 1\<rparr>)"
| pool_install: "sv_reads S = xs @ ts # ys \<Longrightarrow>
    server_step P PoolInstalls S
      ((update_gate_state (\<lambda>G. G\<lparr>gw_mgr := install ts (gw_mgr G)\<rparr>) S)\<lparr>sv_reads := xs @ ys\<rparr>)"
| cleanup: "server_step P (Cleanup c) S
      (update_gate_state (\<lambda>G. G\<lparr>gw_db := dbCleanup (pg_driver P) c (gw_db G)\<rparr>) S)"
| writer_turn: "sv_running S \<Longrightarrow> ctx_done (fe_call fe) = sv_cancelled S \<Longrightarrow>
    run_turn (pg_driver P) fe sel False (gw_ch (sv_gate S)) (sv_writer S) (gw_db (sv_gate S)) = Some (ev, ch, w, s, go) \<Longrightarrow>
    server_step P (WriterTurn fe sel) S
      (S\<lparr>sv_gate := (sv_gate S)\<lparr>gw_ch := ch, gw_db := s\<rparr>, sv_writer := w, sv_running := go\<rparr>)"
| interrupt: "server_step P Interrupt S (S\<lparr>sv_cancelled := True\<rparr>)"

inductive_cases server_stepE: "server_step P ev S S'"

section \<open>The start\<close>

datatype startup_error =
    LoadConfig string
  | OpenDatabase go_error
  | StartManager go_error
  | SetupProxy

text \<open>\<open>NewProxyHandler\<close> fails exactly if the upstream URL does not parse.\<close>

definition NewProxyHandler :: "(string \<Rightarrow> string option) \<Rightarrow> string \<Rightarrow> upstream_url option" where
  "NewProxyHandler authority upstream =
     map_option (\<lambda>u. \<lparr>up_scheme = url_Scheme u, up_host = url_Host u\<rparr>) (url_Parse authority upstream)"

text \<open>
  \<open>proxy.Setup\<close>: the handler over a new channel, and a new writer reading from it.
\<close>

definition Setup ::
  "(string \<Rightarrow> string option) \<Rightarrow> string \<Rightarrow> db \<Rightarrow> 'c manager \<Rightarrow> (upstream_url \<times> 'c gateway \<times> writer) option" where
  "Setup authority upstream s m =
     (case NewProxyHandler authority upstream of
        None \<Rightarrow> None
      | Some U \<Rightarrow> Some (U, \<lparr>gw_db = s, gw_mgr = m, gw_ch = [], gw_dropped = 0\<rparr>, NewUsageWriter))"

text \<open>
  What the start meets: the float product of \<open>ParseDuration\<close>, the authority parser, the environment,
  the outcome of opening and migrating the database at a path with its rows, and the first refresh.
\<close>

record startup =
  su_flt :: "nat \<Rightarrow> nat \<Rightarrow> nat \<Rightarrow> nat"
  su_authority :: "string \<Rightarrow> string option"
  su_getenv :: environ
  su_open :: "string \<Rightarrow> go_error + db"
  su_refresh :: callenv

text \<open>
  The part of \<open>main\<close> before the server listens.  The logger and the warnings of \<open>Validate\<close> have no effect
  on what follows, and the embedded templates are taken to parse, so that \<open>NewHandler\<close> does not fail.
\<close>

definition main_start ::
  "driver \<Rightarrow> ('c, string) ttlcache \<Rightarrow> ('w, bool) ttlcache \<Rightarrow> 'c \<Rightarrow> 'w \<Rightarrow> startup \<Rightarrow>
     startup_error + ('c, 'w) program \<times> ('c, 'w) server" where
  "main_start D K W noItems noSessions X =
     (case Load (su_flt X) (su_getenv X) of
        Inl e \<Rightarrow> Inl (LoadConfig e)
      | Inr cfg \<Rightarrow>
          (case su_open X (cf_DBPath cfg) of
             Inl e \<Rightarrow> Inl (OpenDatabase e)
           | Inr s \<Rightarrow>
               (case Start D (su_refresh X) s (NewManager (cf_MaxFailures cfg) (cf_StickyTTL cfg) noItems) of
                  (Some e, m) \<Rightarrow> Inl (StartManager e)
                | (None, m) \<Rightarrow>
                    (case Setup (su_authority X) (cf_UpstreamURL cfg) s m of
                       None \<Rightarrow> Inl SetupProxy
                     | Some (U, G, w) \<Rightarrow>
                         Inr (\<lparr>pg_driver = D, pg_cache = K, pg_sessions = W, pg_upstream = U,
                               pg_secret = cf_AdminSecret cfg\<rparr>,
                              \<lparr>sv_gate = G, sv_sessions = noSessions, sv_fired = 0, sv_reads = [],
                               sv_writer = w, sv_running = True, sv_cancelled = False\<rparr>)))))"

section \<open>Runs\<close>

text \<open>When an event happens; the signal and the installation of a refresh need no clock.\<close>

fun event_time :: "event \<Rightarrow> int option" where
  "event_time (Served E r) =
     (case dispatch (rq_method r) (rq_escapedPath r) of
        ToProxy \<Rightarrow> Some (clock (ex_resolve (en_exchange E)))
      | ToAdmin rt \<Rightarrow> Some (clock (ae_call (en_admin E)))
      | ToWeb rt \<Rightarrow> Some (we_now (en_web E))
      | _ \<Rightarrow> None)"
| "event_time (TimerFires t) = Some t"
| "event_time (PoolReads c) = Some (clock c)"
| "event_time PoolInstalls = None"
| "event_time (Cleanup c) = Some (clock c)"
| "event_time (WriterTurn fe sel) = Some (clock (fe_call fe))"
| "event_time Interrupt = None"

text \<open>
  A run from a started program: the events so far, the newest first, the time, and the state.  Time
  does not go back.
\<close>

inductive server_run ::
  "('c, 'w) program \<Rightarrow> ('c, 'w) server \<Rightarrow> event list \<Rightarrow> int \<Rightarrow> ('c, 'w) server \<Rightarrow> bool" for P S0 where
  init: "server_run P S0 [] t S0"
| step: "server_run P S0 evs t S \<Longrightarrow> server_step P ev S S' \<Longrightarrow> t \<le> t' \<Longrightarrow>
    (\<forall>u. event_time ev = Some u \<longrightarrow> u = t') \<Longrightarrow> server_run P S0 (ev # evs) t' S'"

end
