(* ===== verification/Server_Invariants.thy ===== *)
theory Server_Invariants
  imports Server Proxy_Properties Admin_Properties Usage_Properties
begin

text \<open>
  Invariants of the running program.  The interface is a property of the state and of the events so far
  that every step of the runs considered keeps; it is interpreted for the integrity of the shared state
  here, and later for the currency of the token pool and for what follows the signal to stop.
\<close>

section \<open>The interface\<close>

locale server_invariant =
  fixes P :: "('c, 'w) program" and fine :: "event list \<Rightarrow> bool" and inv :: "event list \<Rightarrow> ('c, 'w) server \<Rightarrow> bool"
  assumes earlier: "fine (ev # evs) \<Longrightarrow> fine evs"
    and step: "server_step P ev S S' \<Longrightarrow> fine (ev # evs) \<Longrightarrow> inv evs S \<Longrightarrow> inv (ev # evs) S'"
begin

lemma run: "server_run P S0 evs t S \<Longrightarrow> fine evs \<Longrightarrow> inv [] S0 \<Longrightarrow> inv evs S"
  by (induction rule: server_run.induct) (auto intro: step earlier)

end

section \<open>What a request does to the shared state\<close>

text \<open>A property of the database that every operation of the store keeps is kept by every call of the API.\<close>

lemma handle_admin_store:
  assumes "Q s"
    and "\<And>tab c i b. Q (snd (set_active_op tab c i b s))" "\<And>tab c i. Q (snd (delete_op tab c i s))"
    and "\<And>tab c i n. Q (snd (rename_op tab c i n s))"
    and "\<And>c rnd n k q. Q (snd (CreateRealToken c rnd n k q s))" "\<And>c r1 r2 n k. Q (snd (CreateGateToken c r1 r2 n k s))"
  shows "Q (fst (snd (handle_admin D A f rt r s m)))"
proof -
  have upd: "Q (fst (snd (update_token c tab i r s m)))" for c tab i
    using assms(1,4) update_token_state [of c tab i r s m] by auto
  have create: "CreateRealToken c rnd n k q s = (e, s') \<Longrightarrow> Q s'" "CreateGateToken c r1 r2 n k s = (e', s') \<Longrightarrow> Q s'"
    for c rnd n k q r1 r2 e e' s'
    using assms(5) [of c rnd n k q] assms(6) [of c r1 r2 n k] by auto
  show ?thesis
  proof (cases rt)
    case (SetActive tab i b)
    with assms(2) [of tab "ae_call A" i b] show ?thesis
      by (auto simp: handle_admin_eq Let_def handler_ops split: prod.splits option.splits)
  next
    case (DeleteToken tab i)
    with assms(3) [of tab "ae_call A" i] show ?thesis
      by (auto simp: handle_admin_eq Let_def handler_ops split: prod.splits option.splits)
  next
    case (UpdateToken tab i)
    with upd show ?thesis by (simp add: handle_admin_eq Let_def)
  next
    case CreateReal
    with assms(1) show ?thesis
      by (auto simp: handle_admin_eq Let_def createRealToken_def dest: create(1) split: prod.splits option.splits sum.splits)
  next
    case CreateGate
    with assms(1) show ?thesis
      by (auto simp: handle_admin_eq Let_def createGateToken_def dest: create(2) split: prod.splits option.splits sum.splits)
  qed (use assms(1) in \<open>simp_all add: handle_admin_eq Let_def\<close>)
qed

lemma handle_admin_db_ok [preserves]:
  assumes "db_ok s"
  shows "db_ok (fst (snd (handle_admin D A f rt r s m)))"
proof (rule handle_admin_store [of db_ok])
  show "db_ok (snd (set_active_op tab c i b s))" "db_ok (snd (delete_op tab c i s))" "db_ok (snd (rename_op tab c i n s))"
    for tab c i b n
    using assms by (cases tab; simp add: set_active_op_def delete_op_def rename_op_def preserves)+
qed (use assms in \<open>simp_all add: preserves\<close>)

lemma handle_admin_manager:
  "snd (snd (handle_admin D A f rt r s m)) \<in> {m, f m}"
  by (cases rt)
    (auto simp: handle_admin_eq Let_def handler_ops createRealToken_def createGateToken_def update_token_def
      pool_changed_def split: prod.splits option.splits sum.splits)

lemma send_usage_ch:
  "length (gw_ch G) \<le> usageChannelSize \<Longrightarrow> length (gw_ch (send_usage gt t u p st G)) \<le> usageChannelSize"
  by (auto simp: send_usage_def sendUsage_def split: prod.splits if_splits)

lemma fold_send_usage_ch:
  "length (gw_ch G) \<le> usageChannelSize \<Longrightarrow>
   length (gw_ch (fold (\<lambda>u. send_usage gt t u p st) us G)) \<le> usageChannelSize"
  by (induction us arbitrary: G) (simp_all add: send_usage_ch)

lemma serve_response_ch:
  assumes "serve_response D x gt t path answer G = (rep, G')" "length (gw_ch G) \<le> usageChannelSize"
  shows "length (gw_ch G') \<le> usageChannelSize"
proof (cases answer)
  case (Inl err)
  with assms show ?thesis by (auto simp: serve_response_def ErrorHandler_def)
next
  case (Inr resp0)
  let ?resp = "resp0\<lparr>rs_header := removeHopByHopHeaders (rs_header resp0)\<rparr>"
  obtain res G1 where m: "ModifyResponse D x gt t path ?resp (body_reads (rs_body resp0)) G = (res, G1)" by fastforce
  have G1: "length (gw_ch G1) \<le> usageChannelSize"
    using m assms(2) by (auto simp: ModifyResponse_def Let_def send_usage_ch split: if_splits option.splits)
  have "length (gw_ch (snd (copy_body x gt t path resp1 G1))) \<le> usageChannelSize" for resp1
    using G1 by (auto simp: copy_body_def fold_send_usage_ch split: resp_body.splits prod.splits)
  with G1 show ?thesis
    using assms(1) m by (auto simp: serve_response_def Inr Let_def ErrorHandler_def split: sum.splits prod.splits)
      (metis snd_conv)
qed

definition gateway_ok :: "'c gateway \<Rightarrow> bool" where
  "gateway_ok G \<longleftrightarrow> db_ok (gw_db G) \<and> mgr_ok (gw_mgr G) \<and> length (gw_ch G) \<le> usageChannelSize"

lemma ServeHTTP_gateway_ok:
  assumes "ServeHTTP D K U x r G = (rep, out, G')" "gateway_ok G"
  shows "gateway_ok G'"
  using assms(1)
proof (cases rule: ServeHTTP_cases)
  case refused
  with assms(2) show ?thesis by simp
next
  case (unavailable g gt e s m)
  with assms(2) ResolveToken_db_ok ResolveToken_mgr_ok show ?thesis
    by (metis (no_types, lifting) gateway.select_convs(1,2,3) gateway.surjective gateway.update_convs(1,2) gateway_ok_def)
next
  case (served g gt t s m)
  have G: "db_ok (gw_db G)" "mgr_ok (gw_mgr G)" "length (gw_ch G) \<le> usageChannelSize"
    using assms(2) by (simp_all add: gateway_ok_def)
  have "db_ok s" "mgr_ok m" using ResolveToken_db_ok [OF G(1) served(3)] ResolveToken_mgr_ok [OF G(2) served(3)] by simp_all
  moreover have "mgr_ok (snd (snd (RecordFailure D c i s m)))" for c i
    using RecordFailure_mgr [of D c i s m] \<open>mgr_ok m\<close> by auto
  moreover have "length (gw_ch G') \<le> usageChannelSize"
    using serve_response_ch [OF served(5)] G(3) by simp
  ultimately show ?thesis
    using serve_response_state [OF served(5)] RecordFailure_db_ok [of s D "ex_record x" "rt_ID t" m]
    by (simp add: gateway_ok_def)
qed

section \<open>Integrity\<close>

text \<open>The writer's buffers, as the pipeline bounds them.\<close>

definition writer_ok :: "bool \<Rightarrow> writer \<Rightarrow> bool" where
  "writer_ok running w \<longleftrightarrow>
     (uw_retryBuf w = [] \<longleftrightarrow> uw_retryCount w = 0) \<and> uw_retryCount w \<le> usageMaxRetries \<and>
     (running \<longrightarrow> length (uw_buf w) < usageBatchSize \<and> length (uw_retryBuf w) \<le> usageBatchSize * uw_retryCount w)"

text \<open>What a refresh has read was usable when it was read, under the manager's limit.\<close>

definition reads_ok :: "('c, 'w) server \<Rightarrow> bool" where
  "reads_ok S \<longleftrightarrow> (\<forall>ts\<in>set (sv_reads S). \<forall>t\<in>set ts. usable (mg_maxFailures (gw_mgr (sv_gate S))) t)"

definition server_ok :: "('c, 'w) server \<Rightarrow> bool" where
  "server_ok S \<longleftrightarrow> gateway_ok (sv_gate S) \<and> reads_ok S \<and> writer_ok (sv_running S) (sv_writer S)"

lemma serve_reads: "sv_reads (snd (serve P E r S)) = sv_reads S" "sv_fired (snd (serve P E r S)) = sv_fired S"
  by (auto simp: serve_def serve_proxy_def serve_api_def serve_ui_def Let_def split: target.splits prod.splits)

lemma RefreshPool_max [simp]: "mg_maxFailures (RefreshPool t m) = mg_maxFailures m"
  by (simp add: RefreshPool_def)

lemma serve_max: "mg_maxFailures (gw_mgr (sv_gate (snd (serve P E r S)))) = mg_maxFailures (gw_mgr (sv_gate S))"
proof (cases "dispatch (rq_method r) (rq_escapedPath r)")
  case ToProxy
  obtain rep out G where s: "ServeHTTP (pg_driver P) (pg_cache P) (pg_upstream P) (en_exchange E) r (sv_gate S) = (rep, out, G)"
    by (metis prod_cases3)
  then have "mg_maxFailures (gw_mgr G) = mg_maxFailures (gw_mgr (sv_gate S))"
  proof (cases rule: ServeHTTP_cases)
    case (unavailable g gt e s m)
    then show ?thesis using ResolveToken_frame(7) by fastforce
  next
    case (served g gt t s m)
    with RecordFailure_mgr [of "pg_driver P" "ex_record (en_exchange E)" "rt_ID t" s m] serve_response_state [OF served(5)]
      ResolveToken_frame(7) [OF served(3)]
    show ?thesis by (auto split: if_splits)
  qed simp
  with ToProxy s show ?thesis by (simp add: serve_def serve_proxy_def)
next
  case (ToAdmin rt)
  let ?c = "clock (ae_call (en_admin E))" and ?G = "sv_gate S"
  from handle_admin_manager [of "pg_driver P" "en_admin E" "RefreshPool ?c" rt r "gw_db ?G" "gw_mgr ?G"] ToAdmin show ?thesis
    by (auto simp: serve_def serve_api_def serve_admin_def Let_def split: prod.splits bool.splits)
qed (auto simp: serve_def serve_ui_def split: prod.splits)

lemma run_turn_db_ok:
  assumes "run_turn D fe sel closed ch w s = Some (ev, ch', w', s', go)" "db_ok s"
  shows "db_ok s'"
  using assms flush_db_ok [OF assms(2), of D fe]
  by (auto simp: run_turn_def drain_def Let_def split: select_case.splits list.splits if_splits prod.splits) (metis snd_conv)+

lemma serve_gateway_ok:
  assumes "gateway_ok (sv_gate S)" "writer_ok (sv_running S) (sv_writer S)"
  shows "gateway_ok (sv_gate (snd (serve P E r S))) \<and>
    writer_ok (sv_running (snd (serve P E r S))) (sv_writer (snd (serve P E r S)))"
proof (cases "dispatch (rq_method r) (rq_escapedPath r)")
  case ToProxy
  obtain rep out G where s: "ServeHTTP (pg_driver P) (pg_cache P) (pg_upstream P) (en_exchange E) r (sv_gate S) = (rep, out, G)"
    by (metis prod_cases3)
  with assms have "gateway_ok G" using ServeHTTP_gateway_ok by blast
  with ToProxy s assms show ?thesis by (simp add: serve_def serve_proxy_def)
next
  case (ToAdmin rt)
  let ?c = "clock (ae_call (en_admin E))" and ?G = "sv_gate S"
  let ?h = "handle_admin (pg_driver P) (en_admin E) (RefreshPool ?c) rt r (gw_db ?G) (gw_mgr ?G)"
  have "db_ok (gw_db ?G)" "mgr_ok (gw_mgr ?G)" "length (gw_ch ?G) \<le> usageChannelSize"
    using assms(1) by (simp_all add: gateway_ok_def)
  moreover from this have "db_ok (fst (snd ?h))" by (intro handle_admin_db_ok)
  moreover have "mgr_ok (snd (snd ?h))"
    using handle_admin_manager [of "pg_driver P" "en_admin E" "RefreshPool ?c" rt r "gw_db ?G" "gw_mgr ?G"] calculation(2) by auto
  ultimately show ?thesis
    using ToAdmin assms
    by (auto simp: serve_def serve_api_def serve_admin_def Let_def gateway_ok_def split: prod.splits bool.splits)
next
  case (ToWeb rt)
  with assms show ?thesis by (simp add: serve_def serve_ui_def split: prod.splits)
qed (use assms in \<open>simp_all add: serve_def\<close>)

lemma serve_ok:
  assumes "server_ok S"
  shows "server_ok (snd (serve P E r S))"
  using assms serve_gateway_ok [of S P E r] by (simp add: server_ok_def reads_ok_def serve_reads serve_max)

lemma server_step_ok: "server_step P ev S S' \<Longrightarrow> server_ok S \<Longrightarrow> server_ok S'"
proof (induction rule: server_step.induct)
  case (request E r S)
  then show ?case by (rule serve_ok)
next
  case (timer t S)
  then show ?case by (simp add: server_ok_def gateway_ok_def reads_ok_def update_gate_state_def)
next
  case (pool_read S c ts)
  then have "pl_maxFailures (mg_pool (gw_mgr (sv_gate S))) = mg_maxFailures (gw_mgr (sv_gate S))"
    by (simp add: server_ok_def gateway_ok_def mgr_ok_def)
  with pool_read show ?case by (auto simp: server_ok_def reads_ok_def dest: ListActive_usable)
next
  case (pool_read_fails S c e)
  then show ?case by (simp add: server_ok_def reads_ok_def)
next
  case (pool_install S xs ts ys)
  then show ?case by (auto simp: server_ok_def gateway_ok_def reads_ok_def update_gate_state_def mgr_ok_install)
next
  case (cleanup c S)
  then show ?case by (simp add: server_ok_def gateway_ok_def reads_ok_def update_gate_state_def dbCleanup_db_ok)
next
  case (writer_turn S fe sel ev ch w s go)
  then have g: "gateway_ok (sv_gate S)" "writer_ok True (sv_writer S)" by (simp_all add: server_ok_def)
  then have w: "uw_retryBuf (sv_writer S) = [] \<longleftrightarrow> uw_retryCount (sv_writer S) = 0" "uw_retryCount (sv_writer S) \<le> usageMaxRetries"
    "length (uw_buf (sv_writer S)) < usageBatchSize"
    "length (uw_retryBuf (sv_writer S)) \<le> usageBatchSize * uw_retryCount (sv_writer S)"
    by (simp_all add: writer_ok_def)
  note t = turn_inv [OF writer_turn.hyps(3) w]
  from t have "writer_ok go w" by (auto simp: writer_ok_def)
  moreover have "db_ok s" using run_turn_db_ok [OF writer_turn.hyps(3)] g(1) by (simp add: gateway_ok_def)
  moreover have "length ch \<le> usageChannelSize" using t(4) g(1) by (simp add: gateway_ok_def)
  ultimately show ?case using g(1) writer_turn.prems by (simp add: server_ok_def gateway_ok_def reads_ok_def)
next
  case (interrupt S)
  then show ?case by (simp add: server_ok_def reads_ok_def)
qed

interpretation integrity: server_invariant P "\<lambda>_. True" "\<lambda>_. server_ok" for P
  by unfold_locales (blast intro: server_step_ok)+

text \<open>A program that starts on a database with integrity starts in a good state.\<close>

lemma main_start_InrD:
  assumes "main_start D K W noItems noSessions X = Inr (P, S)"
  obtains cfg s m U where "Load (su_flt X) (su_getenv X) = Inr cfg" "su_open X (cf_DBPath cfg) = Inr s"
    "Start D (su_refresh X) s (NewManager (cf_MaxFailures cfg) (cf_StickyTTL cfg) noItems) = (None, m)"
    "NewProxyHandler (su_authority X) (cf_UpstreamURL cfg) = Some U"
    "P = \<lparr>pg_driver = D, pg_cache = K, pg_sessions = W, pg_upstream = U, pg_secret = cf_AdminSecret cfg\<rparr>"
    "S = \<lparr>sv_gate = \<lparr>gw_db = s, gw_mgr = m, gw_ch = [], gw_dropped = 0\<rparr>, sv_sessions = noSessions,
          sv_fired = 0, sv_reads = [], sv_writer = NewUsageWriter, sv_running = True, sv_cancelled = False\<rparr>"
  using assms by (auto simp: main_start_def Setup_def split: sum.splits option.splits prod.splits)

lemma main_start_ok:
  assumes "main_start D K W noItems noSessions X = Inr (P, S)" "db_ok (gw_db (sv_gate S))"
  shows "server_ok S"
  using assms(1)
proof (rule main_start_InrD)
  fix cfg s m U
  assume "Start D (su_refresh X) s (NewManager (cf_MaxFailures cfg) (cf_StickyTTL cfg) noItems) = (None, m)"
    and S: "S = \<lparr>sv_gate = \<lparr>gw_db = s, gw_mgr = m, gw_ch = [], gw_dropped = 0\<rparr>, sv_sessions = noSessions,
          sv_fired = 0, sv_reads = [], sv_writer = NewUsageWriter, sv_running = True, sv_cancelled = False\<rparr>"
  then have "mgr_ok m" using mgr_ok_start [OF mgr_ok_new] by (metis snd_conv)
  with assms(2) show ?thesis
    by (simp add: S server_ok_def gateway_ok_def reads_ok_def writer_ok_def NewUsageWriter_def usageBatchSize_def)
qed

text \<open>
  C5: Integrity of the running program.  From any successful start on a database whose keys, references
  and flags are in order, and through every sequence of requests to the proxy, the admin API and the
  pages, pool refreshes part by part, cleanups, writer turns and the stop signal, with any fault anywhere: the
  database keeps its integrity, the pool holds only tokens that were usable when they were read, the
  usage channel holds at most 1024 entries, and the running writer's buffers at most 100 and 300.
\<close>
theorem server_integrity:
  assumes "main_start D K W noItems noSessions X = Inr (P, S0)" "db_ok (gw_db (sv_gate S0))"
    and "server_run P S0 evs t S"
  shows "db_ok (gw_db (sv_gate S)) \<and>
    (\<forall>tok\<in>set (pl_tokens (mg_pool (gw_mgr (sv_gate S)))). usable (mg_maxFailures (gw_mgr (sv_gate S))) tok) \<and>
    length (gw_ch (sv_gate S)) \<le> 1024 \<and>
    (sv_running S \<longrightarrow> length (uw_buf (sv_writer S)) < 100 \<and> length (uw_retryBuf (sv_writer S)) \<le> 300)"
proof -
  from integrity.run [OF assms(3)] main_start_ok [OF assms(1,2)] have ok: "server_ok S" by blast
  then have "writer_ok (sv_running S) (sv_writer S)" by (simp add: server_ok_def)
  then have "sv_running S \<longrightarrow> length (uw_buf (sv_writer S)) < 100 \<and> length (uw_retryBuf (sv_writer S)) \<le> 300"
    by (auto simp: writer_ok_def usageBatchSize_def usageMaxRetries_def)
  with ok show ?thesis by (auto simp: server_ok_def gateway_ok_def mgr_ok_def pool_ok_def usageChannelSize_def)
qed

section \<open>A sample run\<close>

definition sample_startup :: startup where
  "sample_startup =
     \<lparr>su_flt = (\<lambda>_ _ _. 0), su_authority = Some, su_getenv = (\<lambda>_. [])(''CLAUDE_GATE_ADMIN_SECRET'' := ''s3cret''),
      su_open = (\<lambda>_. Inr sample_db), su_refresh = call_at 0\<rparr>"

lemma sample_db_readable: "r \<in> set (real_tokens sample_db) \<Longrightarrow> real_readable text_driver r"
  by (auto simp: sample_db_def sample_real_def real_readable_def readable_def)

lemma sample_pool_read:
  "\<exists>ts. ListActiveRealTokens text_driver (call_at 0) 5 sample_db = Inr ts \<and> map rt_ID ts = [''a'', ''b'']"
proof -
  have "active_below 5 (sample_real ''a'')" "active_below 5 (sample_real ''b'')" by (simp_all add: active_below_def sample_real_def)
  moreover have "rr_created (sample_real i) = Bound (UTC 0)" for i by (simp add: sample_real_def)
  moreover have "scanRealToken text_driver (sample_real i) = Inr (sample_token i)" for i
    by (simp add: scanRealToken_def sample_real_def sample_token_def)
  ultimately show ?thesis
    by (simp add: ListActiveRealTokens_def query_rows_def sample_db_def order_by_def sample_token_def key_le_def)
qed

lemma sample_started:
  obtains P S where
    "main_start text_driver item_cache (item_cache :: (bool items, bool) ttlcache) (\<lambda>_. None) (\<lambda>_. None) sample_startup = Inr (P, S)"
    "pg_driver P = text_driver" "pg_secret P = ''s3cret''" "pg_sessions P = item_cache" "gw_db (sv_gate S) = sample_db"
    "mg_refreshAt (gw_mgr (sv_gate S)) = None" "sv_sessions S = (\<lambda>_. None)"
    "pool_sized (mg_pool (gw_mgr (sv_gate S)))" "map rt_ID (pl_tokens (mg_pool (gw_mgr (sv_gate S)))) = [''a'', ''b'']"
    "sv_writer S = NewUsageWriter" "sv_running S" "\<not> sv_cancelled S" "gw_ch (sv_gate S) = []"
    "sv_fired S = 0" "sv_reads S = []"
proof -
  obtain cfg where cfg: "Load (su_flt sample_startup) (su_getenv sample_startup) = Inr cfg" "cf_AdminSecret cfg = ''s3cret''"
    "cf_UpstreamURL cfg = ''https://api.anthropic.com''" "cf_MaxFailures cfg = 5"
    by (simp add: Load_def Let_def sample_startup_def envOr_def envInt_def default_max_failures_def)
  have "url_Parse Some ''https://api.anthropic.com'' = Some \<lparr>url_Scheme = ''https'', url_Opaque = [],
      url_Host = ''api.anthropic.com'', url_Path = [], url_RawQuery = []\<rparr>" by code_simp
  then obtain U where U: "NewProxyHandler Some ''https://api.anthropic.com'' = Some U" by (simp add: NewProxyHandler_def)
  let ?m = "NewManager (cf_MaxFailures cfg) (cf_StickyTTL cfg) (\<lambda>_. None) :: string items manager"
  obtain ts where ts: "ListActiveRealTokens text_driver (call_at 0) (cf_MaxFailures cfg) sample_db = Inr ts" "map rt_ID ts = [''a'', ''b'']"
    using sample_pool_read by (auto simp: cfg(4))
  then have st: "Start text_driver (call_at 0) sample_db ?m = (None, ?m\<lparr>mg_pool := mg_pool ?m\<lparr>pl_tokens := ts\<rparr>\<rparr>)"
    by (simp add: Start_def Refresh_def NewManager_def NewTokenPool_def)
  have "mg_refreshAt ?m = None" by (simp add: NewManager_def)
  moreover have "length ts = 2" using ts(2) by (metis length_map length_Cons list.size(3) numeral_2_eq_2)
  then have "pool_sized (mg_pool ?m\<lparr>pl_tokens := ts\<rparr>)" by (simp add: pool_sized_def)
  ultimately show ?thesis using that cfg U st ts(2)
    by (simp add: main_start_def Setup_def sample_startup_def)
qed

theorem server_integrity_witness:
  "\<exists>(P :: (string items, bool items) program) S0 S evs t.
     server_run P S0 evs t S \<and> length evs = 2 \<and> db_ok (gw_db (sv_gate S)) \<and> length (gw_ch (sv_gate S)) \<le> 1024"
proof -
  obtain P S0 where st:
    "main_start text_driver item_cache (item_cache :: (bool items, bool) ttlcache) (\<lambda>_. None) (\<lambda>_. None) sample_startup = Inr (P, S0)"
    "gw_db (sv_gate S0) = sample_db"
    by (rule sample_started)
  have "server_run P S0 [] 0 S0" by (rule server_run.init)
  from server_run.step [OF this server_step.cleanup [of P "call_at 5"], of 5] obtain S1 where
    "server_run P S0 [Cleanup (call_at 5)] 5 S1" by auto
  from server_run.step [OF this server_step.interrupt, of 5] obtain S where
    run: "server_run P S0 [Interrupt, Cleanup (call_at 5)] 5 S" by auto
  have "db_ok (gw_db (sv_gate S0))" using st(2) sample_db_ok by simp
  from server_integrity [OF st(1) this run] run show ?thesis
    by (intro exI [of _ P] exI [of _ S0] exI [of _ S] exI [of _ "[Interrupt, Cleanup (call_at 5)]"] exI [of _ 5]) simp
qed

end
