(* ===== verification/Server_Pool.thy ===== *)
theory Server_Pool
  imports Server_Invariants Failure_Properties
begin

text \<open>
  The token pool against the database while the program runs: every change of the usable tokens
  schedules a refresh, and until then the pool is exactly what the database says; and how long a
  refresh can be put off.
\<close>

section \<open>The view of the pool\<close>

definition active_view :: "driver \<Rightarrow> int \<Rightarrow> db \<Rightarrow> (string \<times> string) list" where
  "active_view D mx s =
     map (\<lambda>r. (rr_id r, rr_access r)) (order_by (txt_le D) rr_created (filter (active_below mx) (real_tokens s)))"

definition pool_view :: "pool \<Rightarrow> (string \<times> string) list" where
  "pool_view p = map (\<lambda>t. (rt_ID t, rt_AccessToken t)) (pl_tokens p)"

definition rows_readable :: "driver \<Rightarrow> db \<Rightarrow> bool" where
  "rows_readable D s \<longleftrightarrow> (\<forall>r\<in>set (real_tokens s). real_readable D r)"

definition tokens_view :: "RealToken list \<Rightarrow> (string \<times> string) list" where
  "tokens_view ts = map (\<lambda>t. (rt_ID t, rt_AccessToken t)) ts"

lemma ListActive_view:
  assumes "ListActiveRealTokens D c mx s = Inr ts"
  shows "tokens_view ts = active_view D mx s"
proof -
  let ?rows = "order_by (txt_le D) rr_created (filter (active_below mx) (real_tokens s))"
  have "list_all2 (\<lambda>r t. scanRealToken D r = Inr t) ?rows ts"
    using scan_rows_InrD [OF query_rows_InrD [OF assms [unfolded ListActiveRealTokens_def]]] .
  then have "map (\<lambda>t. (rt_ID t, rt_AccessToken t)) ts = map (\<lambda>r. (rr_id r, rr_access r)) ?rows"
    by (induction rule: list_all2_induct) (auto dest: scanRealToken_InrD)
  then show ?thesis by (simp add: tokens_view_def active_view_def)
qed

lemma install_view [simp]: "pool_view ((mg_pool m)\<lparr>pl_tokens := ts\<rparr>) = tokens_view ts"
  by (simp add: pool_view_def tokens_view_def)

text \<open>
  A refresh is scheduled, or everything is current: what a refresh on its way has read (\<open>vs\<close>) and, when none
  is on its way (\<open>idle\<close>), the pool.
\<close>

definition pool_current :: "driver \<Rightarrow> bool \<Rightarrow> (string \<times> string) list set \<Rightarrow> db \<Rightarrow> 'c manager \<Rightarrow> bool" where
  "pool_current D idle vs s m \<longleftrightarrow>
     rows_readable D s \<and> pl_maxFailures (mg_pool m) = mg_maxFailures m \<and>
     (mg_refreshAt m \<noteq> None \<or>
        (idle \<longrightarrow> pool_view (mg_pool m) = active_view D (mg_maxFailures m) s) \<and>
        (\<forall>v\<in>vs. v = active_view D (mg_maxFailures m) s))"

text \<open>A change of the database that the pool need not see.\<close>

definition unseen :: "driver \<Rightarrow> db \<Rightarrow> db \<Rightarrow> bool" where
  "unseen D s s' \<longleftrightarrow> (\<forall>mx. active_view D mx s' = active_view D mx s) \<and> (rows_readable D s \<longrightarrow> rows_readable D s')"

lemma unseen_refl [simp]: "unseen D s s"
  by (simp add: unseen_def)

lemma unseen_trans: "unseen D s s' \<Longrightarrow> unseen D s' s'' \<Longrightarrow> unseen D s s''"
  by (simp add: unseen_def)

lemma unseen_same_rows: "real_tokens s' = real_tokens s \<Longrightarrow> unseen D s s'"
  by (simp add: unseen_def active_view_def rows_readable_def)

lemma unseen_update_real:
  assumes "\<And>r. rr_id (f r) = rr_id r" "\<And>r. rr_access (f r) = rr_access r" "\<And>r. rr_created (f r) = rr_created r"
    and "\<And>r. rr_active (f r) = rr_active r" "\<And>r. rr_failures (f r) = rr_failures r"
    and "\<And>r. real_readable D r \<Longrightarrow> real_readable D (f r)"
  shows "unseen D s (update_real i f s)"
proof -
  define g where "g = (\<lambda>r. if rr_id r = i then f r else r)"
  have g: "rr_id (g r) = rr_id r" "rr_access (g r) = rr_access r" "rr_created (g r) = rr_created r"
    "active_below mx (g r) = active_below mx r" "real_readable D r \<Longrightarrow> real_readable D (g r)" for r mx
    using assms by (simp_all add: g_def active_below_def)
  have rows: "real_tokens (update_real i f s) = map g (real_tokens s)"
    by (simp add: update_real_def update_where_def g_def)
  have "active_view D mx (update_real i f s) = active_view D mx s" for mx
    by (simp add: active_view_def rows filter_map comp_def g order_by_map)
  moreover have "rows_readable D s \<longrightarrow> rows_readable D (update_real i f s)"
    using g(5) by (auto simp: rows_readable_def rows)
  ultimately show ?thesis by (simp add: unseen_def)
qed

lemma unseen_current: "unseen D s s' \<Longrightarrow> pool_current D idle vs s m \<Longrightarrow> pool_current D idle vs s' m"
  by (auto simp: pool_current_def unseen_def)

lemma scheduled_current:
  "pool_current D idle vs s m \<Longrightarrow> rows_readable D s' \<Longrightarrow> pool_current D idle vs s' (RefreshPool t m)"
  by (simp add: pool_current_def RefreshPool_def)

lemma rows_readable_update:
  "rows_readable D s \<Longrightarrow> (\<And>r. real_readable D r \<Longrightarrow> real_readable D (f r)) \<Longrightarrow> rows_readable D (update_real i f s)"
  by (auto simp: rows_readable_def update_real_def set_update_where)

section \<open>The start\<close>

lemma start_current:
  assumes "Start D c s (NewManager mx ttl ch) = (None, m)" "rows_readable D s"
  shows "pool_current D True {} s m"
proof -
  from assms(1) obtain ts where ts: "ListActiveRealTokens D c mx s = Inr ts"
    "m = NewManager mx ttl ch\<lparr>mg_pool := (NewTokenPool mx)\<lparr>pl_tokens := ts\<rparr>\<rparr>"
    by (auto simp: Start_def Refresh_def NewManager_def NewTokenPool_def split: sum.splits)
  then have "pool_view (mg_pool m) = tokens_view ts" by (simp add: pool_view_def tokens_view_def)
  with assms(2) ListActive_view [OF ts(1)] show ?thesis
    by (simp add: pool_current_def ts(2) NewManager_def NewTokenPool_def)
qed

section \<open>Requests\<close>

lemma RecordFailure_current:
  assumes "driver_reads D" "no_fault c" "era (clock c)" "pool_current D idle vs s m"
  shows "pool_current D idle vs (fst (snd (RecordFailure D c i s m))) (snd (snd (RecordFailure D c i s m)))"
proof (cases "find_real s i")
  case None
  then have "i \<notin> real_ids s" by (simp add: find_real_None)
  then have s: "update_real i (failed_row (clock c)) s = s" using update_missing(1) count_token_ids(1) by blast
  have "GetRealToken D (later 1 c) i s = Inl ErrNoRows"
    using None assms(2) by (simp add: GetRealToken_def query_row_def find_real_def)
  with assms(4) s show ?thesis by (simp add: RecordFailure_def Increment_no_fault [OF assms(2)])
next
  case (Some r)
  have rd: "rows_readable D s" using assms(4) by (simp add: pool_current_def)
  with Some have "real_readable D r" by (auto simp: rows_readable_def find_real_def dest: find_row_SomeD)
  note rf = RecordFailure_no_fault [OF assms(2,1,3) Some this, of m]
  have "rows_readable D (update_real i (failed_row (clock c)) s)"
    using rd by (rule rows_readable_update) (rule failed_row_readable [OF assms(1,3)])
  moreover from this have "rows_readable D (update_real i (switched_off (clock c)) (update_real i (failed_row (clock c)) s))"
    by (rule rows_readable_update) (rule switched_off_readable [OF assms(1,3)])
  ultimately show ?thesis unfolding rf using scheduled_current [OF assms(4)] by simp
qed

lemma ServeHTTP_current:
  assumes "ServeHTTP D K U x r G = (rep, out, G')" "driver_reads D" "no_fault (ex_record x)" "era (clock (ex_record x))"
    and "pool_current D idle vs (gw_db G) (gw_mgr G)"
  shows "pool_current D idle vs (gw_db G') (gw_mgr G')"
proof -
  have keep: "pool_current D idle vs s m" if "ResolveToken D K c g (gw_db G) (gw_mgr G) = (res, s, m)" for c g res s m
    using assms(5) ResolveToken_frame [OF that]
    by (simp add: pool_current_def pool_view_def active_view_def rows_readable_def)
  from assms(1) show ?thesis
  proof (cases rule: ServeHTTP_cases)
    case refused
    with assms(5) show ?thesis by simp
  next
    case (unavailable g gt e s m)
    with keep show ?thesis by simp
  next
    case (served g gt t s m)
    from keep [OF served(3)] have "pool_current D idle vs s m" .
    with RecordFailure_current [OF assms(2-4) this, of "rt_ID t"] serve_response_state [OF served(5)] show ?thesis by simp
  qed
qed

lemma real_ops_current:
  assumes "driver_reads D" "no_fault c" "era (clock c)" "pool_current D idle vs s m"
  shows "pool_current D idle vs (snd (set_active_op tab c i b s))
      (if fst (set_active_op tab c i b s) = None then pool_changed tab (RefreshPool t) m else m)"
    "pool_current D idle vs (snd (delete_op tab c i s))
      (if fst (delete_op tab c i s) = None then pool_changed tab (RefreshPool t) m else m)"
    "unseen D s (snd (rename_op tab c i n s))"
proof -
  have rd: "rows_readable D s" using assms(4) by (simp add: pool_current_def)
  have now: "readable D (DtNow (clock c))" by (rule readable_now [OF assms(1,3)])
  show "pool_current D idle vs (snd (set_active_op tab c i b s))
      (if fst (set_active_op tab c i b s) = None then pool_changed tab (RefreshPool t) m else m)"
  proof (cases tab)
    case RealTokens
    have "rows_readable D (snd (SetRealTokenActive c i b s))"
      using assms(2) rd now by (auto simp: SetRealTokenActive_def Let_def real_readable_def intro!: rows_readable_update)
    then show ?thesis
      using RealTokens op_results(1) [OF assms(2), of tab i b s] op_missing(1) [OF assms(2), of i tab s b]
        scheduled_current [OF assms(4)] assms(4)
      by (auto simp: set_active_op_def pool_changed_def)
  next
    case GateTokens
    have "unseen D s (snd (SetGateTokenActive c i b s))"
      by (rule unseen_same_rows) (simp add: SetGateTokenActive_def Let_def)
    with GateTokens assms(4) show ?thesis by (auto simp: set_active_op_def pool_changed_def intro: unseen_current)
  qed
  show "pool_current D idle vs (snd (delete_op tab c i s))
      (if fst (delete_op tab c i s) = None then pool_changed tab (RefreshPool t) m else m)"
  proof (cases tab)
    case RealTokens
    have "rows_readable D (snd (DeleteRealToken c i s))"
      using rd withTx_cascade_ok [of c 5 RealTokens i s]
      by (cases "fst (withTx c 5 (cascadeDelete c RealTokens i) s)")
        (auto simp: DeleteRealToken_def rows_readable_def delete_token_def delete_usage_def delete_sticky_def withTx_error)
    then show ?thesis
      using RealTokens op_results(2) [OF assms(2), of tab i s] op_missing(2) [OF assms(2), of i tab s]
        scheduled_current [OF assms(4)] assms(4)
      by (auto simp: delete_op_def pool_changed_def)
  next
    case GateTokens
    have "real_tokens (snd (withTx c 5 (cascadeDelete c GateTokens i) s)) = real_tokens s"
      using withTx_cases [of c 5 "cascadeDelete c GateTokens i" s]
      by (auto dest!: cascadeDelete_ok simp: delete_token_def delete_usage_def delete_sticky_def)
    then have "unseen D s (snd (DeleteGateToken c i s))" by (intro unseen_same_rows) (simp add: DeleteGateToken_def)
    with GateTokens assms(4) show ?thesis by (auto simp: delete_op_def pool_changed_def intro: unseen_current)
  qed
  show "unseen D s (snd (rename_op tab c i n s))"
  proof (cases tab)
    case RealTokens
    then show ?thesis
      using assms(2) now by (auto simp: rename_op_def UpdateRealToken_def real_readable_def intro!: unseen_update_real)
  next
    case GateTokens
    then show ?thesis by (intro unseen_same_rows) (simp add: rename_op_def UpdateGateToken_def)
  qed
qed

lemma CreateRealToken_current:
  assumes "driver_reads D" "era (clock c)" "pool_current D idle vs s m"
  shows "pool_current D idle vs (snd (CreateRealToken c rnd n k q s))
    (case fst (CreateRealToken c rnd n k q s) of Inl e \<Rightarrow> m | Inr tok \<Rightarrow> RefreshPool t m)"
proof -
  have rd: "rows_readable D s" using assms(3) by (simp add: pool_current_def)
  have "readable D (Bound (UTC (clock c)))"
    using assms(1,2) by (auto simp: driver_reads_def readable_def UTC_def)
  with rd have "rows_readable D (snd (CreateRealToken c rnd n k q s))"
    by (auto simp: CreateRealToken_def Let_def rows_readable_def real_readable_def)
  moreover have "snd (CreateRealToken c rnd n k q s) = s" if "fst (CreateRealToken c rnd n k q s) = Inl e" for e
    using that by (auto simp: CreateRealToken_def Let_def split: if_splits)
  ultimately show ?thesis
    using assms(3) scheduled_current [OF assms(3)] by (auto split: sum.split)
qed

lemma handle_admin_current:
  assumes "driver_reads D" "no_fault (ae_call A)" "era (clock (ae_call A))" "pool_current D idle vs s m"
  shows "pool_current D idle vs (fst (snd (handle_admin D A (RefreshPool t) rt r s m))) (snd (snd (handle_admin D A (RefreshPool t) rt r s m)))"
proof (cases rt)
  case (SetActive tab i b)
  obtain e s' where o: "set_active_op tab (ae_call A) i b s = (e, s')" by fastforce
  with real_ops_current(1) [OF assms, of tab i b t] SetActive show ?thesis
    by (auto simp: handle_admin_eq Let_def handler_ops split: option.splits)
next
  case (DeleteToken tab i)
  obtain e s' where o: "delete_op tab (ae_call A) i s = (e, s')" by fastforce
  with real_ops_current(2) [OF assms, of tab i t] DeleteToken show ?thesis
    by (auto simp: handle_admin_eq Let_def handler_ops split: option.splits)
next
  case (UpdateToken tab i)
  have "unseen D s (fst (snd (update_token (ae_call A) tab i r s m)))"
    using update_token_state [of "ae_call A" tab i r s m] real_ops_current(3) [OF assms, of tab i] by auto
  with UpdateToken update_token_state [of "ae_call A" tab i r s m] assms(4) show ?thesis
    by (simp add: handle_admin_eq Let_def unseen_current)
next
  case CreateReal
  show ?thesis
  proof (cases "create_real_request r")
    case None
    with CreateReal assms(4) show ?thesis by (simp add: handle_admin_eq Let_def createRealToken_def)
  next
    case (Some q)
    obtain x s' where c: "CreateRealToken (ae_call A) (ae_rndID A) (cr_Name q) (cr_AccessToken q) (cr_RefreshToken q) s = (x, s')"
      by fastforce
    with CreateReal Some assms(4)
      CreateRealToken_current [OF assms(1,3,4), of "ae_rndID A" "cr_Name q" "cr_AccessToken q" "cr_RefreshToken q" t]
    show ?thesis by (auto simp: handle_admin_eq Let_def createRealToken_def split: sum.splits)
  qed
next
  case CreateGate
  have "real_tokens (snd (CreateGateToken (ae_call A) (ae_rndID A) (ae_rndToken A) n k s)) = real_tokens s" for n k
    by (simp add: CreateGateToken_def Let_def)
  then have rows: "real_tokens (fst (snd (createGateToken (ae_call A) (ae_rndID A) (ae_rndToken A) r s m))) = real_tokens s"
    by (auto simp: createGateToken_def split: option.splits sum.splits prod.splits) (metis snd_conv)+
  have "snd (snd (createGateToken (ae_call A) (ae_rndID A) (ae_rndToken A) r s m)) = m"
    by (auto simp: createGateToken_def split: option.splits sum.splits prod.splits)
  with CreateGate unseen_current [OF unseen_same_rows [OF rows] assms(4)] show ?thesis
    by (simp add: handle_admin_eq Let_def)
qed (use assms(4) in \<open>simp_all add: handle_admin_eq Let_def\<close>)

section \<open>The writer\<close>

lemma unseen_updates:
  assumes "\<And>c k a b s. clock c = t \<Longrightarrow> unseen D s (snd (upd c k a b s))" "clock c = t"
  shows "unseen D s (apply_updates upd c m s)"
  using assms(2)
proof (induction m arbitrary: c s)
  case (Cons x m)
  obtain k a b where x: "x = (k, a, b)" by (metis prod_cases3)
  from Cons.prems have "unseen D s (snd (upd c k a b s))" by (rule assms(1))
  with Cons.IH [of "later 1 c" "snd (upd c k a b s)"] Cons.prems show ?case
    unfolding x by (auto intro: unseen_trans)
qed simp

lemma insert_logs_rows: "real_tokens (snd (insert_logs c k ls s)) = real_tokens s"
  by (induction c k ls s rule: insert_logs.induct) auto

lemma InsertUsageLogs_rows: "real_tokens (snd (InsertUsageLogs c ls s)) = real_tokens s"
  using insert_logs_rows [of c _ ls s]
  by (auto simp: InsertUsageLogs_def split: prod.split option.split) (metis snd_conv)+

lemma flush_unseen:
  assumes "driver_reads D" "era (clock (fe_call fe))"
  shows "unseen D s (snd (snd (flush D fe w s)))"
proof -
  let ?t = "clock (fe_call fe)"
  have now: "readable D (DtNow ?t)" by (rule readable_now [OF assms])
  have gates: "unseen D s (snd (UpdateGateTokenUsage D c k a b s))" for c k a b s
    by (rule unseen_same_rows) (simp add: UpdateGateTokenUsage_def)
  have reals: "unseen D s (snd (UpdateRealTokenUsage D c k a b s))" if "clock c = ?t" for c k a b s
    using now that by (auto simp: UpdateRealTokenUsage_def real_readable_def intro!: unseen_update_real)
  have upd: "unseen D s (apply_updates (UpdateRealTokenUsage D) c' m' (apply_updates (UpdateGateTokenUsage D) c m s))"
    if "clock c = ?t" "clock c' = ?t" for c c' m m' s
    using unseen_trans [OF unseen_updates [OF gates that(1)] unseen_updates [OF reals that(2)]] .
  let ?r = "InsertUsageLogs (fe_call fe) (map log_of_entry (uw_retryBuf w @ uw_buf w)) s"
  have ins: "unseen D s (snd ?r)" by (rule unseen_same_rows [OF InsertUsageLogs_rows])
  obtain e s1 where r: "?r = (e, s1)" by fastforce
  with ins have "unseen D s s1" by simp
  with r upd show ?thesis
    by (auto simp: flush_def Let_def split: option.splits intro: unseen_trans)
qed

lemma run_turn_unseen:
  assumes "run_turn D fe sel closed ch w s = Some (ev, ch', w', s', go)" "driver_reads D" "era (clock (fe_call fe))"
  shows "unseen D s s'"
  using assms(1) flush_unseen [OF assms(2,3)]
  by (auto simp: run_turn_def drain_def Let_def split: select_case.splits list.splits if_splits prod.splits) (metis snd_conv)+

section \<open>The invariant\<close>

text \<open>
  An event in good weather: the calls that change or read the real tokens do not fail, and their clocks
  are times the database can hold.  The failure of any other call is allowed.
\<close>

fun calm :: "event \<Rightarrow> bool" where
  "calm (Served E r) \<longleftrightarrow>
     no_fault (ex_record (en_exchange E)) \<and> era (clock (ex_record (en_exchange E))) \<and>
     no_fault (ae_call (en_admin E)) \<and> era (clock (ae_call (en_admin E)))"
| "calm (PoolReads c) \<longleftrightarrow> no_fault c"
| "calm (WriterTurn fe sel) \<longleftrightarrow> era (clock (fe_call fe))"
| "calm _ \<longleftrightarrow> True"

text \<open>
  A refresh is on its way from the firing of its timer to its installation.  Runs with one refresh at a time:
  no timer fires while a refresh is on its way.
\<close>

fun refreshing_after :: "event list \<Rightarrow> bool" where
  "refreshing_after [] = False"
| "refreshing_after (TimerFires t # evs) = True"
| "refreshing_after (PoolInstalls # evs) = False"
| "refreshing_after (ev # evs) = refreshing_after evs"

fun one_refresh_at_a_time :: "event list \<Rightarrow> bool" where
  "one_refresh_at_a_time [] = True"
| "one_refresh_at_a_time (TimerFires t # evs) = (\<not> refreshing_after evs \<and> one_refresh_at_a_time evs)"
| "one_refresh_at_a_time (ev # evs) = one_refresh_at_a_time evs"

lemma one_refresh_earlier: "one_refresh_at_a_time (ev # evs) \<Longrightarrow> one_refresh_at_a_time evs"
  by (cases ev) simp_all

definition under_way :: "('c, 'w) server \<Rightarrow> nat" where
  "under_way S = sv_fired S + length (sv_reads S)"

definition pool_follows :: "('c, 'w) program \<Rightarrow> event list \<Rightarrow> ('c, 'w) server \<Rightarrow> bool" where
  "pool_follows P evs S \<longleftrightarrow>
     (driver_reads (pg_driver P) \<longrightarrow>
        under_way S = (if refreshing_after evs then 1 else 0) \<and>
        pool_current (pg_driver P) (\<not> refreshing_after evs) (tokens_view ` set (sv_reads S))
          (gw_db (sv_gate S)) (gw_mgr (sv_gate S)))"

lemma serve_current:
  assumes "driver_reads (pg_driver P)" "calm (Served E r)" "pool_current (pg_driver P) idle vs (gw_db (sv_gate S)) (gw_mgr (sv_gate S))"
  shows "pool_current (pg_driver P) idle vs (gw_db (sv_gate (snd (serve P E r S)))) (gw_mgr (sv_gate (snd (serve P E r S))))"
proof (cases "dispatch (rq_method r) (rq_escapedPath r)")
  case ToProxy
  obtain rep out G where s: "ServeHTTP (pg_driver P) (pg_cache P) (pg_upstream P) (en_exchange E) r (sv_gate S) = (rep, out, G)"
    by (metis prod_cases3)
  with ServeHTTP_current [OF s assms(1) _ _ assms(3)] assms(2) have "pool_current (pg_driver P) idle vs (gw_db G) (gw_mgr G)" by simp
  with ToProxy s show ?thesis by (simp add: serve_def serve_proxy_def)
next
  case (ToAdmin rt)
  with handle_admin_current [OF assms(1) _ _ assms(3), of "en_admin E"] assms(2,3) show ?thesis
    by (auto simp: serve_def serve_api_def serve_admin_def Let_def split: prod.splits bool.splits)
      (metis fst_conv snd_conv)
next
  case (ToWeb rt)
  with assms(3) show ?thesis by (simp add: serve_def serve_ui_def split: prod.splits)
qed (use assms(3) in \<open>simp_all add: serve_def\<close>)

lemma pool_follows_step:
  assumes "server_step P ev S S'" "list_all calm (ev # evs) \<and> one_refresh_at_a_time (ev # evs)" "pool_follows P evs S"
  shows "pool_follows P (ev # evs) S'"
  using assms
proof (induction rule: server_step.induct)
  case (request E r S)
  then show ?case unfolding pool_follows_def by (simp add: under_way_def serve_reads serve_current)
next
  case (timer t S)
  then show ?case by (auto simp: pool_follows_def under_way_def update_gate_state_def pool_current_def)
next
  case (pool_read S c ts)
  then show ?case
    by (cases "refreshing_after evs") (auto simp: pool_follows_def under_way_def pool_current_def dest: ListActive_view)
next
  case (pool_read_fails S c e)
  show ?case unfolding pool_follows_def
  proof
    assume "driver_reads (pg_driver P)"
    with pool_read_fails.prems(2) have "\<And>r. r \<in> set (real_tokens (gw_db (sv_gate S))) \<Longrightarrow> real_readable (pg_driver P) r"
      by (simp add: pool_follows_def pool_current_def rows_readable_def)
    with ListActiveRealTokens_no_fault [of c "gw_db (sv_gate S)" "pg_driver P"] pool_read_fails
    show "under_way (S\<lparr>sv_fired := sv_fired S - 1\<rparr>) = (if refreshing_after (PoolReads c # evs) then 1 else 0) \<and>
      pool_current (pg_driver P) (\<not> refreshing_after (PoolReads c # evs)) (tokens_view ` set (sv_reads (S\<lparr>sv_fired := sv_fired S - 1\<rparr>)))
        (gw_db (sv_gate (S\<lparr>sv_fired := sv_fired S - 1\<rparr>))) (gw_mgr (sv_gate (S\<lparr>sv_fired := sv_fired S - 1\<rparr>)))"
      by simp
  qed
next
  case (pool_install S xs ts ys)
  then show ?case
    by (cases "refreshing_after evs") (auto simp: pool_follows_def under_way_def update_gate_state_def pool_current_def)
next
  case (cleanup c S)
  have "real_tokens (dbCleanup (pg_driver P) c (gw_db (sv_gate S))) = real_tokens (gw_db (sv_gate S))"
    by (simp add: dbCleanup_def DeleteExpiredStickySessions_def)
  with cleanup show ?case
    by (auto simp: pool_follows_def under_way_def update_gate_state_def intro: unseen_current [OF unseen_same_rows])
next
  case (writer_turn S fe sel ev ch w s go)
  with run_turn_unseen [OF writer_turn.hyps(3)] show ?case
    by (auto simp: pool_follows_def under_way_def intro: unseen_current)
next
  case (interrupt S)
  then show ?case by (simp add: pool_follows_def under_way_def)
qed

interpretation pooled: server_invariant P "\<lambda>evs. list_all calm evs \<and> one_refresh_at_a_time evs" "pool_follows P" for P
  by unfold_locales (auto intro: pool_follows_step dest: one_refresh_earlier)

text \<open>
  C6: The pool follows the database when refreshes do not overlap.  After a successful start on readable
  rows, and through every run in which the calls on the real tokens do not fail and no refresh timer fires
  while an earlier refresh is still on its way (it has not read, or not yet installed what it
  read), whatever requests and other steps come between the parts of a refresh: whenever no refresh is scheduled
  and none is on its way, the pool holds exactly the tokens that are active and below the failure limit
  in the database, with their current access tokens and in order of creation.  So every operation that
  makes a token usable or unusable (creating, deleting, switching on or off, a recorded failure)
  schedules a refresh, and nothing else has to.  Without the condition it is false, see Pool_Refresh.
\<close>
theorem pool_follows_database:
  assumes "main_start D K W noItems noSessions X = Inr (P, S0)" "driver_reads D"
    and "rows_readable D (gw_db (sv_gate S0))" "server_run P S0 evs t S" "list_all calm evs"
    and "one_refresh_at_a_time evs" "mg_refreshAt (gw_mgr (sv_gate S)) = None" "under_way S = 0"
  shows "pool_view (mg_pool (gw_mgr (sv_gate S))) = active_view D (mg_maxFailures (gw_mgr (sv_gate S))) (gw_db (sv_gate S))"
proof -
  have P: "pg_driver P = D" and "pool_follows P [] S0"
    by (rule main_start_InrD [OF assms(1)];
        use start_current assms(3) in \<open>fastforce simp: pool_follows_def under_way_def\<close>)+
  with pooled.run [OF assms(4)] assms(5,6) have "pool_follows P evs S" by blast
  with P assms(2,7,8) show ?thesis by (simp add: pool_follows_def pool_current_def split: if_splits)
qed

theorem pool_follows_database_witness:
  "\<exists>(P :: (string items, bool items) program) S0 S evs t. server_run P S0 evs t S \<and> length evs = 2 \<and>
     pool_view (mg_pool (gw_mgr (sv_gate S))) = active_view text_driver (mg_maxFailures (gw_mgr (sv_gate S))) (gw_db (sv_gate S))"
proof -
  obtain P S0 where st:
    "main_start text_driver item_cache (item_cache :: (bool items, bool) ttlcache) (\<lambda>_. None) (\<lambda>_. None) sample_startup = Inr (P, S0)"
    "gw_db (sv_gate S0) = sample_db" "mg_refreshAt (gw_mgr (sv_gate S0)) = None" "sv_fired S0 = 0" "sv_reads S0 = []"
    by (rule sample_started)
  define S where "S = update_gate_state (\<lambda>G. G\<lparr>gw_db := dbCleanup (pg_driver P) (call_at 5) (gw_db G)\<rparr>) S0"
  have "server_run P S0 [] 0 S0" by (rule server_run.init)
  from server_run.step [OF this server_step.cleanup [of P "call_at 5"], of 5] have
    "server_run P S0 [Cleanup (call_at 5)] 5 S" by (simp add: S_def)
  from server_run.step [OF this server_step.interrupt, of 5] have
    run: "server_run P S0 [Interrupt, Cleanup (call_at 5)] 5 (S\<lparr>sv_cancelled := True\<rparr>)" by simp
  have "rows_readable text_driver (gw_db (sv_gate S0))"
    using sample_db_readable by (simp add: st(2) rows_readable_def)
  moreover have "mg_refreshAt (gw_mgr (sv_gate (S\<lparr>sv_cancelled := True\<rparr>))) = None"
    by (simp add: S_def update_gate_state_def st(3))
  moreover have "under_way (S\<lparr>sv_cancelled := True\<rparr>) = 0"
    by (simp add: S_def update_gate_state_def under_way_def st(4,5))
  ultimately show ?thesis
    using pool_follows_database [OF st(1) text_driver_reads _ run] run
    by (intro exI [of _ P] exI [of _ S0] exI [of _ "S\<lparr>sv_cancelled := True\<rparr>"] exI [of _ "[Interrupt, Cleanup (call_at 5)]"] exI [of _ 5]) simp
qed

section \<open>The refresh put off\<close>

text \<open>
  Failures that keep coming put the refresh off.  A token fails again and again, each time less than
  100 ms after the last, until the limit is reached: the database has it switched off, but each
  failure has moved the deadline of the refresh, which was due at no moment since the first one
  and is not due until 100 ms after the last.  The pool is still the old one, so a gate token that is
  bound to the token goes on being served with it.
\<close>
theorem refresh_postponed:
  assumes "driver_reads D" "\<forall>c\<in>set cs. no_fault c \<and> era (clock c)" "cs \<noteq> []"
    and "successively (\<lambda>c d. clock d < clock c + poolRefreshDebounce) cs"
    and "find_real s i = Some r" "real_readable D r" "mg_maxFailures m \<le> rr_failures r + int (length cs)"
    and "record_failures D cs i s m = (s', m')"
  shows "(\<exists>r'. find_real s' i = Some r' \<and> rr_active r' = 0) \<and> mg_pool m' = mg_pool m \<and>
    (\<forall>n. 0 < n \<longrightarrow> n < length cs \<longrightarrow>
       \<not> refresh_due (clock (cs ! n)) (snd (record_failures D (take n cs) i s m))) \<and>
    (\<forall>t < clock (last cs) + poolRefreshDebounce. \<not> refresh_due t m') \<and>
    (\<forall>K c g ch t. Resolve D K c g s' (mg_cache m') = (Some i, ch) \<longrightarrow> GetByID i (mg_pool m) = Some t \<longrightarrow>
       fst (ResolveToken D K c g s' m') = Inr t)"
proof -
  have all: "m' = RefreshPool (clock (last cs)) m"
    "\<exists>r'. find_real s' i = Some r' \<and> rr_active r' = 0"
    using failures_recorded [OF assms(1,2,3,5,6,8)] assms(7) by auto
  have "\<not> refresh_due (clock (cs ! n)) (snd (record_failures D (take n cs) i s m))" if "0 < n" "n < length cs" for n
  proof -
    obtain s1 m1 where rec: "record_failures D (take n cs) i s m = (s1, m1)" by fastforce
    have some: "take n cs \<noteq> []" using that by auto
    have in_cs: "\<forall>c\<in>set (take n cs). no_fault c \<and> era (clock c)" using assms(2) by (meson in_set_takeD)
    have "last (take n cs) = cs ! (n - 1)" using that by (simp add: last_conv_nth [OF some] min_def)
    with failures_recorded [OF assms(1) in_cs some assms(5,6) rec] have
      "m1 = RefreshPool (clock (cs ! (n - 1))) m" by simp
    moreover have "clock (cs ! n) < clock (cs ! (n - 1)) + poolRefreshDebounce"
      using assms(4) that by (cases n) (simp_all add: successively_conv_nth)
    ultimately show ?thesis by (simp add: rec RefreshPool_def)
  qed
  moreover have "fst (ResolveToken D K c g s' m') = Inr t"
    if "Resolve D K c g s' (mg_cache m') = (Some i, ch)" "GetByID i (mg_pool m) = Some t" for K c g ch t
    using that all(1) by (simp add: ResolveToken_def RefreshPool_def Let_def)
  ultimately show ?thesis using all by (simp add: RefreshPool_def)
qed

theorem refresh_postponed_witness:
  "mg_pool (snd (record_failures text_driver (map call_at [7, 8, 9, 10, 11]) ''a'' sample_db sample_manager)) = sample_pool \<and>
   real_active (fst (record_failures text_driver (map call_at [7, 8, 9, 10, 11]) ''a'' sample_db sample_manager)) ''a'' = Some False"
proof -
  let ?cs = "map call_at [7, 8, 9, 10, 11]"
  obtain s' m' where run: "record_failures text_driver ?cs ''a'' sample_db sample_manager = (s', m')" by fastforce
  have cs: "\<forall>c\<in>set ?cs. no_fault c \<and> era (clock c)" "?cs \<noteq> []" by simp_all
  have gaps: "successively (\<lambda>c d. clock d < clock c + poolRefreshDebounce) ?cs"
    by (simp add: poolRefreshDebounce_def second_def)
  have "mg_maxFailures sample_manager \<le> rr_failures (sample_real ''a'') + int (length ?cs)"
    by (simp add: sample_manager_def NewManager_def sample_real_def)
  from refresh_postponed [OF text_driver_reads cs gaps sample_real_ok this run] show ?thesis
    unfolding run by (auto simp: sample_manager_def NewManager_def real_active_def)
qed

end
