(* ===== verification/Server_Access.thy ===== *)
theory Server_Access
  imports Server_Invariants
begin

text \<open>
  Who gets in: the admin API and the pages answer only the holder of the secret or of a live session,
  and a session is live only if a login with the secret issued it.
\<close>

section \<open>Authorisation\<close>

definition has_secret :: "('c, 'w) program \<Rightarrow> http_request \<Rightarrow> bool" where
  "has_secret P r \<longleftrightarrow> Header_Get (rq_header r) ''Authorization'' = ''Bearer '' @ pg_secret P"

definition session_valid :: "('c, 'w) program \<Rightarrow> int \<Rightarrow> http_request \<Rightarrow> 'w \<Rightarrow> bool" where
  "session_valid P now r w = fst (ValidateSession (pg_sessions P) now r w)"

text \<open>The replies that say nothing about the stored tokens or their use.\<close>

fun reveals_nothing :: "body \<Rightarrow> bool" where
  "reveals_nothing (FromAdmin rep) \<longleftrightarrow> rep = AdminError (JSONError 401 ''missing or invalid authorization'')"
| "reveals_nothing (FromWeb rep) \<longleftrightarrow> (\<exists>u k. rep = SeeOther u k) \<or> (\<exists>msg. rep = Html (LoginPage msg))"
| "reveals_nothing (FromProxy rep) \<longleftrightarrow> False"
| "reveals_nothing _ \<longleftrightarrow> True"

lemma AdminAuth_secret:
  "HasPrefix a ''Bearer '' \<and> TrimPrefix a ''Bearer '' = s \<longleftrightarrow> a = ''Bearer '' @ s"
  by (auto simp only: HasPrefix_iff TrimPrefix_append HasPrefix_append)

lemma AdminAuth_iff:
  "fst (AdminAuth (pg_secret P) (Some (session_auth P now)) r w) \<longleftrightarrow> has_secret P r \<or> session_valid P now r w"
  by (simp only: AdminAuth_def AdminAuth_secret Let_def has_secret_def session_valid_def) (simp add: session_auth_def)

lemma requireAuth_session:
  "\<not> fst (ValidateSession W now r w) \<Longrightarrow> fst (requireAuth W now r page w) = SeeOther ''/admin/login'' None"
  by (auto simp: ValidateSession_def requireAuth_def split: option.splits prod.splits)

text \<open>What the events of a run mean for the session token \<open>v\<close>.\<close>

fun issued :: "('c, 'w) program \<Rightarrow> string \<Rightarrow> event \<Rightarrow> bool" where
  "issued P v (Served E r) \<longleftrightarrow>
     dispatch (rq_method r) (rq_escapedPath r) = ToWeb LoginSubmit \<and>
     FormValue (we_multipart (en_web E)) r ''secret'' = pg_secret P \<and>
     generateSessionToken (we_rnd (en_web E)) = v"
| "issued P v _ \<longleftrightarrow> False"

fun revoked :: "string \<Rightarrow> event \<Rightarrow> bool" where
  "revoked v (Served E r) \<longleftrightarrow>
     dispatch (rq_method r) (rq_escapedPath r) = ToWeb Logout \<and> request_cookie sessionCookieName r = Some v"
| "revoked v _ \<longleftrightarrow> False"

fun presented :: "string \<Rightarrow> event \<Rightarrow> bool" where
  "presented v (Served E r) \<longleftrightarrow> request_cookie sessionCookieName r = Some v"
| "presented v _ \<longleftrightarrow> False"

lemma requireAuth_sessions: "snd (requireAuth W now r page w) = snd (ValidateSession W now r w)"
  by (auto simp: requireAuth_def ValidateSession_def split: option.splits prod.splits)

lemma AdminAuth_sessions:
  "snd (AdminAuth (pg_secret P) (Some (session_auth P now)) r w) \<in> {w, snd (ValidateSession (pg_sessions P) now r w)}"
  by (auto simp: AdminAuth_def Let_def session_auth_def)

text \<open>A check that fails leaves the sessions, or evicts the one that was asked for.\<close>

definition no_new_entry :: "('w, bool) ttlcache \<Rightarrow> 'w \<Rightarrow> 'w \<Rightarrow> bool" where
  "no_new_entry W w w' \<longleftrightarrow> (\<forall>v. tc_entry W w' v \<in> {None, tc_entry W w v})"

lemma no_new_entry_refl [simp]: "no_new_entry W w w"
  by (simp add: no_new_entry_def)

lemma failed_check_sessions:
  assumes "cache_laws W" "\<not> fst (ValidateSession W now r w)"
  shows "no_new_entry W w (snd (ValidateSession W now r w))"
proof (cases "request_cookie sessionCookieName r")
  case None
  then show ?thesis by (simp add: ValidateSession_def)
next
  case (Some k)
  have law: "cache_get_law W" using assms(1) by (simp add: cache_laws_def)
  from Some assms(2) have miss: "fst (tc_get W w now k) = None" by (simp add: ValidateSession_def case_prod_beta)
  have "tc_entry W (snd (tc_get W w now k)) k \<in> {None, tc_entry W w k} \<or> (\<exists>x. fst (tc_get W w now k) = Some x)"
    using law unfolding cache_get_law_def by blast
  with miss have own: "tc_entry W (snd (tc_get W w now k)) k \<in> {None, tc_entry W w k}" by simp
  have "tc_entry W (snd (tc_get W w now k)) v \<in> {None, tc_entry W w v}" for v
  proof (cases "v = k")
    case True
    with own show ?thesis by simp
  next
    case False
    with law show ?thesis unfolding cache_get_law_def by blast
  qed
  with Some show ?thesis by (simp add: no_new_entry_def ValidateSession_def case_prod_beta)
qed

lemma unauthorised_sessions:
  assumes "dispatch (rq_method r) (rq_escapedPath r) \<noteq> ToProxy" "cache_laws (pg_sessions P)"
    and "\<forall>now. event_time (Served E r) = Some now \<longrightarrow> \<not> session_valid P now r (sv_sessions S)"
    and "\<forall>v. \<not> issued P v (Served E r)"
  shows "no_new_entry (pg_sessions P) (sv_sessions S) (sv_sessions (snd (serve P E r S)))"
proof (cases "dispatch (rq_method r) (rq_escapedPath r)")
  case (ToAdmin rt)
  let ?now = "clock (ae_call (en_admin E))"
  have "sv_sessions (snd (serve P E r S)) = snd (AdminAuth (pg_secret P) (Some (session_auth P ?now)) r (sv_sessions S))"
    using ToAdmin by (simp add: serve_def serve_api_def serve_admin_def Let_def split: prod.splits bool.splits)
  moreover have "\<not> fst (ValidateSession (pg_sessions P) ?now r (sv_sessions S))"
    using assms(3) ToAdmin by (simp add: session_valid_def)
  ultimately show ?thesis
    using AdminAuth_sessions [of P ?now r "sv_sessions S"] failed_check_sessions [OF assms(2)] by fastforce
next
  case (ToWeb rt)
  have "no_new_entry (pg_sessions P) (sv_sessions S) (snd (requireAuth (pg_sessions P) (we_now (en_web E)) r page (sv_sessions S)))" for page
    using assms(3) ToWeb failed_check_sessions [OF assms(2)] by (simp add: requireAuth_sessions session_valid_def)
  moreover have "no_new_entry (pg_sessions P) (sv_sessions S) (tc_delete (pg_sessions P) (sv_sessions S) k)" for k
    using assms(2) by (simp add: cache_laws_def cache_delete_law_def no_new_entry_def)
  moreover have "rt = LoginSubmit \<Longrightarrow> FormValue (we_multipart (en_web E)) r ''secret'' \<noteq> pg_secret P"
    using assms(4) ToWeb by auto
  ultimately show ?thesis
    using ToWeb by (cases rt) (auto simp: serve_def serve_ui_def serve_web_def loginSubmit_def logout_def case_prod_beta
        split: option.split)
qed (use assms(1) in \<open>simp_all add: serve_def\<close>)

text \<open>
  C2: Behind the admin API and the pages only the secret or a live session counts.  Take a request that the
  multiplexer gives to the admin API, to a page, to the static files or to a redirect onto the clean
  path (so not one that falls through to the proxy, where a gate token counts instead; paths below /admin/
  with a method that no pattern takes are among those).  If it carries neither the bearer secret nor a cookie
  of a live session, it leaves the database, the token manager and the usage channel as they were, and its answer
  is the 401 error, a redirect, the login page or a static file, which show nothing of the tokens.  Nor
  does it open or prolong a session, unless it is a login with the secret: sessions only end by it.
\<close>
theorem admin_requires_auth:
  assumes "dispatch (rq_method r) (rq_escapedPath r) \<noteq> ToProxy" "\<not> has_secret P r"
    and "\<forall>now. event_time (Served E r) = Some now \<longrightarrow> \<not> session_valid P now r (sv_sessions S)"
  shows "sv_gate (snd (serve P E r S)) = sv_gate S \<and> reveals_nothing (fst (serve P E r S)) \<and>
    (cache_laws (pg_sessions P) \<longrightarrow> (\<forall>v. \<not> issued P v (Served E r)) \<longrightarrow>
       (\<forall>v. tc_entry (pg_sessions P) (sv_sessions (snd (serve P E r S))) v \<in> {None, tc_entry (pg_sessions P) (sv_sessions S) v}))"
proof -
  have "sv_gate (snd (serve P E r S)) = sv_gate S \<and> reveals_nothing (fst (serve P E r S))"
  proof (cases "dispatch (rq_method r) (rq_escapedPath r)")
    case (ToAdmin rt)
    let ?now = "clock (ae_call (en_admin E))"
    from ToAdmin assms(2,3) have "\<not> fst (AdminAuth (pg_secret P) (Some (session_auth P ?now)) r (sv_sessions S))"
      by (simp add: AdminAuth_iff)
    then obtain w where "AdminAuth (pg_secret P) (Some (session_auth P ?now)) r (sv_sessions S) = (False, w)"
      by (metis prod.collapse)
    with ToAdmin show ?thesis
      by (simp add: serve_def serve_api_def serve_admin_def Let_def writeError_def WriteJSONError_def)
  next
    case (ToWeb rt)
    let ?W = "pg_sessions P" and ?now = "we_now (en_web E)"
    from ToWeb assms(3) have "\<not> fst (ValidateSession ?W ?now r (sv_sessions S))" by (simp add: session_valid_def)
    then have "fst (requireAuth ?W ?now r page (sv_sessions S)) = SeeOther ''/admin/login'' None" for page
      by (rule requireAuth_session)
    with ToWeb show ?thesis
      by (cases rt) (simp_all add: serve_def serve_ui_def serve_web_def loginPage_def loginSubmit_def logout_def Let_def
          case_prod_beta)
  qed (use assms(1) in \<open>simp_all add: serve_def\<close>)
  with unauthorised_sessions [OF assms(1) _ assms(3)] show ?thesis by (simp add: no_new_entry_def)
qed

section \<open>Sessions\<close>

text \<open>
  Why \<open>v\<close> may be live until \<open>e\<close>: a login issued it, no logout has revoked it since, and \<open>e\<close> is one TTL
  after that login or a later request that presented it.
\<close>

definition justified :: "('c, 'w) program \<Rightarrow> event list \<Rightarrow> string \<Rightarrow> int \<Rightarrow> bool" where
  "justified P evs v e \<longleftrightarrow>
     (\<exists>later login earlier. evs = later @ login # earlier \<and> issued P v login \<and> (\<forall>ev\<in>set later. \<not> revoked v ev) \<and>
        (\<exists>ev\<in>set (later @ [login]). (issued P v ev \<or> presented v ev) \<and> (\<exists>u. event_time ev = Some u \<and> e = u + sessionTTL)))"

definition sessions_justified :: "('c, 'w) program \<Rightarrow> event list \<Rightarrow> 'w \<Rightarrow> bool" where
  "sessions_justified P evs w \<longleftrightarrow>
     (\<forall>v b ttl e. tc_entry (pg_sessions P) w v = Some (b, ttl, e) \<longrightarrow> ttl = sessionTTL \<and> justified P evs v e)"

lemma justified_Cons: "justified P evs v e \<Longrightarrow> \<not> revoked v ev \<Longrightarrow> justified P (ev # evs) v e"
  unfolding justified_def by (metis append_Cons set_ConsD list.set_intros(2))

lemma justified_touch:
  assumes "justified P evs v e" "\<not> revoked v ev" "presented v ev" "event_time ev = Some u"
  shows "justified P (ev # evs) v (u + sessionTTL)"
proof -
  from assms(1) obtain later login earlier where
    "evs = later @ login # earlier" "issued P v login" "\<forall>x\<in>set later. \<not> revoked v x"
    unfolding justified_def by blast
  with assms(2-4) show ?thesis
    unfolding justified_def
    by (intro exI [of _ "ev # later"] exI [of _ login] exI [of _ earlier]) auto
qed

lemma justified_login: "issued P v ev \<Longrightarrow> event_time ev = Some u \<Longrightarrow> justified P (ev # evs) v (u + sessionTTL)"
  unfolding justified_def by (intro exI [of _ "[]"] exI [of _ ev] exI [of _ evs]) auto

text \<open>The three ways in which a request touches the sessions.\<close>

lemma sessions_check:
  assumes "cache_laws (pg_sessions P)" "sessions_justified P evs w" "\<And>v. \<not> revoked v ev" "event_time ev = Some now"
    and "\<And>v. request_cookie sessionCookieName r = Some v \<Longrightarrow> presented v ev"
  shows "sessions_justified P (ev # evs) (snd (ValidateSession (pg_sessions P) now r w))"
proof (cases "request_cookie sessionCookieName r")
  case None
  with assms(2,3) show ?thesis by (auto simp: ValidateSession_def sessions_justified_def intro: justified_Cons)
next
  case (Some k)
  let ?W = "pg_sessions P"
  let ?w = "snd (tc_get ?W w now k)"
  have law: "cache_get_law ?W" using assms(1) by (simp add: cache_laws_def)
  have other: "k' \<noteq> k \<Longrightarrow> tc_entry ?W ?w k' = tc_entry ?W w k'" for k'
    using law unfolding cache_get_law_def by blast
  have own: "tc_entry ?W ?w k \<in> {None, tc_entry ?W w k} \<or>
      (\<exists>v ttl e. tc_entry ?W w k = Some (v, ttl, e) \<and> tc_entry ?W ?w k = Some (v, ttl, now + ttl))"
    using law unfolding cache_get_law_def by blast
  have "ttl = sessionTTL \<and> justified P (ev # evs) v e" if e: "tc_entry ?W ?w v = Some (b, ttl, e)" for v b ttl e
  proof (cases "tc_entry ?W ?w v = tc_entry ?W w v")
    case True
    with e assms(2,3) show ?thesis by (auto simp: sessions_justified_def intro: justified_Cons)
  next
    case False
    with other have v: "v = k" by blast
    with own e False obtain e0 where e0: "tc_entry ?W w k = Some (b, ttl, e0)" "e = now + ttl" by auto
    then have "ttl = sessionTTL" "justified P evs k e0" using assms(2) by (auto simp: sessions_justified_def)
    with justified_touch [OF this(2) assms(3) assms(5) [OF Some] assms(4)] e0(2) v show ?thesis by simp
  qed
  with Some show ?thesis by (simp add: ValidateSession_def sessions_justified_def case_prod_beta)
qed

lemma sessions_keep:
  "sessions_justified P evs w \<Longrightarrow> (\<And>v. \<not> revoked v ev) \<Longrightarrow> sessions_justified P (ev # evs) w"
  by (auto simp: sessions_justified_def intro: justified_Cons)

lemma sessions_issue:
  assumes "cache_laws (pg_sessions P)" "sessions_justified P evs w" "\<And>v. \<not> revoked v ev" "issued P k ev"
    "event_time ev = Some now"
  shows "sessions_justified P (ev # evs) (tc_set (pg_sessions P) w now k True sessionTTL)"
proof -
  have "0 < sessionTTL" by (simp add: sessionTTL_def second_def)
  from cache_set [OF assms(1) this] show ?thesis
    using assms(2,3) justified_login [OF assms(4,5)]
    by (auto simp: sessions_justified_def intro!: justified_Cons)
qed

lemma sessions_revoke:
  assumes "cache_laws (pg_sessions P)" "sessions_justified P evs w" "\<And>v. revoked v ev \<Longrightarrow> v = k"
  shows "sessions_justified P (ev # evs) (tc_delete (pg_sessions P) w k)"
proof -
  have "tc_entry (pg_sessions P) (tc_delete (pg_sessions P) w k) = (tc_entry (pg_sessions P) w)(k := None)"
    using assms(1) by (simp add: cache_laws_def cache_delete_law_def)
  with assms(2,3) show ?thesis by (auto simp: sessions_justified_def intro!: justified_Cons)
qed

lemma serve_sessions:
  assumes "cache_laws (pg_sessions P)" "sessions_justified P evs (sv_sessions S)"
  shows "sessions_justified P (Served E r # evs) (sv_sessions (snd (serve P E r S)))"
proof (cases "dispatch (rq_method r) (rq_escapedPath r)")
  case ToProxy
  then have "sv_sessions (snd (serve P E r S)) = sv_sessions S" by (simp add: serve_def serve_proxy_def split: prod.splits)
  with ToProxy assms(2) show ?thesis by (simp add: sessions_keep)
next
  case (ToAdmin rt)
  let ?now = "clock (ae_call (en_admin E))"
  have "sv_sessions (snd (serve P E r S)) = snd (AdminAuth (pg_secret P) (Some (session_auth P ?now)) r (sv_sessions S))"
    using ToAdmin by (simp add: serve_def serve_api_def serve_admin_def Let_def split: prod.splits bool.splits)
  then have "sv_sessions (snd (serve P E r S)) \<in> {sv_sessions S, snd (ValidateSession (pg_sessions P) ?now r (sv_sessions S))}"
    using AdminAuth_sessions by metis
  moreover have "sessions_justified P (Served E r # evs) (snd (ValidateSession (pg_sessions P) ?now r (sv_sessions S)))"
    by (rule sessions_check [OF assms]) (simp_all add: ToAdmin)
  ultimately show ?thesis using ToAdmin assms(2) sessions_keep [of P evs "sv_sessions S" "Served E r"] by auto
next
  case (ToWeb rt)
  let ?now = "we_now (en_web E)"
  have t: "event_time (Served E r) = Some ?now" by (simp add: ToWeb)
  have check: "sessions_justified P (Served E r # evs) (snd (requireAuth (pg_sessions P) ?now r page (sv_sessions S)))"
    if "rt \<noteq> Logout" for page
    unfolding requireAuth_sessions using that by (intro sessions_check [OF assms]) (simp_all add: ToWeb)
  show ?thesis
  proof (cases rt)
    case LoginForm
    with ToWeb assms(2) show ?thesis by (simp add: serve_def serve_ui_def serve_web_def sessions_keep)
  next
    case LoginSubmit
    with ToWeb assms(2) sessions_issue [OF assms, of "Served E r" "generateSessionToken (we_rnd (en_web E))" ?now] t
      sessions_keep [OF assms(2), of "Served E r"]
    show ?thesis by (simp add: serve_def serve_ui_def serve_web_def loginSubmit_def Let_def)
  next
    case Logout
    show ?thesis
    proof (cases "request_cookie sessionCookieName r")
      case None
      with Logout ToWeb assms(2) show ?thesis
        by (simp add: serve_def serve_ui_def serve_web_def logout_def sessions_keep)
    next
      case (Some k)
      with Logout ToWeb sessions_revoke [OF assms, of "Served E r" k] show ?thesis
        by (simp add: serve_def serve_ui_def serve_web_def logout_def)
    qed
  qed (use ToWeb check in \<open>simp_all add: serve_def serve_ui_def serve_web_def case_prod_beta\<close>)
qed (use assms(2) in \<open>simp_all add: serve_def sessions_keep\<close>)

lemma server_run_sessions:
  assumes "server_run P S0 evs t S" "cache_laws (pg_sessions P)" "tc_entry (pg_sessions P) (sv_sessions S0) = (\<lambda>_. None)"
  shows "sessions_justified P evs (sv_sessions S)"
  using assms(1)
proof (induction rule: server_run.induct)
  case (init t)
  with assms(3) show ?case by (simp add: sessions_justified_def)
next
  case (step evs t S ev S' t')
  from step.hyps(2) step.IH show ?case
    by (cases rule: server_step.cases) (auto simp: update_gate_state_def intro: serve_sessions [OF assms(2)] sessions_keep)
qed

text \<open>
  C7: A live session comes from a login.  Start the program with no sessions, and run it in any way.  If a
  request then passes the session check, its cookie is a token that an earlier login made with the
  right secret, no logout has presented that token since, and at most 24 hours have passed since that
  login or a later request that presented the token.
\<close>
theorem sessions_come_from_logins:
  assumes "main_start D K W noItems noSessions X = Inr (P, S0)" "cache_laws W" "tc_entry W noSessions = (\<lambda>_. None)"
    and "server_run P S0 evs t S" "session_valid P now r (sv_sessions S)"
  shows "\<exists>v later login earlier. request_cookie sessionCookieName r = Some v \<and> evs = later @ login # earlier \<and>
    issued P v login \<and> (\<forall>ev\<in>set later. \<not> revoked v ev) \<and>
    (\<exists>ev\<in>set (later @ [login]). (issued P v ev \<or> presented v ev) \<and>
       (\<exists>u. event_time ev = Some u \<and> now \<le> u + 24 * 3600 * second))"
proof -
  have P: "pg_sessions P = W" "sv_sessions S0 = noSessions"
    by (rule main_start_InrD [OF assms(1)]; simp)+
  with server_run_sessions [OF assms(4)] assms(2,3) have just: "sessions_justified P evs (sv_sessions S)" by simp
  from assms(5) obtain v where v: "request_cookie sessionCookieName r = Some v" "fst (tc_get W (sv_sessions S) now v) \<noteq> None"
    by (auto simp: session_valid_def ValidateSession_def P case_prod_beta split: option.splits)
  have miss: "cache_miss_law W" using assms(2) by (simp add: cache_laws_def)
  have "\<not> (case tc_entry W (sv_sessions S) v of None \<Rightarrow> True | Some (b, ttl, e) \<Rightarrow> 0 < ttl \<and> e < now)"
    using miss [unfolded cache_miss_law_def, THEN spec [of _ "sv_sessions S"], THEN spec [of _ now], THEN spec [of _ v]] v(2)
    by linarith
  then obtain b ttl e where e: "tc_entry W (sv_sessions S) v = Some (b, ttl, e)" "\<not> (0 < ttl \<and> e < now)"
    by (auto split: option.splits prod.splits)
  then have "ttl = sessionTTL" and j: "justified P evs v e" using just P by (auto simp: sessions_justified_def)
  then have "now \<le> e" using e(2) by (simp add: sessionTTL_def second_def)
  from j obtain later login earlier ev u where h: "evs = later @ login # earlier" "issued P v login"
    "\<forall>ev\<in>set later. \<not> revoked v ev" "ev \<in> set (later @ [login])" "issued P v ev \<or> presented v ev"
    "event_time ev = Some u" "e = u + sessionTTL"
    unfolding justified_def by blast
  then have "now \<le> u + 24 * 3600 * second" using \<open>now \<le> e\<close> by (simp add: sessionTTL_def)
  with h v(1) show ?thesis by blast
qed

section \<open>Logging in\<close>

text \<open>A browser that checks in at given times with the same cookie, and times less than a TTL apart.\<close>

fun session_checks :: "('c, 'w) program \<Rightarrow> http_request \<Rightarrow> int list \<Rightarrow> 'w \<Rightarrow> bool list" where
  "session_checks P r [] w = []"
| "session_checks P r (t # ts) w =
     (case ValidateSession (pg_sessions P) t r w of (ok, w') \<Rightarrow> ok # session_checks P r ts w')"

fun within_ttl :: "int \<Rightarrow> int list \<Rightarrow> bool" where
  "within_ttl t [] \<longleftrightarrow> True"
| "within_ttl t (u # us) \<longleftrightarrow> t \<le> u \<and> u < t + sessionTTL \<and> within_ttl u us"

lemma hex_token: "list_all token_char (hex_encode bs)"
proof -
  have "list_all (\<lambda>i. token_char (hex_digits ! i)) [0..<16]" by code_simp
  then have d: "i < 16 \<Longrightarrow> token_char (hex_digits ! i)" for i by (simp add: list_all_iff)
  have "(of_char c :: nat) div 16 < 16" for c using of_char_less_256 [of c] by linarith
  with d show ?thesis by (induction bs) simp_all
qed

lemma hex_encode_Nil [simp]: "hex_encode bs = [] \<longleftrightarrow> bs = []"
  by (cases bs) simp_all

lemma sessions_slide:
  assumes "cache_laws (pg_sessions P)" "tc_entry (pg_sessions P) w v = Some (b, sessionTTL, t + sessionTTL)"
    and "request_cookie sessionCookieName r = Some v" "within_ttl t ts"
  shows "list_all id (session_checks P r ts w)"
  using assms(2,4)
proof (induction ts arbitrary: t w)
  case (Cons u us)
  then have "0 < sessionTTL" "u < t + sessionTTL" by (simp_all add: sessionTTL_def second_def)
  from cache_hit [OF assms(1) Cons.prems(1) this] obtain w' where
    "tc_get (pg_sessions P) w u v = (Some b, w')" "tc_entry (pg_sessions P) w' v = Some (b, sessionTTL, u + sessionTTL)"
    by auto
  with Cons.IH [of w' u] Cons.prems(2) assms(3) show ?case by (simp add: ValidateSession_def)
qed simp

lemma login_session:
  assumes "cache_laws (pg_sessions P)" "issued P v (Served E r)"
  shows "fst (serve P E r S) = FromWeb (SeeOther ''/admin/'' (Some (session_cookie v)))"
    "tc_entry (pg_sessions P) (sv_sessions (snd (serve P E r S))) v =
       Some (True, sessionTTL, we_now (en_web E) + sessionTTL)"
proof -
  have "0 < sessionTTL" by (simp add: sessionTTL_def second_def)
  from cache_set [OF assms(1) this] assms(2) show
    "fst (serve P E r S) = FromWeb (SeeOther ''/admin/'' (Some (session_cookie v)))"
    "tc_entry (pg_sessions P) (sv_sessions (snd (serve P E r S))) v =
       Some (True, sessionTTL, we_now (en_web E) + sessionTTL)"
    by (auto simp: serve_def serve_ui_def serve_web_def loginSubmit_def Let_def)
qed

lemma cookie_sent:
  assumes "rq_header r ''Cookie'' = [sessionCookieName @ CHR ''='' # hex_encode rnd]" "rnd \<noteq> []"
  shows "request_cookie sessionCookieName r = Some (hex_encode rnd)"
proof -
  have "list_all token_char sessionCookieName" by code_simp
  with request_cookie_sent [OF assms(1)] assms(2) hex_token show ?thesis by (simp add: sessionCookieName_def)
qed

text \<open>
  Logging in works and lasts.  A login with the secret redirects to the dashboard and sets a cookie; a
  browser that sends this cookie back is let in at every later time, as long as each of its
  requests comes less than 24 hours after the one before, however long it goes on.
\<close>
theorem login_opens_session:
  assumes "cache_laws (pg_sessions P)" "dispatch (rq_method r) (rq_escapedPath r) = ToWeb LoginSubmit"
    and "FormValue (we_multipart (en_web E)) r ''secret'' = pg_secret P" "we_rnd (en_web E) \<noteq> []"
    and "within_ttl (we_now (en_web E)) ts"
  shows "\<exists>k. fst (serve P E r S) = FromWeb (SeeOther ''/admin/'' (Some k)) \<and>
    (\<forall>r'. rq_header r' ''Cookie'' = [sc_Name k @ CHR ''='' # sc_Value k] \<longrightarrow>
       list_all id (session_checks P r' ts (sv_sessions (snd (serve P E r S)))))"
proof -
  let ?v = "generateSessionToken (we_rnd (en_web E))"
  have "issued P ?v (Served E r)" using assms(2,3) by simp
  note l = login_session [OF assms(1) this, of S]
  have "list_all id (session_checks P r' ts (sv_sessions (snd (serve P E r S))))"
    if "rq_header r' ''Cookie'' = [sc_Name (session_cookie ?v) @ CHR ''='' # sc_Value (session_cookie ?v)]" for r'
  proof (rule sessions_slide [OF assms(1) l(2) _ assms(5)])
    show "request_cookie sessionCookieName r' = Some ?v"
      using that cookie_sent [OF _ assms(4), of r'] by (simp add: session_cookie_def generateSessionToken_def)
  qed
  with l(1) show ?thesis by blast
qed

section \<open>A sample session\<close>

definition sample_web_env :: "int \<Rightarrow> web_env" where
  "sample_web_env t = \<lparr>we_calls = (\<lambda>_. call_at t), we_local = (\<lambda>_. 0), we_rnd = ''rnd'', we_multipart = (\<lambda>_. [])\<rparr>"

definition sample_env :: "int \<Rightarrow> request_env" where
  "sample_env t = \<lparr>en_exchange = sample_exchange (Inl ''refused''), en_admin = sample_admin_env, en_web = sample_web_env t\<rparr>"

definition login_request :: http_request where
  "login_request = (sample_api_request ''POST'' ''application/x-www-form-urlencoded'' ''secret=s3cret'')
     \<lparr>rq_path := ''/admin/login'', rq_escapedPath := ''/admin/login''\<rparr>"

definition page_request :: http_request where
  "page_request = (sample_api_request ''GET'' [] [])
     \<lparr>rq_path := ''/admin/'', rq_escapedPath := ''/admin/'',
      rq_header := (\<lambda>_. [])(''Cookie'' := [sessionCookieName @ CHR ''='' # hex_encode ''rnd''])\<rparr>"

lemma sample_login:
  "dispatch (rq_method login_request) (rq_escapedPath login_request) = ToWeb LoginSubmit"
  "FormValue (\<lambda>_. []) login_request ''secret'' = ''s3cret''"
proof -
  show "dispatch (rq_method login_request) (rq_escapedPath login_request) = ToWeb LoginSubmit" by code_simp
  have m: "media_type (Header_Get (rq_header login_request) ''Content-Type'') = form_type" by code_simp
  have "form_type \<noteq> multipart_type" by code_simp
  moreover from m have "post_form login_request = ParseQuery ''secret=s3cret''"
    by (simp add: post_form_def login_request_def sample_api_request_def maxFormSize_def)
  moreover have "ParseQuery ''secret=s3cret'' = [(''secret'', ''s3cret'')]" by code_simp
  ultimately show "FormValue (\<lambda>_. []) login_request ''secret'' = ''s3cret''"
    using m by (simp add: FormValue_def ParseForm_def Values_Get_def)
qed

theorem login_opens_session_witness:
  "\<exists>P :: (string items, bool items) program. \<exists>S k.
     fst (serve P (sample_env 0) login_request S) = FromWeb (SeeOther ''/admin/'' (Some k)) \<and>
     list_all id (session_checks P page_request [10, 3600 * second] (sv_sessions (snd (serve P (sample_env 0) login_request S))))"
proof -
  obtain P :: "(string items, bool items) program" and S :: "(string items, bool items) server" where st: "pg_sessions P = item_cache" "pg_secret P = ''s3cret''"
    by (rule sample_started)
  have w: "we_now (en_web (sample_env 0)) = 0" by (simp add: sample_env_def sample_web_env_def we_now_def)
  have "cache_laws (pg_sessions P)" by (simp add: st(1))
  moreover have "FormValue (we_multipart (en_web (sample_env 0))) login_request ''secret'' = pg_secret P"
    using sample_login(2) by (simp add: st(2) sample_env_def sample_web_env_def)
  moreover have "we_rnd (en_web (sample_env 0)) \<noteq> []" by (simp add: sample_env_def sample_web_env_def)
  moreover have "within_ttl (we_now (en_web (sample_env 0))) [10, 3600 * second]" by (simp add: w sessionTTL_def second_def)
  ultimately have "\<exists>k. fst (serve P (sample_env 0) login_request S) = FromWeb (SeeOther ''/admin/'' (Some k)) \<and>
    (\<forall>r'. rq_header r' ''Cookie'' = [sc_Name k @ CHR ''='' # sc_Value k] \<longrightarrow>
       list_all id (session_checks P r' [10, 3600 * second] (sv_sessions (snd (serve P (sample_env 0) login_request S)))))"
    by (rule login_opens_session [OF _ sample_login(1)])
  then obtain k where k: "fst (serve P (sample_env 0) login_request S) = FromWeb (SeeOther ''/admin/'' (Some k))"
    "\<And>r'. rq_header r' ''Cookie'' = [sc_Name k @ CHR ''='' # sc_Value k] \<Longrightarrow>
       list_all id (session_checks P r' [10, 3600 * second] (sv_sessions (snd (serve P (sample_env 0) login_request S))))"
    by blast
  have i: "issued P (generateSessionToken ''rnd'') (Served (sample_env 0) login_request)"
    using sample_login by (simp add: sample_env_def sample_web_env_def st(2))
  from login_session(1) [OF _ i, of S] st(1) k(1) have "k = session_cookie (generateSessionToken ''rnd'')" by simp
  then have "rq_header page_request ''Cookie'' = [sc_Name k @ CHR ''='' # sc_Value k]"
    by (simp add: page_request_def session_cookie_def generateSessionToken_def)
  from k(1) k(2) [OF this] show ?thesis by blast
qed

theorem admin_requires_auth_witness:
  "\<exists>(P :: (string items, bool items) program) S.
     reveals_nothing (fst (serve P (sample_env 5) (sample_api_request ''GET'' [] []) S))"
proof -
  obtain P :: "(string items, bool items) program" and S :: "(string items, bool items) server" where st: "pg_secret P = ''s3cret''"
    by (rule sample_started)
  let ?r = "sample_api_request ''GET'' [] []"
  have d: "dispatch (rq_method ?r) (rq_escapedPath ?r) = ToAdmin ListReal" by code_simp
  have "request_cookie sessionCookieName ?r = None" by code_simp
  then have "\<forall>now. event_time (Served (sample_env 5) ?r) = Some now \<longrightarrow> \<not> session_valid P now ?r (sv_sessions S)"
    by (simp add: session_valid_def ValidateSession_def)
  moreover have "\<not> has_secret P ?r"
    by (simp add: has_secret_def st sample_api_request_def Header_Get_def)
  ultimately show ?thesis using admin_requires_auth [of ?r P "sample_env 5" S] d by (intro exI [of _ P] exI [of _ S]) simp
qed

theorem sessions_come_from_logins_witness:
  "\<exists>(P :: (string items, bool items) program) S evs v login. server_run P S evs 0 (snd (serve P (sample_env 0) login_request S)) \<and>
     login \<in> set evs \<and> issued P v login \<and> request_cookie sessionCookieName page_request = Some v"
proof -
  obtain P S where st:
    "main_start text_driver item_cache (item_cache :: (bool items, bool) ttlcache) (\<lambda>_. None) (\<lambda>_. None) sample_startup = Inr (P, S)"
    "pg_secret P = ''s3cret''" "pg_sessions P = item_cache"
    by (rule sample_started)
  let ?S' = "snd (serve P (sample_env 0) login_request S)"
  have i: "issued P (generateSessionToken ''rnd'') (Served (sample_env 0) login_request)"
    using sample_login by (simp add: sample_env_def sample_web_env_def st(2))
  have "server_run P S [] 0 S" by (rule server_run.init)
  from server_run.step [OF this server_step.request [of P "sample_env 0" login_request], of 0] have
    run: "server_run P S [Served (sample_env 0) login_request] 0 ?S'"
    using sample_login(1) by (simp add: sample_env_def sample_web_env_def we_now_def)
  have ck: "request_cookie sessionCookieName page_request = Some (hex_encode ''rnd'')"
    by (rule cookie_sent) (simp_all add: page_request_def)
  have "list_all id (session_checks P page_request [5] (sv_sessions ?S'))"
    using login_session(2) [OF _ i, of S] st(3) ck
    by (intro sessions_slide [of P _ "hex_encode ''rnd''" True 0])
      (simp_all add: generateSessionToken_def sample_env_def sample_web_env_def we_now_def sessionTTL_def second_def)
  then have "session_valid P 5 page_request (sv_sessions ?S')" by (simp add: session_valid_def case_prod_beta)
  from sessions_come_from_logins [OF st(1) _ _ run this] show ?thesis
    using run by (simp only: item_cache_laws item_cache_sel) (metis in_set_conv_decomp)
qed

end
