(* ===== verification/Server_Tokens.thy ===== *)
theory Server_Tokens
  imports Server_Access Admin_Properties Proxy_Properties
begin

text \<open>
  The admin API and the proxy together: a gate token that the API has created gets through, and one
  that it has switched off or deleted does not.  The proxy reads the table at every request, so a
  change holds for the next one.
\<close>

section \<open>Creation\<close>

lemma serve_api_create:
  assumes "dispatch (rq_method r) (rq_escapedPath r) = ToAdmin CreateGate"
    and "serve P E r S = (FromAdmin (AdminJSON 201 (GateTokenData gt)), S')"
  obtains req :: createGateTokenRequest and s' where
    "CreateGateToken (ae_call (en_admin E)) (ae_rndID (en_admin E)) (ae_rndToken (en_admin E)) (cg_Name req) (cg_Token req)
       (gw_db (sv_gate S)) = (Inr gt, s')"
    "sv_gate S' = (sv_gate S)\<lparr>gw_db := s'\<rparr>"
proof -
  let ?A = "en_admin E" and ?s = "gw_db (sv_gate S)" and ?m = "gw_mgr (sv_gate S)"
  from assms obtain s' m' where h: "createGateToken (ae_call ?A) (ae_rndID ?A) (ae_rndToken ?A) r ?s ?m =
      (AdminJSON 201 (GateTokenData gt), s', m')" "sv_gate S' = (sv_gate S)\<lparr>gw_db := s', gw_mgr := m'\<rparr>"
    by (auto simp: serve_def serve_api_def serve_admin_def handle_admin_eq Let_def writeError_def
        split: prod.splits bool.splits)
  from h(1) obtain req where req: "create_gate_request r = Some req"
    by (auto simp: createGateToken_def writeError_def split: option.splits)
  obtain res s1 where c: "CreateGateToken (ae_call ?A) (ae_rndID ?A) (ae_rndToken ?A) (cg_Name req) (cg_Token req) ?s = (res, s1)"
    by fastforce
  from h(1) req c have "res = Inr gt" "s' = s1" "m' = ?m"
    by (auto simp: createGateToken_def respondSuccess_def respondError_def writeJSON_def writeError_def
        split: if_splits sum.splits)
  with c h(2) show ?thesis by (intro that [of req s1]) simp_all
qed

text \<open>
  C14: A created gate token gets through.  When the API has answered 201 with a gate token, a request that
  presents this token to the proxy is admitted if it comes next and the database answers: as
  long as the pool is not empty, it reaches the upstream with the credentials of a token of the pool, and the
  client gets what the proxy makes of the upstream's answer.
\<close>
theorem created_token_admitted:
  assumes "dispatch (rq_method r) (rq_escapedPath r) = ToAdmin CreateGate"
    and "serve P E r S = (FromAdmin (AdminJSON 201 (GateTokenData gt)), S')"
    and "driver_reads (pg_driver P)" "era (clock (ae_call (en_admin E)))"
    and "pool_sized (mg_pool (gw_mgr (sv_gate S)))" "pl_tokens (mg_pool (gw_mgr (sv_gate S))) \<noteq> []"
    and "dispatch (rq_method r') (rq_escapedPath r') = ToProxy" "presented_token r' = Some (gt_Token gt)"
    and "no_fault (ex_auth (en_exchange E'))"
  shows "\<exists>t\<in>set (pl_tokens (mg_pool (gw_mgr (sv_gate S)))). \<exists>rep G.
    ServeHTTP (pg_driver P) (pg_cache P) (pg_upstream P) (en_exchange E') r' (sv_gate S') =
      (rep, Some (outgoing (pg_upstream P) (en_exchange E') t r'), G) \<and>
    serve P E' r' S' = (FromProxy (with_gate_headers rep), S'\<lparr>sv_gate := G\<rparr>)"
proof -
  let ?x = "en_exchange E'" and ?D = "pg_driver P"
  obtain req :: createGateTokenRequest and s' where c: "CreateGateToken (ae_call (en_admin E)) (ae_rndID (en_admin E)) (ae_rndToken (en_admin E))
      (cg_Name req) (cg_Token req) (gw_db (sv_gate S)) = (Inr gt, s')" and S': "sv_gate S' = (sv_gate S)\<lparr>gw_db := s'\<rparr>"
    by (rule serve_api_create [OF assms(1,2)])
  from create_gate_token_roundtrip [OF c assms(3,4,9)] have
    look: "GetGateTokenByToken ?D (ex_auth ?x) (gt_Token gt) s' = Inr gt" "gt_IsActive gt" by blast+
  have "\<exists>t\<in>set (pl_tokens (mg_pool (gw_mgr (sv_gate S)))). \<exists>rep G.
    ServeHTTP ?D (pg_cache P) (pg_upstream P) ?x r' (sv_gate S') = (rep, Some (outgoing (pg_upstream P) ?x t r'), G)"
    by (rule ServeHTTP_served [where D = ?D and K = "pg_cache P" and U = "pg_upstream P" and x = ?x and G = "sv_gate S'",
          OF assms(8)]) (use look assms(5,6) in \<open>auto simp: S'\<close>)
  then show ?thesis using assms(7) by (auto simp: serve_def serve_proxy_def)
qed

section \<open>Revocation\<close>

text \<open>The replies that report a gate token as switched off or deleted, to a program and to a browser.\<close>

definition revocation_reply :: "string \<Rightarrow> admin_reply \<Rightarrow> bool" where
  "revocation_reply i rep \<longleftrightarrow>
     rep \<in> {AdminJSON 200 (StatusData i ''inactive''), AdminJSON 200 (IDData i),
            HXRedirect (adminRedirect ''/admin/gate-tokens'' ''Token deactivated''),
            HXRedirect (adminRedirect ''/admin/gate-tokens'' ''Token deleted'')}"

lemma flashes_differ:
  "adminRedirect ''/admin/gate-tokens'' ''Token deactivated'' = ''/admin/gate-tokens?flash=Token+deactivated''"
  "adminRedirect ''/admin/gate-tokens'' ''Token deleted'' = ''/admin/gate-tokens?flash=Token+deleted''"
  "adminRedirect ''/admin/gate-tokens'' ''Token not found'' = ''/admin/gate-tokens?flash=Token+not+found''"
  "adminRedirect ''/admin/gate-tokens'' ''Failed to delete token'' = ''/admin/gate-tokens?flash=Failed+to+delete+token''"
  "adminRedirect ''/admin/gate-tokens'' ''Failed to deactivate token'' = ''/admin/gate-tokens?flash=Failed+to+deactivate+token''"
  by code_simp+

text \<open>The row of a token that was switched off is inactive, and a deleted one is gone.\<close>

lemma token_row:
  assumes "keys_ok s" "find_gate s i = Some g" "g0 \<in> set (gate_tokens s)" "gr_token g0 = gr_token g"
  shows "g0 = g" "gr_id g = i"
proof -
  from assms(2) show "gr_id g = i" by (auto simp: find_gate_def dest: find_row_SomeD)
  from assms(2) have "g \<in> set (gate_tokens s)" by (auto simp: find_gate_def dest: find_row_SomeD)
  with assms show "g0 = g" by (auto simp: keys_ok_def distinct_map inj_on_def)
qed

lemma revoked_not_admitted:
  assumes "keys_ok s" "find_gate s i = Some g" "presented_token r = Some (gr_token g)"
  shows "fst (SetGateTokenActive c i False s) = None \<Longrightarrow> \<not> admits (snd (SetGateTokenActive c i False s)) r g'"
    and "fst (DeleteGateToken c i s) = None \<Longrightarrow> \<not> admits (snd (DeleteGateToken c i s)) r g'"
proof -
  have row: "g0 = g \<and> gr_id g0 = i" if "g0 \<in> set (gate_tokens s)" "presented_token r = Some (gr_token g0)" for g0
  proof -
    from that(2) assms(3) have "gr_token g0 = gr_token g" by simp
    from token_row [OF assms(1,2) that(1) this] show ?thesis by blast
  qed
  show "\<not> admits (snd (SetGateTokenActive c i False s)) r g'" if "fst (SetGateTokenActive c i False s) = None"
  proof
    assume a: "admits (snd (SetGateTokenActive c i False s)) r g'"
    let ?f = "\<lambda>g. g\<lparr>gr_active := 0, gr_updated := DtNow (clock c)\<rparr>"
    from that have "snd (SetGateTokenActive c i False s) = update_gate i ?f s"
      by (simp add: SetGateTokenActive_def Let_def boolToInt_def split: if_splits)
    with a obtain g0 where g0: "g0 \<in> set (gate_tokens s)" "g' = (if gr_id g0 = i then ?f g0 else g0)"
      by (auto simp: admits_def update_gate_def set_update_where)
    with a row [OF g0(1)] show False by (auto simp: admits_def split: if_splits)
  qed
  show "\<not> admits (snd (DeleteGateToken c i s)) r g'" if "fst (DeleteGateToken c i s) = None"
  proof
    assume a: "admits (snd (DeleteGateToken c i s)) r g'"
    from withTx_cascade_ok [OF that [unfolded DeleteGateToken_def]] a have "g' \<in> set (gate_tokens s)" "gr_id g' \<noteq> i"
      by (auto simp: DeleteGateToken_def admits_def delete_token_def delete_usage_def delete_sticky_def)
    with a row [of g'] show False by (simp add: admits_def)
  qed
qed

text \<open>A reply that reports the change comes only when the store has made it.\<close>

lemma revocation_done:
  assumes "rt \<in> {SetActive GateTokens i False, DeleteToken GateTokens i}"
    and "handle_admin D A f rt r s m = (rep, s', m')" "revocation_reply i rep"
  shows "(fst (SetGateTokenActive (ae_call A) i False s) = None \<and> s' = snd (SetGateTokenActive (ae_call A) i False s)) \<or>
    (fst (DeleteGateToken (ae_call A) i s) = None \<and> s' = snd (DeleteGateToken (ae_call A) i s))"
proof -
  have b: "base_path GateTokens = ''/admin/gate-tokens''" by (simp add: base_path_def)
  note red = respondSuccess_def respondError_def writeJSON_def writeError_def revocation_reply_def
  from assms(1) consider (off) "rt = SetActive GateTokens i False" | (gone) "rt = DeleteToken GateTokens i" by blast
  then show ?thesis
  proof cases
    case off
    with assms(2,3) show ?thesis
      by (cases "SetGateTokenActive (ae_call A) i False s")
        (auto simp: handle_admin_eq Let_def setTokenActive_def b red flashes_differ split: if_splits option.splits)
  next
    case gone
    with assms(2,3) show ?thesis
      by (cases "DeleteGateToken (ae_call A) i s")
        (auto simp: handle_admin_eq Let_def deleteToken_def b red flashes_differ split: if_splits option.splits)
  qed
qed

text \<open>
  C13: A revoked gate token is refused at once.  When the API has reported a gate token as switched off or
  deleted, in JSON or as the redirect of a form, a request that presents its token to the proxy next gets
  401, reaches no upstream and changes nothing, whatever the pool, the sticky sessions and the
  upstream are.
\<close>
theorem revoked_token_refused:
  assumes "keys_ok (gw_db (sv_gate S))" "find_gate (gw_db (sv_gate S)) i = Some g"
    and "dispatch (rq_method r) (rq_escapedPath r) = ToAdmin rt"
    and "rt \<in> {SetActive GateTokens i False, DeleteToken GateTokens i}"
    and "serve P E r S = (FromAdmin rep, S')" "revocation_reply i rep"
    and "dispatch (rq_method r') (rq_escapedPath r') = ToProxy" "presented_token r' = Some (gr_token g)"
  shows "\<exists>msg. serve P E' r' S' = (FromProxy (JSONError 401 msg), S') \<and>
    ServeHTTP (pg_driver P) (pg_cache P) (pg_upstream P) (en_exchange E') r' (sv_gate S') =
      (JSONError 401 msg, None, sv_gate S')"
proof -
  let ?A = "en_admin E" and ?f = "RefreshPool (clock (ae_call (en_admin E)))"
  have "rep \<noteq> AdminError e" for e using assms(6) by (auto simp: revocation_reply_def)
  with assms(3,5) obtain s' m' where h: "handle_admin (pg_driver P) ?A ?f rt r (gw_db (sv_gate S)) (gw_mgr (sv_gate S)) = (rep, s', m')"
    "gw_db (sv_gate S') = s'"
    by (auto simp: serve_def serve_api_def serve_admin_def Let_def writeError_def split: prod.splits bool.splits)
  from revocation_done [OF assms(4) h(1) assms(6)] revoked_not_admitted [OF assms(1,2,8)] h(2) have
    "\<nexists>g'. admits (gw_db (sv_gate S')) r' g'" by metis
  then obtain msg where "ServeHTTP (pg_driver P) (pg_cache P) (pg_upstream P) (en_exchange E') r' (sv_gate S') =
      (JSONError 401 msg, None, sv_gate S')" by (rule ServeHTTP_not_admitted)
  with assms(7) show ?thesis by (simp add: serve_def serve_proxy_def)
qed

section \<open>A sample administrator\<close>

definition sample_program :: "(string items, bool items) program" where
  "sample_program = \<lparr>pg_driver = text_driver, pg_cache = item_cache, pg_sessions = item_cache, pg_upstream = sample_url,
     pg_secret = ''s3cret''\<rparr>"

definition sample_server :: "(string items, bool items) server" where
  "sample_server = \<lparr>sv_gate = sample_gateway, sv_sessions = (\<lambda>_. None), sv_fired = 0, sv_reads = [],
     sv_writer = NewUsageWriter, sv_running = True,
     sv_cancelled = False\<rparr>"

definition api_call :: "string \<Rightarrow> bytes \<Rightarrow> http_request" where
  "api_call path b = (sample_api_request ''POST'' [] b)
     \<lparr>rq_path := path, rq_escapedPath := path, rq_header := (\<lambda>_. [])(''Authorization'' := [''Bearer s3cret''])\<rparr>"

definition present :: "string \<Rightarrow> http_request" where
  "present tok = sample_request\<lparr>rq_header := (\<lambda>_. [])(''Authorization'' := [''Bearer '' @ tok])\<rparr>"

definition create_body :: bytes where
  "create_body = ''{'' @ [CHR 0x22] @ ''name'' @ [CHR 0x22] @ '':'' @ [CHR 0x22] @ ''n'' @ [CHR 0x22] @ '','' @
     [CHR 0x22] @ ''token'' @ [CHR 0x22] @ '':'' @ [CHR 0x22] @ ''gate-x'' @ [CHR 0x22] @ ''}''"

lemma api_call_authorised:
  "AdminAuth ''s3cret'' a (api_call path b) w = (True, w)"
proof -
  have "Header_Get (rq_header (api_call path b)) ''Authorization'' = ''Bearer '' @ ''s3cret''"
    by (simp add: api_call_def Header_Get_def)
  then show ?thesis by (simp only: AdminAuth_def Let_def AdminAuth_secret if_True simp_thms)
qed

lemma present_presents: "presented_token (present tok) = Some tok"
  "dispatch (rq_method (present tok)) (rq_escapedPath (present tok)) = ToProxy"
proof -
  have "Header_Get (rq_header (present tok)) ''Authorization'' = ''Bearer '' @ tok"
    by (simp add: present_def Header_Get_def)
  then show "presented_token (present tok) = Some tok"
    by (simp add: presented_token_def bearer_def Let_def del: append.simps)
  have "rq_method (present tok) = ''POST''" "rq_escapedPath (present tok) = ''/v1/messages''"
    by (simp_all add: present_def sample_request_def)
  moreover have "dispatch ''POST'' ''/v1/messages'' = ToProxy" by code_simp
  ultimately show "dispatch (rq_method (present tok)) (rq_escapedPath (present tok)) = ToProxy" by simp
qed

lemma api_call_json: "\<not> wants_redirect (api_call path b)"
  by (simp add: wants_redirect_def isFormRequest_def api_call_def Header_Get_def canonical_key_def form_type_def
      multipart_type_def token_char_def upper_char_def Let_def)

lemma create_call_decoded:
  "create_gate_request (api_call ''/admin/api/gate-tokens'' create_body) = Some \<lparr>cg_Name = ''n'', cg_Token = ''gate-x''\<rparr>"
  by code_simp

theorem created_token_admitted_witness:
  "\<exists>gt S' G rep. serve sample_program (sample_env 5) (api_call ''/admin/api/gate-tokens'' create_body) sample_server =
       (FromAdmin (AdminJSON 201 (GateTokenData gt)), S') \<and> gt_Token gt = ''gate-x'' \<and>
     serve sample_program (sample_env 6) (present ''gate-x'') S' = (FromProxy (with_gate_headers rep), S'\<lparr>sv_gate := G\<rparr>)"
proof -
  let ?r = "api_call ''/admin/api/gate-tokens'' create_body" and ?A = "en_admin (sample_env 5)"
  have d: "dispatch (rq_method ?r) (rq_escapedPath ?r) = ToAdmin CreateGate" by code_simp
  obtain gt s' where c: "CreateGateToken (ae_call ?A) (ae_rndID ?A) (ae_rndToken ?A) ''n'' ''gate-x'' sample_db = (Inr gt, s')"
    "gt_Token gt = ''gate-x''"
    by (simp add: CreateGateToken_def Let_def sample_db_def sample_gate_def sample_env_def sample_admin_env_def newID_def)
  then obtain S' where S': "serve sample_program (sample_env 5) ?r sample_server = (FromAdmin (AdminJSON 201 (GateTokenData gt)), S')"
    using d api_call_json
    by (simp add: serve_def serve_api_def serve_admin_def handle_admin_eq Let_def sample_program_def sample_server_def
        sample_gateway_def api_call_authorised createGateToken_def create_call_decoded respondSuccess_def writeJSON_def)
  have e: "era (clock (ae_call ?A))" by (simp add: sample_env_def sample_admin_env_def)
  have toks: "mg_pool (gw_mgr (sv_gate sample_server)) = sample_pool"
    by (simp add: sample_server_def sample_gateway_def sample_manager_def NewManager_def)
  have pool: "pool_sized (mg_pool (gw_mgr (sv_gate sample_server)))" "pl_tokens (mg_pool (gw_mgr (sv_gate sample_server))) \<noteq> []"
    unfolding toks by (simp_all add: sample_pool_def pool_sized_def)
  have "driver_reads (pg_driver sample_program)" by (simp add: sample_program_def text_driver_reads)
  from created_token_admitted [OF d S' this e pool present_presents(2), of "gt_Token gt" "sample_env 6"] present_presents(1)
    S' c(2) show ?thesis by (auto simp: sample_env_def sample_exchange_def)
qed

theorem revoked_token_refused_witness:
  "\<exists>S' msg. serve sample_program (sample_env 5) (api_call ''/admin/api/gate-tokens/g/deactivate'' []) sample_server =
       (FromAdmin (AdminJSON 200 (StatusData ''g'' ''inactive'')), S') \<and>
     serve sample_program (sample_env 6) (present ''gate-g'') S' = (FromProxy (JSONError 401 msg), S')"
proof -
  let ?r = "api_call ''/admin/api/gate-tokens/g/deactivate'' []" and ?A = "en_admin (sample_env 5)"
  have d: "dispatch (rq_method ?r) (rq_escapedPath ?r) = ToAdmin (SetActive GateTokens ''g'' False)" by code_simp
  have ok: "keys_ok (gw_db (sv_gate sample_server))" "find_gate (gw_db (sv_gate sample_server)) ''g'' = Some (sample_gate ''g'')"
    using sample_db_ok by (simp_all add: sample_server_def sample_gateway_def db_ok_def) (simp add: sample_db_def find_gate_def sample_gate_def)
  then have "''g'' \<in> gate_ids sample_db"
    by (simp add: sample_db_def gate_ids_def sample_gate_def)
  then have "fst (SetGateTokenActive (ae_call ?A) ''g'' False sample_db) = None"
    by (simp add: gates.set_active_result sample_env_def sample_admin_env_def)
  then obtain S' where S': "serve sample_program (sample_env 5) ?r sample_server =
      (FromAdmin (AdminJSON 200 (StatusData ''g'' ''inactive'')), S')"
    using d api_call_json
    by (cases "SetGateTokenActive (ae_call ?A) ''g'' False sample_db")
      (simp add: serve_def serve_api_def serve_admin_def handle_admin_eq Let_def sample_program_def sample_server_def
        sample_gateway_def api_call_authorised setTokenActive_def respondSuccess_def writeJSON_def)
  have "gr_token (sample_gate ''g'') = ''gate-g''" by (simp add: sample_gate_def)
  with revoked_token_refused [OF ok d _ S' _ present_presents(2), of "''gate-g''" "sample_env 6"] present_presents(1) S'
  show ?thesis by (auto simp: revocation_reply_def)
qed

end
