(* ===== verification/Template.thy ===== *)
theory Template
  imports Testutil Url Real_Token_Store
begin

text \<open>
  What the web UI uses of \<open>html/template\<close> and of \<open>time.Format\<close>: the nodes of a template, their execution,
  which writes as it goes and stops at the first error, and the escapers that the package inserts.
\<close>

section \<open>Escapers\<close>

text \<open>\<open>htmlReplacementTable\<close>, which text, titles and quoted attributes share.\<close>

definition escape_html_char :: "char \<Rightarrow> string" where
  "escape_html_char c =
     (if c = CHR 0x00 then [CHR 0xEF, CHR 0xBF, CHR 0xBD]
      else if c = CHR 0x22 then ''&#34;''
      else if c = CHR ''&'' then ''&amp;''
      else if c = CHR 0x27 then ''&#39;''
      else if c = CHR ''+'' then ''&#43;''
      else if c = CHR ''<'' then ''&lt;''
      else if c = CHR ''>'' then ''&gt;''
      else [c])"

definition html_escape :: "string \<Rightarrow> string" where
  "html_escape s = concat (map escape_html_char s)"

text \<open>\<open>_html_template_urlnormalizer\<close>, for a value in the path of a URL.\<close>

definition url_kept :: "char \<Rightarrow> bool" where
  "url_kept c \<longleftrightarrow> unreserved c \<or> c \<in> set ''!#$&*+,/:;=?@[]''"

fun url_normalize :: "string \<Rightarrow> string" where
  "url_normalize [] = []"
| "url_normalize (c # s) =
     (if url_kept c \<or> c = CHR ''%'' \<and> 2 \<le> length s \<and> is_hex (s ! 0) \<and> is_hex (s ! 1)
      then c # url_normalize s
      else CHR ''%'' # hex_encode [c] @ url_normalize s)"

text \<open>\<open>slice s 0 n\<close> fails beyond the end of the string.\<close>

definition slice_prefix :: "nat \<Rightarrow> string \<Rightarrow> string option" where
  "slice_prefix n s = (if n \<le> length s then Some (take n s) else None)"

section \<open>Nodes\<close>

text \<open>
  \<open>Lit\<close> is text of the template, \<open>Val\<close> an action that prints a value (\<open>None\<close>: its evaluation fails) in
  text or in a plain attribute, \<open>UrlVal\<close> the same in the path of a URL attribute, where the package inserts
  the normalizer before the escaper (\<open>placed\<close> of Markup checks which is which), \<open>Branch\<close> is \<open>if\<close> and \<open>with\<close>, \<open>Each\<close> is \<open>range\<close> with its \<open>else\<close>.  \<open>'d\<close> is the data in scope.
\<close>

datatype 'd tnode =
    Lit string
  | Val "'d \<Rightarrow> string option"
  | UrlVal "'d \<Rightarrow> string option"
  | Branch "'d \<Rightarrow> bool" "'d tnode list" "'d tnode list"
  | Each "'d \<Rightarrow> 'd list" "'d tnode list" "'d tnode list"

text \<open>Output so far, and whether the execution went on to the end.\<close>

type_synonym written = "string \<times> bool"

fun chain :: "written list \<Rightarrow> written" where
  "chain [] = ([], True)"
| "chain ((s, ok) # outs) = (if ok then (case chain outs of (t, k) \<Rightarrow> (s @ t, k)) else (s, False))"

fun execute :: "'d tnode \<Rightarrow> 'd \<Rightarrow> written" and execute_all :: "'d tnode list \<Rightarrow> 'd \<Rightarrow> written" where
  "execute (Lit s) d = (s, True)"
| "execute (Val f) d = (case f d of None \<Rightarrow> ([], False) | Some s \<Rightarrow> (html_escape s, True))"
| "execute (UrlVal f) d = (case f d of None \<Rightarrow> ([], False) | Some s \<Rightarrow> (html_escape (url_normalize s), True))"
| "execute (Branch c ns ms) d = (if c d then execute_all ns d else execute_all ms d)"
| "execute (Each f ns ms) d = (if f d = [] then execute_all ms d else chain (map (\<lambda>e. execute_all ns e) (f d)))"
| "execute_all [] d = ([], True)"
| "execute_all (n # ns) d = chain [execute n d, execute_all ns d]"

section \<open>Times\<close>

text \<open>\<open>Format("2006-01-02 15:04")\<close> of a time in its own zone, by days since 1 March of year 0.\<close>

definition pad :: "nat \<Rightarrow> int \<Rightarrow> string" where
  "pad w n = (let s = fmt_d n in replicate (w - length s) (CHR ''0'') @ s)"

definition civil :: "int \<Rightarrow> int \<times> int \<times> int" where
  "civil days =
     (let z = days + 719468; era = z div 146097; doe = z mod 146097;
          yoe = (doe - doe div 1460 + doe div 36524 - doe div 146096) div 365;
          doy = doe - (365 * yoe + yoe div 4 - yoe div 100);
          mp = (5 * doy + 2) div 153;
          d = doy - (153 * mp + 2) div 5 + 1;
          m = (if mp < 10 then mp + 3 else mp - 9) in
      (yoe + era * 400 + (if m \<le> 2 then 1 else 0), m, d))"

definition format_minute :: "gotime \<Rightarrow> string" where
  "format_minute t =
     (let minutes = (instant t + zone t) div (60 * second) in
      case civil (minutes div 1440) of (y, m, d) \<Rightarrow>
        pad 4 y @ ''-'' @ pad 2 m @ ''-'' @ pad 2 d @ '' '' @
        pad 2 (minutes mod 1440 div 60) @ '':'' @ pad 2 (minutes mod 60))"

section \<open>Lemmas\<close>

lemma snd_chain: "snd (chain outs) = list_all snd outs"
  by (induction outs rule: chain.induct) (simp_all add: case_prod_beta)

lemma snd_execute [simp]:
  "snd (execute (Lit s) d)" "snd (execute (Val v) d) \<longleftrightarrow> v d \<noteq> None" "snd (execute (UrlVal v) d) \<longleftrightarrow> v d \<noteq> None"
  "snd (execute (Branch c ns ms) d) \<longleftrightarrow> snd (execute_all (if c d then ns else ms) d)"
  "snd (execute (Each f ns ms) d) \<longleftrightarrow>
     (if f d = [] then snd (execute_all ms d) else (\<forall>e\<in>set (f d). snd (execute_all ns e)))"
  "snd (execute_all [] d)" "snd (execute_all (n # ns) d) \<longleftrightarrow> snd (execute n d) \<and> snd (execute_all ns d)"
  by (auto simp: snd_chain list_all_iff split: option.split)

text \<open>The evaluators are unfolded by name from here on; completion has its own equations.\<close>

declare execute.simps [simp del] execute_all.simps [simp del]

lemma snd_execute_append: "snd (execute_all (ns @ ms) d) \<longleftrightarrow> snd (execute_all ns d) \<and> snd (execute_all ms d)"
  by (induction ns) simp_all

text \<open>When every node completes, the text is the concatenation of the nodes' texts.\<close>

lemma fst_execute_all:
  "snd (execute_all ns d) \<Longrightarrow> fst (execute_all ns d) = concat (map (\<lambda>n. fst (execute n d)) ns)"
proof (induction ns)
  case (Cons n ns)
  then have "snd (execute n d)" "snd (execute_all ns d)" by simp_all
  with Cons.IH show ?case by (cases "execute n d"; cases "execute_all ns d") (simp add: execute_all.simps)
qed (simp add: execute_all.simps)

text \<open>Two data on which all conditions and values of a template agree are rendered alike.\<close>

lemma execute_alike:
  fixes d e :: 'd
  shows "execute_all [] d = execute_all [] e"
    "execute n d = execute n e \<Longrightarrow> execute_all ns d = execute_all ns e \<Longrightarrow> execute_all (n # ns) d = execute_all (n # ns) e"
    "execute (Lit s) d = execute (Lit s) e"
    "v d = v e \<Longrightarrow> execute (Val v) d = execute (Val v) e"
    "v d = v e \<Longrightarrow> execute (UrlVal v) d = execute (UrlVal v) e"
    "c d = c e \<Longrightarrow> execute_all ns d = execute_all ns e \<Longrightarrow> execute_all ms d = execute_all ms e \<Longrightarrow>
      execute (Branch c ns ms) d = execute (Branch c ns ms) e"
    "map (execute_all ns) (f d) = map (execute_all ns) (f e) \<Longrightarrow> execute_all ms d = execute_all ms e \<Longrightarrow>
      execute (Each f ns ms) d = execute (Each f ns ms) e"
  by (simp_all add: execute_all.simps execute.simps) (metis map_is_Nil_conv)

lemma execute_all_append_alike:
  "execute_all ns d = execute_all ns e \<Longrightarrow> execute_all ms d = execute_all ms e \<Longrightarrow>
   execute_all (ns @ ms) d = execute_all (ns @ ms) e"
proof -
  have c: "chain [([], True), a] = a" "chain [chain [a, b], c] = chain [a, chain [b, c]]" for a b c
    by (cases a; cases b; cases c; simp)+
  have "execute_all (ns @ ms) d = chain [execute_all ns d, execute_all ms d]" for d
    by (induction ns) (simp_all only: execute_all.simps append.simps c)
  then show "execute_all ns d = execute_all ns e \<Longrightarrow> execute_all ms d = execute_all ms e \<Longrightarrow>
    execute_all (ns @ ms) d = execute_all (ns @ ms) e" by simp
qed

end
