(* ===== verification/Pages.thy ===== *)
theory Pages
  imports Web Template
begin

text \<open>
  The templates of web/templates, node by node, and their rendering by \<open>render\<close> and \<open>renderLayout\<close> of
  web/handler.go.
\<close>

section \<open>Data in scope\<close>

text \<open>
  The data of a page with its title and navigation entry, or a row of a token table with the
  statistics that \<open>index $.CacheStats .ID\<close> looks into.
\<close>

datatype dot =
    PageDot string string web_page
  | RealDot RealToken "string \<rightharpoonup> UsageStats"
  | GateDot GateToken "string \<rightharpoonup> UsageStats"

fun title_of :: "dot \<Rightarrow> string" where
  "title_of (PageDot title nav p) = title"
| "title_of _ = []"

fun nav_of :: "dot \<Rightarrow> string" where
  "nav_of (PageDot title nav p) = nav"
| "nav_of _ = []"

text \<open>\<open>.Error\<close> of the login page, \<open>.Flash\<close> of the token pages.\<close>

fun flash_of :: "dot \<Rightarrow> string" where
  "flash_of (PageDot title nav (LoginPage e)) = e"
| "flash_of (PageDot title nav (RealTokensPage ts st f)) = f"
| "flash_of (PageDot title nav (GateTokensPage ts st f n)) = f"
| "flash_of _ = []"

fun new_token_of :: "dot \<Rightarrow> string" where
  "new_token_of (PageDot title nav (GateTokensPage ts st f n)) = n"
| "new_token_of _ = []"

fun rows_of :: "dot \<Rightarrow> dot list" where
  "rows_of (PageDot title nav (RealTokensPage ts st f)) = map (\<lambda>t. RealDot t st) ts"
| "rows_of (PageDot title nav (GateTokensPage ts st f n)) = map (\<lambda>t. GateDot t st) ts"
| "rows_of _ = []"

fun row_stats :: "dot \<Rightarrow> UsageStats option" where
  "row_stats (RealDot t st) = st (rt_ID t)"
| "row_stats (GateDot t st) = st (gt_ID t)"
| "row_stats _ = None"

fun is_active :: "dot \<Rightarrow> bool" where
  "is_active (RealDot t st) \<longleftrightarrow> rt_IsActive t"
| "is_active (GateDot t st) \<longleftrightarrow> gt_IsActive t"
| "is_active _ \<longleftrightarrow> False"

text \<open>A field of a row or of the dashboard; asking a value of another kind for it is an error.\<close>

fun on_real :: "(RealToken \<Rightarrow> (string \<rightharpoonup> UsageStats) \<Rightarrow> string option) \<Rightarrow> dot \<Rightarrow> string option" where
  "on_real f (RealDot t st) = f t st"
| "on_real f _ = None"

fun on_gate :: "(GateToken \<Rightarrow> (string \<rightharpoonup> UsageStats) \<Rightarrow> string option) \<Rightarrow> dot \<Rightarrow> string option" where
  "on_gate f (GateDot t st) = f t st"
| "on_gate f _ = None"

fun on_dashboard :: "(dashboard \<Rightarrow> string) \<Rightarrow> dot \<Rightarrow> string option" where
  "on_dashboard f (PageDot title nav (DashboardPage a)) = Some (f a)"
| "on_dashboard f _ = None"

section \<open>Templates\<close>

text \<open>A line of template text with its indentation, and a piece of a line before an action.\<close>

definition part :: "nat \<Rightarrow> string \<Rightarrow> string" where
  "part n s = replicate n (CHR 0x09) @ s"

definition line :: "nat \<Rightarrow> string \<Rightarrow> string" where
  "line n s = part n s @ [CHR 0x0A]"

definition login_template :: "dot tnode list" where
  "login_template =
   [Lit (concat
      [line 0 [],
       line 0 ''<!DOCTYPE html>'',
       line 0 ''<html lang=\"en\">'',
       line 0 ''<head>'',
       line 1 ''<meta charset=\"UTF-8\">'',
       line 1 ''<meta name=\"viewport\" content=\"width=device-width, initial-scale=1.0\">'',
       line 1 ''<title>Claude Gate - Login</title>'',
       line 1 ''<link rel=\"stylesheet\" href=\"/admin/static/style.css\">'',
       line 0 ''</head>'',
       line 0 ''<body>'',
       line 1 ''<div class=\"login-box\">'',
       line 2 ''<h1>Claude Gate</h1>'',
       part 2 []]),
    Branch (\<lambda>d. flash_of d \<noteq> [])
    [Lit (concat
      [line 0 [],
       part 2 ''<div class=\"alert alert-error\">'']),
    Val (\<lambda>d. Some (flash_of d)),
    Lit (concat
      [line 0 ''</div>'',
       part 2 []])]
    [],
    Lit (concat
      [line 0 [],
       line 2 ''<form method=\"POST\" action=\"/admin/login\">'',
       line 3 ''<div class=\"form-group\">'',
       line 4 ''<label for=\"secret\">Admin Secret</label>'',
       line 4 ''<input type=\"password\" id=\"secret\" name=\"secret\" placeholder=\"Enter admin secret\" required autofocus>'',
       line 3 ''</div>'',
       line 3 ''<button type=\"submit\" class=\"btn btn-primary\" style=\"width:100%\">Login</button>'',
       line 2 ''</form>'',
       line 1 ''</div>'',
       line 0 ''</body>'',
       line 0 ''</html>''])]"

definition dashboard_template :: "dot tnode list" where
  "dashboard_template =
   [Lit (concat
      [line 0 [],
       line 0 ''<h1>Dashboard</h1>'',
       line 0 ''<div class=\"cards\">'',
       line 1 ''<div class=\"card\">'',
       line 2 ''<div class=\"label\">Real Tokens</div>'',
       part 2 ''<div class=\"value\">'']),
    Val (on_dashboard (\<lambda>a. fmt_d (int (da_RealTokenCount a)))),
    Lit (concat
      [line 0 ''</div>'',
       line 1 ''</div>'',
       line 1 ''<div class=\"card\">'',
       line 2 ''<div class=\"label\">Active Real Tokens</div>'',
       part 2 ''<div class=\"value\">'']),
    Val (on_dashboard (\<lambda>a. fmt_d (int (da_ActiveRealTokenCount a)))),
    Lit (concat
      [line 0 ''</div>'',
       line 1 ''</div>'',
       line 1 ''<div class=\"card\">'',
       line 2 ''<div class=\"label\">Gate Tokens</div>'',
       part 2 ''<div class=\"value\">'']),
    Val (on_dashboard (\<lambda>a. fmt_d (int (da_GateTokenCount a)))),
    Lit (concat
      [line 0 ''</div>'',
       line 1 ''</div>'',
       line 1 ''<div class=\"card\">'',
       line 2 ''<div class=\"label\">Active Gate Tokens</div>'',
       part 2 ''<div class=\"value\">'']),
    Val (on_dashboard (\<lambda>a. fmt_d (int (da_ActiveGateTokenCount a)))),
    Lit (concat
      [line 0 ''</div>'',
       line 1 ''</div>'',
       line 1 ''<div class=\"card\">'',
       line 2 ''<div class=\"label\">Requests (24h)</div>'',
       part 2 ''<div class=\"value\">'']),
    Val (on_dashboard (\<lambda>a. fmt_d (us_RequestCount (da_Usage24h a)))),
    Lit (concat
      [line 0 ''</div>'',
       line 1 ''</div>'',
       line 1 ''<div class=\"card\">'',
       line 2 ''<div class=\"label\">Input Tokens (24h)</div>'',
       part 2 ''<div class=\"value\">'']),
    Val (on_dashboard (\<lambda>a. fmt_d (us_TotalInputTokens (da_Usage24h a)))),
    Lit (concat
      [line 0 ''</div>'',
       line 1 ''</div>'',
       line 1 ''<div class=\"card\">'',
       line 2 ''<div class=\"label\">Output Tokens (24h)</div>'',
       part 2 ''<div class=\"value\">'']),
    Val (on_dashboard (\<lambda>a. fmt_d (us_TotalOutputTokens (da_Usage24h a)))),
    Lit (concat
      [line 0 ''</div>'',
       line 1 ''</div>'',
       line 1 ''<div class=\"card\">'',
       line 2 ''<div class=\"label\">Cache Creation Tokens (24h)</div>'',
       part 2 ''<div class=\"value\">'']),
    Val (on_dashboard (\<lambda>a. fmt_d (us_CacheCreationInputTokens (da_Usage24h a)))),
    Lit (concat
      [line 0 ''</div>'',
       line 1 ''</div>'',
       line 1 ''<div class=\"card\">'',
       line 2 ''<div class=\"label\">Cache Read Tokens (24h)</div>'',
       part 2 ''<div class=\"value\">'']),
    Val (on_dashboard (\<lambda>a. fmt_d (us_CacheReadInputTokens (da_Usage24h a)))),
    Lit (concat
      [line 0 ''</div>'',
       line 1 ''</div>'',
       line 0 ''</div>''])]"

definition real_token_form :: "dot tnode" where
  "real_token_form =
   Branch is_active
    [Lit (concat
      [line 0 [],
       part 4 ''<form class=\"inline\" method=\"POST\" action=\"/admin/api/real-tokens/'']),
    UrlVal (on_real (\<lambda>t _. Some (rt_ID t))),
    Lit (concat
      [line 0 ''/deactivate\">'',
       line 5 ''<button type=\"submit\" class=\"btn btn-sm\">Deactivate</button>'',
       line 4 ''</form>'',
       part 4 []])]
    [Lit (concat
      [line 0 [],
       part 4 ''<form class=\"inline\" method=\"POST\" action=\"/admin/api/real-tokens/'']),
    UrlVal (on_real (\<lambda>t _. Some (rt_ID t))),
    Lit (concat
      [line 0 ''/activate\">'',
       line 5 ''<button type=\"submit\" class=\"btn btn-sm btn-primary\">Activate</button>'',
       line 4 ''</form>'',
       part 4 []])]"

definition real_token_delete :: "dot tnode list" where
  "real_token_delete =
   [Lit (concat
      [line 0 [],
       part 4 ''<button class=\"btn btn-sm btn-danger\" hx-delete=\"/admin/api/real-tokens/'']),
    Val (on_real (\<lambda>t _. Some (rt_ID t))),
    Lit (concat
      [line 0 ''\" hx-confirm=\"Delete this token?\">Delete</button>'',
       line 3 ''</td>'',
       line 2 ''</tr>'',
       part 2 []])]"

definition real_token_row :: "dot tnode list" where
  "real_token_row =
   [Lit (concat
      [line 0 [],
       line 2 ''<tr>'',
       part 3 ''<td class=\"mono text-muted\">'']),
    Val (on_real (\<lambda>t _. slice_prefix 8 (rt_ID t))),
    Lit (concat
      [line 0 ''</td>'',
       part 3 ''<td>'']),
    Val (on_real (\<lambda>t _. Some (rt_Name t))),
    Lit (concat
      [line 0 ''</td>'',
       line 3 ''<td>'',
       part 4 []]),
    Branch is_active
    [Lit (concat
      [line 0 [],
       line 4 ''<span class=\"badge badge-active\">Active</span>'',
       part 4 []])]
    [Lit (concat
      [line 0 [],
       line 4 ''<span class=\"badge badge-inactive\">Inactive</span>'',
       part 4 []])],
    Lit (concat
      [line 0 [],
       line 3 ''</td>'',
       part 3 ''<td>'']),
    Val (on_real (\<lambda>t _. Some (fmt_d (rt_FailureCount t)))),
    Lit (concat
      [line 0 ''</td>'',
       part 3 ''<td>'']),
    Val (on_real (\<lambda>t _. Some (fmt_d (rt_TotalInputTokens t)))),
    Lit (concat
      [line 0 ''</td>'',
       part 3 ''<td>'']),
    Val (on_real (\<lambda>t _. Some (fmt_d (rt_TotalOutputTokens t)))),
    Lit (concat
      [line 0 ''</td>'',
       part 3 ''<td>'']),
    Branch (\<lambda>d. row_stats d \<noteq> None)
    [Val (\<lambda>d. map_option (fmt_d \<circ> us_CacheCreationInputTokens) (row_stats d))]
    [Lit (part 0 ''0'')],
    Lit (concat
      [line 0 ''</td>'',
       part 3 ''<td>'']),
    Branch (\<lambda>d. row_stats d \<noteq> None)
    [Val (\<lambda>d. map_option (fmt_d \<circ> us_CacheReadInputTokens) (row_stats d))]
    [Lit (part 0 ''0'')],
    Lit (concat
      [line 0 ''</td>'',
       part 3 ''<td class=\"text-muted\">'']),
    Branch (\<lambda>d. on_real (\<lambda>t _. map_option (\<lambda>_. []) (rt_LastUsedAt t)) d \<noteq> None)
    [Val (on_real (\<lambda>t _. map_option format_minute (rt_LastUsedAt t)))]
    [Lit (part 0 ''-'')],
    Lit (concat
      [line 0 ''</td>'',
       line 3 ''<td>'',
       part 4 []])] @ real_token_form # real_token_delete"

definition real_tokens_template :: "dot tnode list" where
  "real_tokens_template =
   [Lit (concat
      [line 0 [],
       line 0 ''<h1>Real Tokens</h1>'',
       line 0 [],
       line 0 ''<div class=\"actions\">'',
       line 1 ''<button class=\"btn btn-primary\" onclick=\"document.getElementById('add-form').style.display='block'\">Add Token</button>'',
       line 0 ''</div>'',
       line 0 [],
       line 0 ''<div id=\"add-form\" style=\"display:none; margin-bottom:1rem;\">'',
       line 1 ''<form method=\"POST\" action=\"/admin/api/real-tokens\" class=\"card\">'',
       line 2 ''<div class=\"form-group\">'',
       line 3 ''<label for=\"name\">Name</label>'',
       line 3 ''<input type=\"text\" id=\"name\" name=\"name\" placeholder=\"e.g. personal-1\" required>'',
       line 2 ''</div>'',
       line 2 ''<div class=\"form-group\">'',
       line 3 ''<label for=\"access_token\">Access Token</label>'',
       line 3 ''<input type=\"text\" id=\"access_token\" name=\"access_token\" placeholder=\"sk-ant-...\" required>'',
       line 2 ''</div>'',
       line 2 ''<div class=\"form-group\">'',
       line 3 ''<label for=\"refresh_token\">Refresh Token (optional)</label>'',
       line 3 ''<input type=\"text\" id=\"refresh_token\" name=\"refresh_token\" placeholder=\"refresh token\">'',
       line 2 ''</div>'',
       line 2 ''<button type=\"submit\" class=\"btn btn-primary\">Create</button>'',
       line 2 ''<button type=\"button\" class=\"btn\" onclick=\"document.getElementById('add-form').style.display='none'\">Cancel</button>'',
       line 1 ''</form>'',
       line 0 ''</div>'',
       line 0 []]),
    Branch (\<lambda>d. flash_of d \<noteq> [])
    [Lit (concat
      [line 0 [],
       part 0 ''<div class=\"alert alert-success\">'']),
    Val (\<lambda>d. Some (flash_of d)),
    Lit (line 0 ''</div>'')]
    [],
    Lit (concat
      [line 0 [],
       line 0 [],
       line 0 ''<table>'',
       line 1 ''<thead>'',
       line 2 ''<tr>'',
       line 3 ''<th>ID</th>'',
       line 3 ''<th>Name</th>'',
       line 3 ''<th>Status</th>'',
       line 3 ''<th>Failures</th>'',
       line 3 ''<th>Input Tokens</th>'',
       line 3 ''<th>Output Tokens</th>'',
       line 3 ''<th>Cache Creation</th>'',
       line 3 ''<th>Cache Read</th>'',
       line 3 ''<th>Last Used</th>'',
       line 3 ''<th>Actions</th>'',
       line 2 ''</tr>'',
       line 1 ''</thead>'',
       line 1 ''<tbody>'',
       part 2 []]),
    Each rows_of real_token_row
    [Lit (concat
      [line 0 [],
       line 2 ''<tr><td colspan=\"10\" class=\"text-muted\">No real tokens configured.</td></tr>'',
       part 2 []])],
    Lit (concat
      [line 0 [],
       line 1 ''</tbody>'',
       line 0 ''</table>''])]"

definition gate_token_form :: "dot tnode" where
  "gate_token_form =
   Branch is_active
    [Lit (concat
      [line 0 [],
       part 4 ''<form class=\"inline\" method=\"POST\" action=\"/admin/api/gate-tokens/'']),
    UrlVal (on_gate (\<lambda>t _. Some (gt_ID t))),
    Lit (concat
      [line 0 ''/deactivate\">'',
       line 5 ''<button type=\"submit\" class=\"btn btn-sm\">Deactivate</button>'',
       line 4 ''</form>'',
       part 4 []])]
    [Lit (concat
      [line 0 [],
       part 4 ''<form class=\"inline\" method=\"POST\" action=\"/admin/api/gate-tokens/'']),
    UrlVal (on_gate (\<lambda>t _. Some (gt_ID t))),
    Lit (concat
      [line 0 ''/activate\">'',
       line 5 ''<button type=\"submit\" class=\"btn btn-sm btn-primary\">Activate</button>'',
       line 4 ''</form>'',
       part 4 []])]"

definition gate_token_delete :: "dot tnode list" where
  "gate_token_delete =
   [Lit (concat
      [line 0 [],
       part 4 ''<button class=\"btn btn-sm btn-danger\" hx-delete=\"/admin/api/gate-tokens/'']),
    Val (on_gate (\<lambda>t _. Some (gt_ID t))),
    Lit (concat
      [line 0 ''\" hx-confirm=\"Delete this token?\">Delete</button>'',
       line 3 ''</td>'',
       line 2 ''</tr>'',
       part 2 []])]"

definition gate_token_row :: "dot tnode list" where
  "gate_token_row =
   [Lit (concat
      [line 0 [],
       line 2 ''<tr>'',
       part 3 ''<td class=\"mono text-muted\">'']),
    Val (on_gate (\<lambda>t _. slice_prefix 8 (gt_ID t))),
    Lit (concat
      [line 0 ''</td>'',
       part 3 ''<td>'']),
    Val (on_gate (\<lambda>t _. Some (gt_Name t))),
    Lit (concat
      [line 0 ''</td>'',
       part 3 ''<td class=\"mono\">'']),
    Val (on_gate (\<lambda>t _. slice_prefix 10 (gt_Token t))),
    Lit (concat
      [line 0 ''...</td>'',
       line 3 ''<td>'',
       part 4 []]),
    Branch is_active
    [Lit (concat
      [line 0 [],
       line 4 ''<span class=\"badge badge-active\">Active</span>'',
       part 4 []])]
    [Lit (concat
      [line 0 [],
       line 4 ''<span class=\"badge badge-inactive\">Inactive</span>'',
       part 4 []])],
    Lit (concat
      [line 0 [],
       line 3 ''</td>'',
       part 3 ''<td>'']),
    Val (on_gate (\<lambda>t _. Some (fmt_d (gt_TotalInputTokens t)))),
    Lit (concat
      [line 0 ''</td>'',
       part 3 ''<td>'']),
    Val (on_gate (\<lambda>t _. Some (fmt_d (gt_TotalOutputTokens t)))),
    Lit (concat
      [line 0 ''</td>'',
       part 3 ''<td>'']),
    Branch (\<lambda>d. row_stats d \<noteq> None)
    [Val (\<lambda>d. map_option (fmt_d \<circ> us_CacheCreationInputTokens) (row_stats d))]
    [Lit (part 0 ''0'')],
    Lit (concat
      [line 0 ''</td>'',
       part 3 ''<td>'']),
    Branch (\<lambda>d. row_stats d \<noteq> None)
    [Val (\<lambda>d. map_option (fmt_d \<circ> us_CacheReadInputTokens) (row_stats d))]
    [Lit (part 0 ''0'')],
    Lit (concat
      [line 0 ''</td>'',
       part 3 ''<td class=\"text-muted\">'']),
    Val (on_gate (\<lambda>t _. Some (format_minute (gt_CreatedAt t)))),
    Lit (concat
      [line 0 ''</td>'',
       line 3 ''<td>'',
       part 4 []])] @ gate_token_form # gate_token_delete"

definition gate_tokens_template :: "dot tnode list" where
  "gate_tokens_template =
   [Lit (concat
      [line 0 [],
       line 0 ''<h1>Gate Tokens</h1>'',
       line 0 [],
       line 0 ''<div class=\"actions\">'',
       line 1 ''<button class=\"btn btn-primary\" onclick=\"document.getElementById('add-form').style.display='block'\">Create Token</button>'',
       line 0 ''</div>'',
       line 0 [],
       line 0 ''<div id=\"add-form\" style=\"display:none; margin-bottom:1rem;\">'',
       line 1 ''<form method=\"POST\" action=\"/admin/api/gate-tokens\" class=\"card\">'',
       line 2 ''<div class=\"form-group\">'',
       line 3 ''<label for=\"name\">Name</label>'',
       line 3 ''<input type=\"text\" id=\"name\" name=\"name\" placeholder=\"e.g. agent-1\" required>'',
       line 2 ''</div>'',
       line 2 ''<div class=\"form-group\">'',
       line 3 ''<label for=\"token\">Custom Token (optional)</label>'',
       line 3 ''<input type=\"text\" id=\"token\" name=\"token\" placeholder=\"e.g. gate-hello (leave empty for auto-generated)\">'',
       line 2 ''</div>'',
       line 2 ''<button type=\"submit\" class=\"btn btn-primary\">Create</button>'',
       line 2 ''<button type=\"button\" class=\"btn\" onclick=\"document.getElementById('add-form').style.display='none'\">Cancel</button>'',
       line 1 ''</form>'',
       line 0 ''</div>'',
       line 0 []]),
    Branch (\<lambda>d. flash_of d \<noteq> [])
    [Lit (concat
      [line 0 [],
       part 0 ''<div class=\"alert alert-success\">'']),
    Val (\<lambda>d. Some (flash_of d)),
    Lit (line 0 ''</div>'')]
    [],
    Lit (concat
      [line 0 [],
       line 0 []]),
    Branch (\<lambda>d. new_token_of d \<noteq> [])
    [Lit (concat
      [line 0 [],
       line 0 ''<div class=\"alert alert-success\">'',
       line 1 ''Token created! Copy it now, it won't be shown again:<br>'',
       part 1 ''<code class=\"mono\" id=\"new-token\">'']),
    Val (\<lambda>d. Some (new_token_of d)),
    Lit (concat
      [line 0 ''</code>'',
       line 1 ''<button class=\"btn btn-sm mt-1\" onclick=\"navigator.clipboard.writeText(document.getElementById('new-token').textContent)\">Copy</button>'',
       line 0 ''</div>''])]
    [],
    Lit (concat
      [line 0 [],
       line 0 [],
       line 0 ''<table>'',
       line 1 ''<thead>'',
       line 2 ''<tr>'',
       line 3 ''<th>ID</th>'',
       line 3 ''<th>Name</th>'',
       line 3 ''<th>Token</th>'',
       line 3 ''<th>Status</th>'',
       line 3 ''<th>Input Tokens</th>'',
       line 3 ''<th>Output Tokens</th>'',
       line 3 ''<th>Cache Creation</th>'',
       line 3 ''<th>Cache Read</th>'',
       line 3 ''<th>Created</th>'',
       line 3 ''<th>Actions</th>'',
       line 2 ''</tr>'',
       line 1 ''</thead>'',
       line 1 ''<tbody>'',
       part 2 []]),
    Each rows_of gate_token_row
    [Lit (concat
      [line 0 [],
       line 2 ''<tr><td colspan=\"10\" class=\"text-muted\">No gate tokens created.</td></tr>'',
       part 2 []])],
    Lit (concat
      [line 0 [],
       line 1 ''</tbody>'',
       line 0 ''</table>''])]"

definition layout_template :: "dot tnode list \<Rightarrow> dot tnode list" where
  "layout_template content =
   [Lit (concat
      [line 0 [],
       line 0 ''<!DOCTYPE html>'',
       line 0 ''<html lang=\"en\">'',
       line 0 ''<head>'',
       line 1 ''<meta charset=\"UTF-8\">'',
       line 1 ''<meta name=\"viewport\" content=\"width=device-width, initial-scale=1.0\">'',
       part 1 ''<title>Claude Gate'']),
    Branch (\<lambda>d. title_of d \<noteq> [])
    [Lit (part 0 '' - ''),
    Val (\<lambda>d. Some (title_of d))]
    [],
    Lit (concat
      [line 0 ''</title>'',
       line 1 ''<link rel=\"stylesheet\" href=\"/admin/static/style.css\">'',
       line 1 ''<script src=\"/admin/static/htmx.min.js\"></script>'',
       line 0 ''</head>'',
       line 0 ''<body>'',
       line 1 ''<nav>'',
       line 2 ''<a class=\"brand\" href=\"/admin/\">Claude Gate</a>'',
       part 2 ''<a href=\"/admin/\" '']),
    Branch (\<lambda>d. nav_of d = ''dashboard'')
    [Lit (part 0 ''class=\"active\"'')]
    [],
    Lit (concat
      [line 0 ''>Dashboard</a>'',
       part 2 ''<a href=\"/admin/real-tokens\" '']),
    Branch (\<lambda>d. nav_of d = ''real-tokens'')
    [Lit (part 0 ''class=\"active\"'')]
    [],
    Lit (concat
      [line 0 ''>Real Tokens</a>'',
       part 2 ''<a href=\"/admin/gate-tokens\" '']),
    Branch (\<lambda>d. nav_of d = ''gate-tokens'')
    [Lit (part 0 ''class=\"active\"'')]
    [],
    Lit (concat
      [line 0 ''>Gate Tokens</a>'',
       line 2 ''<a href=\"/admin/logout\">Logout</a>'',
       line 1 ''</nav>'',
       line 1 ''<main>'',
       part 2 []])] @
   content @
   [Lit (concat
      [line 0 [],
       line 1 ''</main>'',
       line 0 ''</body>'',
       line 0 ''</html>''])]"

section \<open>Rendering\<close>

text \<open>
  \<open>layoutCache\<close> is what \<open>NewHandler\<close> fills, the layout with the content of each page.  \<open>render\<close> and
  \<open>renderLayout\<close> answer with a status and what has been written: an error in the middle is only
  logged, so the status stays 200 and the reply breaks off.
\<close>

fun page_title :: "web_page \<Rightarrow> string" where
  "page_title (LoginPage e) = []"
| "page_title (DashboardPage a) = ''Dashboard''"
| "page_title (RealTokensPage ts st f) = ''Real Tokens''"
| "page_title (GateTokensPage ts st f n) = ''Gate Tokens''"

fun page_nav :: "web_page \<Rightarrow> string" where
  "page_nav (LoginPage e) = []"
| "page_nav (DashboardPage a) = ''dashboard''"
| "page_nav (RealTokensPage ts st f) = ''real-tokens''"
| "page_nav (GateTokensPage ts st f n) = ''gate-tokens''"

definition page_dot :: "web_page \<Rightarrow> dot" where
  "page_dot p = PageDot (page_title p) (page_nav p) p"

definition layoutCache :: "string \<Rightarrow> dot tnode list option" where
  "layoutCache page =
     (if page = ''dashboard.html'' then Some (layout_template dashboard_template)
      else if page = ''real_tokens.html'' then Some (layout_template real_tokens_template)
      else if page = ''gate_tokens.html'' then Some (layout_template gate_tokens_template)
      else None)"

definition render :: "dot tnode list \<Rightarrow> dot \<Rightarrow> int \<times> written" where
  "render t d = (200, execute_all t d)"

definition renderLayout :: "string \<Rightarrow> dot \<Rightarrow> int \<times> written" where
  "renderLayout name d =
     (case layoutCache name of
        None \<Rightarrow> (500, ''template not found'' @ [CHR 0x0A], True)
      | Some t \<Rightarrow> (200, execute_all t d))"

definition page_response :: "web_page \<Rightarrow> int \<times> written" where
  "page_response p =
     (case p of
        LoginPage e \<Rightarrow> render login_template (page_dot p)
      | DashboardPage a \<Rightarrow> renderLayout ''dashboard.html'' (page_dot p)
      | RealTokensPage ts st f \<Rightarrow> renderLayout ''real_tokens.html'' (page_dot p)
      | GateTokensPage ts st f n \<Rightarrow> renderLayout ''gate_tokens.html'' (page_dot p))"

definition page_template :: "web_page \<Rightarrow> dot tnode list" where
  "page_template p =
     (case p of
        LoginPage e \<Rightarrow> login_template
      | DashboardPage a \<Rightarrow> layout_template dashboard_template
      | RealTokensPage ts st f \<Rightarrow> layout_template real_tokens_template
      | GateTokensPage ts st f n \<Rightarrow> layout_template gate_tokens_template)"

lemma page_response_template: "page_response p = (200, execute_all (page_template p) (page_dot p))"
  by (cases p) (simp_all add: page_response_def page_template_def render_def renderLayout_def layoutCache_def)

text \<open>Which pages are written to the end.\<close>

lemma row_complete:
  "snd (execute_all real_token_row (RealDot t st)) \<longleftrightarrow> 8 \<le> length (rt_ID t)"
  "snd (execute_all gate_token_row (GateDot g st)) \<longleftrightarrow> 8 \<le> length (gt_ID g) \<and> 10 \<le> length (gt_Token g)"
  by (auto simp: real_token_row_def real_token_form_def real_token_delete_def gate_token_row_def gate_token_form_def
      gate_token_delete_def slice_prefix_def snd_execute_append split: if_splits)

end
