(* ===== verification/Markup.thy ===== *)
theory Markup
  imports Template Gate_Token_Store
begin

text \<open>
  What a browser reads in a page: where in the HTML each character stands, which characters are data
  there and which are markup or code, and a check of a template that each of its values stands where the escaper
  that \<open>execute\<close> applies keeps it data.
\<close>

section \<open>A reader of HTML\<close>

text \<open>
  The kind of an attribute: plain text, an address, or anything that a browser does not take as text
  (scripts, styles, embedded documents, lists of addresses, settings of the document or of the request).
\<close>

datatype attr_kind = PlainAttr | UrlAttr | CodeAttr

definition attr_kind_of :: "string \<Rightarrow> attr_kind" where
  "attr_kind_of a =
     (if HasPrefix a ''on'' \<or> HasPrefix a ''hx-on'' \<or>
         a \<in> set [''style'', ''srcdoc'', ''srcset'', ''content'', ''http-equiv'', ''charset'', ''accept-charset'', ''type'', ''rel'',
           ''method'', ''enctype'', ''formmethod'', ''formenctype'', ''sandbox'', ''integrity'', ''language'', ''hx-vals'', ''hx-vars'']
      then CodeAttr
      else if Contains a ''src'' \<or> Contains a ''uri'' \<or> Contains a ''url'' \<or> HasPrefix a ''xmlns'' \<or>
         a \<in> set [''action'', ''archive'', ''background'', ''cite'', ''classid'', ''codebase'', ''data'', ''formaction'', ''href'',
           ''icon'', ''longdesc'', ''manifest'', ''ping'', ''poster'', ''profile'', ''usemap'', ''xlink:href'']
      then UrlAttr
      else PlainAttr)"

text \<open>
  The part of a quoted value.  An address is data only after a slash and a letter: there it is a path on
  the same server, and nothing that follows changes the scheme or the host.
\<close>

datatype part = Plain | UrlStart | UrlSlash | Path | Code

definition first_part :: "string \<Rightarrow> part" where
  "first_part a = (case attr_kind_of a of PlainAttr \<Rightarrow> Plain | UrlAttr \<Rightarrow> UrlStart | CodeAttr \<Rightarrow> Code)"

definition is_letter :: "char \<Rightarrow> bool" where
  "is_letter c \<longleftrightarrow> to_lower_char c \<in> set ''abcdefghijklmnopqrstuvwxyz''"

fun next_part :: "part \<Rightarrow> char \<Rightarrow> part" where
  "next_part UrlStart c = (if c = CHR ''/'' then UrlSlash else Code)"
| "next_part UrlSlash c = (if is_letter c then Path else Code)"
| "next_part p c = p"

text \<open>
  The place of the next character: in text, in a tag, in the value of an attribute with its quote and
  part, or in the text of an element whose content is not HTML.  \<open>e\<close> and \<open>a\<close> are the names of the element
  and of the attribute.
\<close>

datatype place =
    Text
  | TagOpen string
  | InTag string
  | AttrName string string
  | AfterName string string
  | AttrEq string string
  | Unquoted string
  | Quoted char string part
  | Raw string string

definition html_space :: "char \<Rightarrow> bool" where
  "html_space c \<longleftrightarrow> c \<in> {CHR '' '', CHR 0x09, CHR 0x0A, CHR 0x0C, CHR 0x0D}"

definition tag_end :: "string \<Rightarrow> place" where
  "tag_end e = (if e \<in> set [''script'', ''style'', ''iframe'', ''noembed'', ''noframes'', ''xmp''] then Raw e [] else Text)"

fun next_place :: "place \<Rightarrow> char \<Rightarrow> place" where
  "next_place Text c = (if c = CHR ''<'' then TagOpen [] else Text)"
| "next_place (TagOpen e) c =
     (if e = [] \<and> \<not> is_letter c \<and> c \<notin> set ''/!?'' then (if c = CHR ''<'' then TagOpen [] else Text)
      else if c = CHR ''>'' then tag_end e
      else if html_space c then InTag e
      else TagOpen (e @ [to_lower_char c]))"
| "next_place (InTag e) c =
     (if c = CHR ''>'' then tag_end e
      else if html_space c \<or> c = CHR ''/'' then InTag e
      else AttrName e [to_lower_char c])"
| "next_place (AttrName e a) c =
     (if c = CHR ''>'' then tag_end e
      else if c = CHR ''='' then AttrEq e a
      else if html_space c then AfterName e a
      else if c = CHR ''/'' then InTag e
      else AttrName e (a @ [to_lower_char c]))"
| "next_place (AfterName e a) c =
     (if c = CHR ''>'' then tag_end e
      else if c = CHR ''='' then AttrEq e a
      else if html_space c then AfterName e a
      else if c = CHR ''/'' then InTag e
      else AttrName e [to_lower_char c])"
| "next_place (AttrEq e a) c =
     (if c = CHR ''>'' then tag_end e
      else if html_space c then AttrEq e a
      else if c = CHR 0x22 \<or> c = CHR 0x27 then Quoted c e (first_part a)
      else Unquoted e)"
| "next_place (Unquoted e) c = (if c = CHR ''>'' then tag_end e else if html_space c then InTag e else Unquoted e)"
| "next_place (Quoted q e p) c = (if c = q then InTag e else Quoted q e (next_part p c))"
| "next_place (Raw e w) c =
     (let w' = w @ [to_lower_char c] in
      if HasPrefix (rev w') (rev (''</'' @ e)) then InTag (CHR ''/'' # e) else Raw e w')"

definition place_after :: "place \<Rightarrow> string \<Rightarrow> place" where
  "place_after p s = foldl next_place p s"

text \<open>Data is text outside tags, and a quoted value of a plain attribute or the path of an address.\<close>

fun is_data :: "place \<Rightarrow> char \<Rightarrow> bool" where
  "is_data Text c \<longleftrightarrow> c \<noteq> CHR ''<''"
| "is_data (Quoted q e p) c \<longleftrightarrow> c \<noteq> q \<and> (p = Plain \<or> p = Path)"
| "is_data p c \<longleftrightarrow> False"

text \<open>The outline of a page: every character that is not data, with the place where it is read.\<close>

fun outline :: "place \<Rightarrow> string \<Rightarrow> (place \<times> char) list" where
  "outline p [] = []"
| "outline p (c # s) = (if is_data p c then outline (next_place p c) s else (p, c) # outline (next_place p c) s)"

section \<open>The places of a template\<close>

text \<open>
  What \<open>html/template\<close> finds out when it parses a template: the place after a node that begins in \<open>p\<close>, \<open>None\<close>
  when a value stands elsewhere than in text, in a quoted plain attribute or, for \<open>UrlVal\<close>, in the path of a quoted
  address, or when the two ways through a node end in different places.
\<close>

fun takes_value :: "place \<Rightarrow> bool" where
  "takes_value Text \<longleftrightarrow> True"
| "takes_value (Quoted q e p) \<longleftrightarrow> (q = CHR 0x22 \<or> q = CHR 0x27) \<and> p = Plain"
| "takes_value p \<longleftrightarrow> False"

fun takes_url :: "place \<Rightarrow> bool" where
  "takes_url (Quoted q e p) \<longleftrightarrow> (q = CHR 0x22 \<or> q = CHR 0x27) \<and> p = Path"
| "takes_url p \<longleftrightarrow> False"

fun placed :: "place \<Rightarrow> 'd tnode \<Rightarrow> place option" and placed_all :: "place \<Rightarrow> 'd tnode list \<Rightarrow> place option" where
  "placed p (Lit s) = Some (place_after p s)"
| "placed p (Val f) = (if takes_value p then Some p else None)"
| "placed p (UrlVal f) = (if takes_url p then Some p else None)"
| "placed p (Branch c ns ms) = (if placed_all p ns = placed_all p ms then placed_all p ns else None)"
| "placed p (Each f ns ms) = (if placed_all p ns = Some p \<and> placed_all p ms = Some p then Some p else None)"
| "placed_all p [] = Some p"
| "placed_all p (n # ns) = (case placed p n of None \<Rightarrow> None | Some q \<Rightarrow> placed_all q ns)"

text \<open>The skeleton of a page: what the template writes with every value left out.\<close>

fun skeleton :: "'d tnode \<Rightarrow> 'd \<Rightarrow> written" and skeleton_all :: "'d tnode list \<Rightarrow> 'd \<Rightarrow> written" where
  "skeleton (Lit s) d = (s, True)"
| "skeleton (Val f) d = ([], f d \<noteq> None)"
| "skeleton (UrlVal f) d = ([], f d \<noteq> None)"
| "skeleton (Branch c ns ms) d = (if c d then skeleton_all ns d else skeleton_all ms d)"
| "skeleton (Each f ns ms) d = (if f d = [] then skeleton_all ms d else chain (map (\<lambda>e. skeleton_all ns e) (f d)))"
| "skeleton_all [] d = ([], True)"
| "skeleton_all (n # ns) d = chain [skeleton n d, skeleton_all ns d]"

section \<open>Values stay data\<close>

lemma place_after_simps [simp]:
  "place_after p [] = p" "place_after p (c # s) = place_after (next_place p c) s"
  "place_after p (s @ t) = place_after (place_after p s) t"
  by (simp_all add: place_after_def)

lemma outline_append [simp]: "outline p (s @ t) = outline p s @ outline (place_after p s) t"
  by (induction p s rule: outline.induct) simp_all

lemma escaped_chars: "c \<in> set (html_escape s) \<Longrightarrow> c \<noteq> CHR ''<'' \<and> c \<noteq> CHR 0x22 \<and> c \<noteq> CHR 0x27"
proof -
  have "c \<in> set (escape_html_char k) \<Longrightarrow> c \<noteq> CHR ''<'' \<and> c \<noteq> CHR 0x22 \<and> c \<noteq> CHR 0x27" for k
    by (auto simp: escape_html_char_def split: if_splits)
  then show "c \<in> set (html_escape s) \<Longrightarrow> c \<noteq> CHR ''<'' \<and> c \<noteq> CHR 0x22 \<and> c \<noteq> CHR 0x27"
    by (auto simp: html_escape_def)
qed

lemma data_stays:
  assumes "takes_value p \<or> takes_url p" "\<And>c. c \<in> set s \<Longrightarrow> c \<noteq> CHR ''<'' \<and> c \<noteq> CHR 0x22 \<and> c \<noteq> CHR 0x27"
  shows "outline p s = [] \<and> place_after p s = p"
  using assms(2)
proof (induction s)
  case (Cons c s)
  then have "is_data p c" "next_place p c = p" using assms(1) by (cases p; auto)+
  with Cons show ?case by simp
qed simp

lemma value_stays:
  "takes_value p \<or> takes_url p \<Longrightarrow> outline p (html_escape s) = [] \<and> place_after p (html_escape s) = p"
  by (rule data_stays) (auto dest: escaped_chars)

text \<open>Two outputs that begin in \<open>p\<close> are read alike, and end in \<open>q\<close> when they are complete.\<close>

definition read_alike :: "place \<Rightarrow> place \<Rightarrow> written \<Rightarrow> written \<Rightarrow> bool" where
  "read_alike p q a b \<longleftrightarrow> outline p (fst a) = outline p (fst b) \<and> place_after p (fst a) = place_after p (fst b) \<and>
     snd a = snd b \<and> (snd a \<longrightarrow> place_after p (fst a) = q)"

lemma chain_read_alike:
  assumes "read_alike p q a b" "snd b \<Longrightarrow> read_alike q r (chain as) (chain bs)"
  shows "read_alike p r (chain (a # as)) (chain (b # bs))"
  using assms by (cases a; cases b; cases "chain as"; cases "chain bs") (auto simp: read_alike_def)

lemma chain_single: "chain [a] = a"
  by (cases a) simp

lemma each_read_alike: "list_all2 (read_alike p p) as bs \<Longrightarrow> read_alike p p (chain as) (chain bs)"
  by (induction rule: list_all2_induct) (auto intro: chain_read_alike simp del: chain.simps(2), simp add: read_alike_def)

lemma execute_read_alike:
  fixes n :: "'d tnode" and ns :: "'d tnode list"
  shows "placed p n = Some q \<Longrightarrow> read_alike p q (execute n d) (skeleton n d)"
    "placed_all p ns = Some q \<Longrightarrow> read_alike p q (execute_all ns d) (skeleton_all ns d)"
proof (induction n d and ns d arbitrary: p q and p q rule: execute_execute_all.induct)
  case (2 f d)
  then show ?case using value_stays [of p] by (auto simp: read_alike_def execute.simps split: if_splits option.split)
next
  case (3 f d)
  then show ?case using value_stays [of p] by (auto simp: read_alike_def execute.simps split: if_splits option.split)
next
  case (4 c ns ms d)
  then show ?case by (auto simp: execute.simps split: if_splits)
next
  case (5 f ns ms d)
  then show ?case
    by (auto simp: execute.simps list_all2_conv_all_nth intro!: each_read_alike split: if_splits)
next
  case (7 n ns d)
  from 7(3) obtain q1 where "placed p n = Some q1" "placed_all q1 ns = Some q" by (auto split: option.splits)
  then have "read_alike p q1 (execute n d) (skeleton n d)"
    "read_alike q1 q (chain [execute_all ns d]) (chain [skeleton_all ns d])"
    using 7(1,2) by (simp_all only: chain_single)
  then show ?case unfolding execute_all.simps skeleton_all.simps by (rule chain_read_alike)
qed (simp_all add: read_alike_def execute.simps execute_all.simps)

lemma placed_all_append: "placed_all p (ns @ ms) = (case placed_all p ns of None \<Rightarrow> None | Some q \<Rightarrow> placed_all q ms)"
  by (induction ns arbitrary: p) (auto split: option.split)

declare skeleton.simps [simp del] skeleton_all.simps [simp del] placed.simps [simp del] placed_all.simps [simp del]

end
