(* ===== verification/Page_Properties.thy ===== *)
theory Page_Properties
  imports Pages Markup Server_Tokens Admin_Secrecy Record_Properties
begin

text \<open>
  What the pages of the web UI show: markup only from the templates, the counts of the dashboard, no
  stored credential, and a gate token page that breaks off at a short token.
\<close>

section \<open>Markup\<close>

text \<open>Every value of the templates stands where its escaper is the right one.\<close>

lemma pages_placed: "placed_all Text (page_template p) = Some Text"
proof -
  have "placed_all Text login_template = Some Text" by code_simp
  moreover have "placed_all Text (layout_template dashboard_template) = Some Text" by code_simp
  moreover have "placed_all Text (layout_template real_tokens_template) = Some Text" by code_simp
  moreover have "placed_all Text (layout_template gate_tokens_template) = Some Text" by code_simp
  ultimately show ?thesis by (cases p) (simp_all add: page_template_def)
qed

text \<open>
  C19: Values cannot change the markup of a page.  Every page is answered with status 200.  Its template has
  each value in text, in a quoted plain attribute or in the path of a quoted address, and nowhere else; so
  a browser that reads the page finds the outline of the template text that the data selects: the same tags,
  attributes, scripts and styles, and the same beginning of every address, character by character and in the same places,
  whatever bytes the names, messages and tokens have.  A page that breaks off breaks off where its
  template does, and a complete page ends in text.
\<close>
theorem pages_add_no_markup:
  "fst (page_response p) = 200 \<and> placed_all Text (page_template p) = Some Text \<and>
   outline Text (fst (snd (page_response p))) = outline Text (fst (skeleton_all (page_template p) (page_dot p))) \<and>
   snd (snd (page_response p)) = snd (skeleton_all (page_template p) (page_dot p)) \<and>
   (snd (snd (page_response p)) \<longrightarrow> place_after Text (fst (snd (page_response p))) = Text)"
  using execute_read_alike(2) [OF pages_placed, of p "page_dot p"] pages_placed [of p]
  unfolding page_response_template read_alike_def fst_conv snd_conv by blast

theorem pages_add_no_markup_witness:
  "outline Text (fst (snd (page_response (LoginPage ''</div><script>alert(1)</script>'')))) =
     outline Text (fst (snd (page_response (LoginPage ''wrong'')))) \<and>
   place_after Text (fst (snd (page_response (LoginPage ''</div><script>alert(1)</script>'')))) = Text"
proof -
  have "skeleton_all (page_template (LoginPage a)) (page_dot (LoginPage a)) =
      skeleton_all (page_template (LoginPage b)) (page_dot (LoginPage b))" if "a \<noteq> []" "b \<noteq> []" for a b
    using that by (simp add: page_template_def page_dot_def login_template_def skeleton.simps skeleton_all.simps)
  from this [of "''</div><script>alert(1)</script>''" "''wrong''"] have
    "skeleton_all (page_template (LoginPage ''</div><script>alert(1)</script>'')) (page_dot (LoginPage ''</div><script>alert(1)</script>'')) =
      skeleton_all (page_template (LoginPage ''wrong'')) (page_dot (LoginPage ''wrong''))" by blast
  moreover have "snd (snd (page_response (LoginPage a)))" for a
    by (simp add: page_response_template page_template_def login_template_def)
  ultimately show ?thesis
    using pages_add_no_markup [of "LoginPage ''</div><script>alert(1)</script>''"] pages_add_no_markup [of "LoginPage ''wrong''"]
    by simp
qed

section \<open>Complete pages\<close>

lemma layout_complete: "snd (execute_all (layout_template ns) d) \<longleftrightarrow> snd (execute_all ns d)"
  by (auto simp: layout_template_def snd_execute_append)

lemma page_complete:
  "snd (snd (page_response (LoginPage e)))"
  "snd (snd (page_response (DashboardPage a)))"
  "snd (snd (page_response (RealTokensPage ts st f))) \<longleftrightarrow> (\<forall>t\<in>set ts. 8 \<le> length (rt_ID t))"
  "snd (snd (page_response (GateTokensPage gs st f n))) \<longleftrightarrow> (\<forall>g\<in>set gs. 8 \<le> length (gt_ID g) \<and> 10 \<le> length (gt_Token g))"
  by (auto simp: page_response_template page_template_def layout_complete page_dot_def login_template_def
      dashboard_template_def real_tokens_template_def gate_tokens_template_def row_complete ball_Un)

lemma gate_page_tokens:
  assumes "gateTokensPage D calls local r s = Html p" "g \<in> set (gate_tokens s)"
  shows "\<exists>ts st f n t. p = GateTokensPage ts st f n \<and> t \<in> set ts \<and> gt_Token t = gr_token g"
proof -
  from assms(1) obtain ts st f n where p: "p = GateTokensPage ts st f n" "ListGateTokens D (calls 0) s = Inr ts"
    by (auto simp: gateTokensPage_def split: sum.splits)
  let ?rows = "order_by (\<lambda>a b. txt_le D b a) gr_created (gate_tokens s)"
  have all: "list_all2 (\<lambda>g t. scanGateToken D g = Inr t) ?rows ts"
    using scan_rows_InrD [OF query_rows_InrD [OF p(2) [unfolded ListGateTokens_def]]] .
  from all have "\<forall>g\<in>set ?rows. \<exists>t\<in>set ts. scanGateToken D g = Inr t"
    by (induction rule: list_all2_induct) simp_all
  moreover have "g \<in> set ?rows" using assms(2) by (simp add: set_order_by)
  ultimately obtain t where "t \<in> set ts" "scanGateToken D g = Inr t" by blast
  with p(1) show ?thesis by (auto dest!: scanGateToken_InrD)
qed

text \<open>
  C35: A short token breaks the page of gate tokens.  The API accepts every custom token that begins with
  \<open>gate-\<close>, but the template cuts tokens to ten bytes, which fails for a shorter one.  After the API has
  created such a token, the next answer of the page to a browser that is logged in is a page with
  status 200 that breaks off.
\<close>
theorem short_token_breaks_page:
  assumes "dispatch (rq_method r) (rq_escapedPath r) = ToAdmin CreateGate"
    and "serve P E r S = (FromAdmin (AdminJSON 201 (GateTokenData gt)), S')" "length (gt_Token gt) < 10"
    and "dispatch (rq_method r') (rq_escapedPath r') = ToWeb GateTokensUI"
    and "fst (serve P E' r' S') = FromWeb (Html p)"
  shows "\<exists>text. page_response p = (200, text, False)"
proof -
  obtain req :: createGateTokenRequest and s' where
    c: "CreateGateToken (ae_call (en_admin E)) (ae_rndID (en_admin E)) (ae_rndToken (en_admin E)) (cg_Name req) (cg_Token req)
       (gw_db (sv_gate S)) = (Inr gt, s')" and S': "sv_gate S' = (sv_gate S)\<lparr>gw_db := s'\<rparr>"
    by (rule serve_api_create [OF assms(1,2)])
  from c have "\<exists>g\<in>set (gate_tokens s'). gr_token g = gt_Token gt"
    by (auto simp: CreateGateToken_def Let_def split: if_splits)
  then obtain g where g: "g \<in> set (gate_tokens s')" "gr_token g = gt_Token gt" by blast
  from assms(4,5) S' have "gateTokensPage (pg_driver P) (we_calls (en_web E')) (we_local (en_web E')) r' s' = Html p"
    by (auto simp: serve_def serve_ui_def serve_web_def requireAuth_def split: option.splits prod.splits)
  from gate_page_tokens [OF this g(1)] g(2) assms(3) obtain ts st f n t where
    "p = GateTokensPage ts st f n" "t \<in> set ts" "length (gt_Token t) < 10" by auto
  then have "\<not> (\<forall>g\<in>set ts. 8 \<le> length (gt_ID g) \<and> 10 \<le> length (gt_Token g))" using leD by blast
  with \<open>p = GateTokensPage ts st f n\<close> have "\<not> snd (snd (page_response p))" by (simp only: page_complete simp_thms)
  with page_response_template [of p] show ?thesis by (metis prod.collapse snd_conv fst_conv)
qed

definition token_page_request :: http_request where
  "token_page_request = page_request\<lparr>rq_path := ''/admin/gate-tokens'', rq_escapedPath := ''/admin/gate-tokens''\<rparr>"

definition logged_in_server :: "(string items, bool items) server" where
  "logged_in_server = sample_server
     \<lparr>sv_gate := sample_gateway\<lparr>gw_db := empty_db\<rparr>,
      sv_sessions := (\<lambda>_. None)(hex_encode ''rnd'' := Some (True, sessionTTL, sessionTTL))\<rparr>"

lemma token_page_cookie: "request_cookie sessionCookieName token_page_request = Some (hex_encode ''rnd'')"
  by (rule cookie_sent) (simp_all add: token_page_request_def page_request_def)

theorem short_token_breaks_page_witness:
  "\<exists>gt S' p text. serve sample_program (sample_env 5) (api_call ''/admin/api/gate-tokens'' create_body) logged_in_server =
       (FromAdmin (AdminJSON 201 (GateTokenData gt)), S') \<and>
     fst (serve sample_program (sample_env 6) token_page_request S') = FromWeb (Html p) \<and> page_response p = (200, text, False)"
proof -
  let ?r = "api_call ''/admin/api/gate-tokens'' create_body" and ?A = "en_admin (sample_env 5)"
  have d: "dispatch (rq_method ?r) (rq_escapedPath ?r) = ToAdmin CreateGate" by code_simp
  have d': "dispatch (rq_method token_page_request) (rq_escapedPath token_page_request) = ToWeb GateTokensUI" by code_simp
  obtain gt s' where c: "CreateGateToken (ae_call ?A) (ae_rndID ?A) (ae_rndToken ?A) ''n'' ''gate-x'' empty_db = (Inr gt, s')"
    "gt_Token gt = ''gate-x''" "gate_tokens s' = [\<lparr>gr_id = newID ''i'', gr_token = ''gate-x'', gr_name = ''n'', gr_active = 1,
      gr_in = 0, gr_out = 0, gr_created = Bound (UTC 5), gr_updated = Bound (UTC 5)\<rparr>]"
    by (simp add: CreateGateToken_def Let_def empty_db_def sample_env_def sample_admin_env_def)
  have g: "gw_db (sv_gate logged_in_server) = empty_db" by (simp add: logged_in_server_def)
  obtain S' where S': "serve sample_program (sample_env 5) ?r logged_in_server = (FromAdmin (AdminJSON 201 (GateTokenData gt)), S')"
    "gw_db (sv_gate S') = s'" "sv_sessions S' = sv_sessions logged_in_server"
    using d api_call_json c(1)
    by (simp add: serve_def serve_api_def serve_admin_def handle_admin_eq Let_def sample_program_def g
        api_call_authorised createGateToken_def create_call_decoded respondSuccess_def writeJSON_def)
  obtain p where "gateTokensPage text_driver (\<lambda>_. call_at 6) (\<lambda>_. 0) token_page_request s' = Html p"
    by (simp add: gateTokensPage_def ListGateTokens_def query_rows_def c(3) order_by_def scanGateToken_def
        GetUsageStatsByGateToken_def queryUsageStats_def Let_def)
  then have "fst (serve sample_program (sample_env 6) token_page_request S') = FromWeb (Html p)"
    using d' S'(2,3) token_page_cookie
    by (simp add: serve_def serve_ui_def serve_web_def requireAuth_def sample_program_def sample_env_def sample_web_env_def
        logged_in_server_def we_now_def items_get_def sessionTTL_def second_def)
  from short_token_breaks_page [OF d S'(1) _ d' this] c(2) S'(1) this show ?thesis by auto
qed

section \<open>The dashboard\<close>

lemma queryUsageStats_InrD:
  assumes "queryUsageStats D c p s = Inr st" "driver_adds D" "sums_fit (filter p (usage_logs s))"
  shows "st = stats_of (filter p (usage_logs s))"
proof -
  have "int_sum D (map f (filter p (usage_logs s))) = Some (sum_list (map f (filter p (usage_logs s))))"
    if "f \<in> {ur_in, ur_out, ur_cache_creation, ur_cache_read}" for f
    by (rule int_sum_exact [OF assms(2,3) that])
  with assms(1) show ?thesis by (simp add: queryUsageStats_def stats_of_def Let_def split: if_splits)
qed

lemma list_counts:
  "ListRealTokens D c s = Inr ts \<Longrightarrow>
     length ts = length (real_tokens s) \<and> count_where rt_IsActive ts = count_where (\<lambda>r. rr_active r = 1) (real_tokens s)"
  "ListGateTokens D c s = Inr gs \<Longrightarrow>
     length gs = length (gate_tokens s) \<and> count_where gt_IsActive gs = count_where (\<lambda>g. gr_active g = 1) (gate_tokens s)"
proof -
  have count: "list_all2 (\<lambda>x y. p x \<longleftrightarrow> q y) xs ys \<Longrightarrow> mset xs = mset zs \<Longrightarrow>
      length ys = length zs \<and> count_where q ys = count_where p zs" for p q and xs zs :: "'a list" and ys :: "'b list"
  proof
    assume a: "list_all2 (\<lambda>x y. p x \<longleftrightarrow> q y) xs ys" "mset xs = mset zs"
    from a show "length ys = length zs" by (metis list_all2_lengthD size_mset)
    from a(1) have "count_where q ys = count_where p xs"
      by (induction rule: list_all2_induct) (simp_all add: count_where_def)
    also have "\<dots> = count_where p zs" using a(2) by (metis count_where_def mset_filter size_mset)
    finally show "count_where q ys = count_where p zs" .
  qed
  show "length ts = length (real_tokens s) \<and> count_where rt_IsActive ts = count_where (\<lambda>r. rr_active r = 1) (real_tokens s)"
    if "ListRealTokens D c s = Inr ts"
    by (rule count [OF list_all2_mono [OF scan_rows_InrD [OF query_rows_InrD [OF that [unfolded ListRealTokens_def]]]]])
      (auto dest: scanRealToken_InrD)
  show "length gs = length (gate_tokens s) \<and> count_where gt_IsActive gs = count_where (\<lambda>g. gr_active g = 1) (gate_tokens s)"
    if "ListGateTokens D c s = Inr gs"
    by (rule count [OF list_all2_mono [OF scan_rows_InrD [OF query_rows_InrD [OF that [unfolded ListGateTokens_def]]]]])
      (auto dest: scanGateToken_InrD)
qed

text \<open>
  C31: What the dashboard counts.  When the web UI answers with the dashboard, its numbers of tokens and of
  active tokens are those of the rows of the two tables, and its usage is the sum over exactly the logs
  whose UTC second is after the second that the server's local clock showed 24 hours ago.  So the
  period is 24 hours only for a server in UTC: west of it the period is longer by the zone offset, east
  of it shorter.  (Rows stamped by \<open>datetime('now')\<close>, totals within 64 bits, four-digit years.)
\<close>
theorem dashboard_counts:
  assumes "fst (serve_web D W secret E rt r s w) = Html (DashboardPage a)"
    and "t = clock (we_calls E 2) - 24 * 3600 * second" "era (t + we_local E t)"
    and "driver_adds D" "driver_wall D" "stamped s" "sums_fit (logs_after (sec (t + we_local E t)) (\<lambda>_. True) s)"
  shows "da_RealTokenCount a = length (real_tokens s) \<and>
    da_ActiveRealTokenCount a = count_where (\<lambda>r. rr_active r = 1) (real_tokens s) \<and>
    da_GateTokenCount a = length (gate_tokens s) \<and>
    da_ActiveGateTokenCount a = count_where (\<lambda>g. gr_active g = 1) (gate_tokens s) \<and>
    da_Usage24h a = stats_of (logs_after (sec (t + we_local E t)) (\<lambda>_. True) s)"
proof -
  let ?g = "GoTime t (we_local E t)"
  have "dashboard_page D (we_calls E) (we_local E) s = Html (DashboardPage a)"
    using assms(1) by (cases rt) (auto simp: serve_web_def requireAuth_def loginSubmit_def loginPage_def logout_def Let_def
        realTokensPage_def gateTokensPage_def split: if_splits option.splits prod.splits sum.splits)
  then obtain ts gs u where l: "ListRealTokens D (we_calls E 0) s = Inr ts" "ListGateTokens D (we_calls E 1) s = Inr gs"
    "GetUsageStats D (we_calls E 2) ?g s = Inr u"
    and a: "da_RealTokenCount a = length ts" "da_ActiveRealTokenCount a = count_where rt_IsActive ts"
      "da_GateTokenCount a = length gs" "da_ActiveGateTokenCount a = count_where gt_IsActive gs" "da_Usage24h a = u"
    using assms(2) by (auto simp: dashboard_page_def Let_def split: sum.splits)
  have wall: "wall ?g = t + we_local E t" by (simp add: wall_def)
  have logs: "filter (logged_since D ?g) (usage_logs s) = logs_after (sec (t + we_local E t)) (\<lambda>_. True) s"
    using logs_after_since [OF assms(5,6), of ?g "\<lambda>_. True"] assms(3) by (simp add: wall)
  have "u = stats_of (logs_after (sec (t + we_local E t)) (\<lambda>_. True) s)"
    using queryUsageStats_InrD [OF l(3) [unfolded GetUsageStats_def] assms(4)] assms(7) by (simp only: logs)
  with a list_counts(1) [OF l(1)] list_counts(2) [OF l(2)] show ?thesis by simp
qed

text \<open>Three seconds east of UTC and a day and a second after the start of the clock: the log at 2 s is left out.\<close>

definition eastern_env :: web_env where
  "eastern_env = (sample_web_env (24 * 3600 * second + second))\<lparr>we_local := (\<lambda>_. 3 * second)\<rparr>"

theorem dashboard_counts_witness:
  "\<exists>a. fst (serve_web text_driver item_cache ''s3cret'' eastern_env Dashboard page_request logged_db
       ((\<lambda>_. None)(hex_encode ''rnd'' := Some (True, sessionTTL, 2 * sessionTTL)))) = Html (DashboardPage a) \<and>
     da_ActiveGateTokenCount a = 1 \<and> us_RequestCount (da_Usage24h a) = 1 \<and> us_TotalInputTokens (da_Usage24h a) = 25"
proof -
  let ?w = "(\<lambda>_. None)(hex_encode ''rnd'' := Some (True, sessionTTL, 2 * sessionTTL))"
  have ck: "request_cookie sessionCookieName page_request = Some (hex_encode ''rnd'')"
    by (rule cookie_sent) (simp_all add: page_request_def)
  have env: "we_calls eastern_env k = call_at (24 * 3600 * second + second)" "we_local eastern_env t = 3 * second" for k t
    by (simp_all add: eastern_env_def sample_web_env_def)
  let ?c = "call_at (24 * 3600 * second + second)" and ?g = "GoTime second (3 * second)"
  obtain ts gs u where "ListRealTokens text_driver ?c logged_db = Inr ts" "ListGateTokens text_driver ?c logged_db = Inr gs"
    "GetUsageStats text_driver ?c ?g logged_db = Inr u"
    by (simp add: ListRealTokens_def ListGateTokens_def query_rows_def order_by_def logged_db_def gate_and_real_def
        one_real_def scanRealToken_def scanGateToken_def add_usage_def GetUsageStats_def queryUsageStats_def Let_def)
  then obtain a where "dashboard_page text_driver (we_calls eastern_env) (we_local eastern_env) logged_db = Html (DashboardPage a)"
    by (simp add: dashboard_page_def env Let_def)
  then have page: "fst (serve_web text_driver item_cache ''s3cret'' eastern_env Dashboard page_request logged_db ?w) = Html (DashboardPage a)"
    by (simp add: serve_web_def requireAuth_def ck we_now_def env items_get_def sessionTTL_def second_def)
  have "era (second + 3 * second)" by (simp add: era_def second_def)
  from dashboard_counts [OF page, of second] this logged_db_ok have
    "da_ActiveGateTokenCount a = count_where (\<lambda>g. gr_active g = 1) (gate_tokens logged_db)"
    "da_Usage24h a = stats_of (logs_after (sec (second + 3 * second)) (\<lambda>_. True) logged_db)"
    by (simp_all add: env logs_after_def)
  with page show ?thesis
    by (simp add: logs_after_def logged_db_logs Let_def stats_of_def sec_def second_def)
       (simp add: logged_db_def add_usage_def gate_and_real_def count_where_def)
qed

section \<open>Secrecy\<close>

text \<open>What a browser can see of a reply.\<close>

fun visible :: "web_reply \<Rightarrow> (int \<times> written) + web_reply" where
  "visible (Html p) = Inl (page_response p)"
| "visible rep = Inr rep"

lemma real_row_sanitized:
  assumes "sanitizeRealToken t = sanitizeRealToken u"
  shows "execute_all real_token_row (RealDot t st) = execute_all real_token_row (RealDot u st)"
proof -
  from assms have "rt_ID t = rt_ID u" "rt_Name t = rt_Name u" "rt_IsActive t = rt_IsActive u"
    "rt_FailureCount t = rt_FailureCount u" "rt_LastUsedAt t = rt_LastUsedAt u"
    "rt_TotalInputTokens t = rt_TotalInputTokens u" "rt_TotalOutputTokens t = rt_TotalOutputTokens u"
    by (simp_all add: sanitizeRealToken_def)
  then show ?thesis
    unfolding real_token_row_def real_token_form_def real_token_delete_def
    by (intro execute_alike execute_all_append_alike) simp_all
qed

lemma real_tokens_response:
  assumes "map sanitizeRealToken ts = map sanitizeRealToken us"
  shows "page_response (RealTokensPage ts st f) = page_response (RealTokensPage us st f)"
proof -
  let ?d = "page_dot (RealTokensPage ts st f)" and ?e = "page_dot (RealTokensPage us st f)"
  have *: "title_of ?d = title_of ?e" "nav_of ?d = nav_of ?e" "flash_of ?d = flash_of ?e"
    by (simp_all add: page_dot_def)
  from assms have "list_all2 (\<lambda>t u. sanitizeRealToken t = sanitizeRealToken u) ts us"
    by (simp add: list_all2_conv_all_nth list_eq_iff_nth_eq)
  then have "map (execute_all real_token_row) (rows_of ?d) = map (execute_all real_token_row) (rows_of ?e)"
    by (induction rule: list_all2_induct) (auto simp: page_dot_def intro: real_row_sanitized)
  with * have "execute_all (layout_template real_tokens_template) ?d = execute_all (layout_template real_tokens_template) ?e"
    unfolding layout_template_def real_tokens_template_def
    by (intro execute_alike execute_all_append_alike) (simp_all only:)
  then show ?thesis by (simp add: page_response_template page_template_def)
qed

lemma ListRealTokens_public:
  "map_sum id (map sanitizeRealToken) (ListRealTokens D c (public s)) = map_sum id (map sanitizeRealToken) (ListRealTokens D c s)"
  by (simp add: ListRealTokens_def query_rows_sum query_rows_comp order_by_map sanitized_scan)

lemma sum_cases_public:
  assumes "map_sum id (map sanitizeRealToken) x = map_sum id (map sanitizeRealToken) y"
  obtains e where "x = Inl e" "y = Inl e"
  | ts us where "x = Inr ts" "y = Inr us" "map sanitizeRealToken ts = map sanitizeRealToken us"
  using assms by (cases x; cases y) auto

lemma sanitized_fields:
  assumes "map sanitizeRealToken ts = map sanitizeRealToken us"
  shows "map rt_ID ts = map rt_ID us \<and> length ts = length us \<and> count_where rt_IsActive ts = count_where rt_IsActive us"
proof -
  from assms have "map re_ID (map sanitizeRealToken ts) = map re_ID (map sanitizeRealToken us)"
    "count_where re_IsActive (map sanitizeRealToken ts) = count_where re_IsActive (map sanitizeRealToken us)" by simp_all
  then show ?thesis
    using map_eq_imp_length_eq [OF assms] by (simp add: count_where_map comp_def sanitizeRealToken_def)
qed

lemma stats_public [simp]:
  "GetUsageStats D c t (public s) = GetUsageStats D c t s"
  "GetUsageStatsByRealToken D c i t (public s) = GetUsageStatsByRealToken D c i t s"
  "GetUsageStatsByGateToken D c i t (public s) = GetUsageStatsByGateToken D c i t s"
  "ListGateTokens D c (public s) = ListGateTokens D c s"
  by (simp_all add: GetUsageStats_def GetUsageStatsByRealToken_def GetUsageStatsByGateToken_def queryUsageStats_def
      ListGateTokens_def)

lemma pages_public:
  "visible (dashboard_page D calls local (public s)) = visible (dashboard_page D calls local s)"
  "visible (realTokensPage D calls local r (public s)) = visible (realTokensPage D calls local r s)"
  "visible (gateTokensPage D calls local r (public s)) = visible (gateTokensPage D calls local r s)"
proof -
  show "visible (dashboard_page D calls local (public s)) = visible (dashboard_page D calls local s)"
    by (rule sum_cases_public [OF ListRealTokens_public [of D "calls 0" s]])
      (auto simp: dashboard_page_def Let_def dest!: sanitized_fields split: sum.split)
  show "visible (realTokensPage D calls local r (public s)) = visible (realTokensPage D calls local r s)"
  proof (rule sum_cases_public [OF ListRealTokens_public [of D "calls 0" s]])
    fix ts us assume a: "ListRealTokens D (calls 0) (public s) = Inr ts" "ListRealTokens D (calls 0) s = Inr us"
      "map sanitizeRealToken ts = map sanitizeRealToken us"
    from sanitized_fields [OF a(3)] real_tokens_response [OF a(3)] a(1,2) show ?thesis
      by (simp add: realTokensPage_def split: sum.split)
  qed (simp add: realTokensPage_def)
  show "visible (gateTokensPage D calls local r (public s)) = visible (gateTokensPage D calls local r s)"
    by (simp add: gateTokensPage_def split: sum.split)
qed

lemma visible_requireAuth:
  "visible p = visible q \<Longrightarrow> visible (fst (requireAuth W now r p w)) = visible (fst (requireAuth W now r q w)) \<and>
   snd (requireAuth W now r p w) = snd (requireAuth W now r q w)"
  by (auto simp: requireAuth_def split: option.split prod.split)

text \<open>
  C18: The pages keep the credentials secret.  Let two databases differ only in the access and refresh
  tokens of their real tokens.  Then every request to the web UI is answered alike from both, to the
  byte of the rendered page, and leaves the same sessions.
\<close>
theorem pages_hide_credentials:
  assumes "public s1 = public s2"
  shows "visible (fst (serve_web D W secret E rt r s1 w)) = visible (fst (serve_web D W secret E rt r s2 w)) \<and>
    snd (serve_web D W secret E rt r s1 w) = snd (serve_web D W secret E rt r s2 w)"
proof -
  let ?c = "we_calls E" and ?l = "we_local E"
  have "visible (dashboard_page D ?c ?l s1) = visible (dashboard_page D ?c ?l s2)"
    "visible (realTokensPage D ?c ?l r s1) = visible (realTokensPage D ?c ?l r s2)"
    "visible (gateTokensPage D ?c ?l r s1) = visible (gateTokensPage D ?c ?l r s2)"
    using pages_public [of D ?c ?l] assms by metis+
  note * = this [THEN visible_requireAuth]
  show ?thesis by (cases rt) (simp_all add: serve_web_def *)
qed

theorem pages_hide_credentials_witness:
  "visible (fst (serve_web text_driver item_cache ''s3cret'' (sample_web_env 6) RealTokensUI token_page_request
     (empty_db\<lparr>real_tokens := [stored_token ''a'' ''one'']\<rparr>) (sv_sessions logged_in_server))) =
   visible (fst (serve_web text_driver item_cache ''s3cret'' (sample_web_env 6) RealTokensUI token_page_request
     (empty_db\<lparr>real_tokens := [stored_token ''a'' ''two'']\<rparr>) (sv_sessions logged_in_server)))"
proof -
  have "public (empty_db\<lparr>real_tokens := [stored_token ''a'' ''one'']\<rparr>) = public (empty_db\<lparr>real_tokens := [stored_token ''a'' ''two'']\<rparr>)"
    by (simp add: public_def pub_row_def stored_token_def)
  then show ?thesis by (rule pages_hide_credentials [THEN conjunct1])
qed

end
