(* ===== verification/Page_Actions.thy ===== *)
theory Page_Actions
  imports Page_Properties "HOL-Library.Sublist"
begin

text \<open>
  Where the rows of the token pages lead: the paths in their forms and buttons, what the multiplexer
  makes of them, and what a browser gets back.
\<close>

section \<open>Plain paths\<close>

definition plain_segment :: "string \<Rightarrow> bool" where
  "plain_segment w \<longleftrightarrow> w \<noteq> [] \<and> w \<noteq> ''.'' \<and> w \<noteq> ''..'' \<and> CHR ''/'' \<notin> set w \<and> CHR ''%'' \<notin> set w"

lemma split_join_slash: "list_all plain_segment ws \<Longrightarrow> ws \<noteq> [] \<Longrightarrow> split_on (CHR ''/'') (join_slash ws) = ws"
  by (induction ws rule: join_slash.induct) (simp_all add: plain_segment_def split_on_absent split_on_append)

lemma clean_onto_plain: "list_all plain_segment ws \<Longrightarrow> clean_onto True out ws = rev out @ ws"
  by (induction ws arbitrary: out) (simp_all add: plain_segment_def)

lemma last_plain: "list_all plain_segment ws \<Longrightarrow> ws \<noteq> [] \<Longrightarrow> join_slash ws \<noteq> [] \<and> last (join_slash ws) \<noteq> CHR ''/''"
  by (induction ws rule: join_slash.induct) (auto simp: plain_segment_def dest: last_in_set)

lemma percent_decode_path: "CHR ''%'' \<notin> set w \<Longrightarrow> percent_decode False w = Some w"
  by (induction w) auto

lemma plain_path:
  assumes "list_all plain_segment ws" "ws \<noteq> []"
  shows "cleanPath (CHR ''/'' # join_slash ws) = CHR ''/'' # join_slash ws"
    and "path_segments (CHR ''/'' # join_slash ws) = ws"
proof -
  have "Clean (CHR ''/'' # join_slash ws) = CHR ''/'' # join_slash ws"
    using clean_onto_plain [OF assms(1)] split_join_slash [OF assms] by (simp add: Clean_def HasPrefix_iff)
  then show "cleanPath (CHR ''/'' # join_slash ws) = CHR ''/'' # join_slash ws"
    using last_plain [OF assms] by (simp add: cleanPath_def)
  have "map (\<lambda>w. case PathUnescape w of None \<Rightarrow> w | Some t \<Rightarrow> t) ws = ws"
    using assms(1) by (intro map_idI) (simp add: list_all_iff PathUnescape_def percent_decode_path plain_segment_def)
  then show "path_segments (CHR ''/'' # join_slash ws) = ws"
    by (simp add: path_segments_def split_join_slash [OF assms])
qed

section \<open>Identifiers\<close>

lemma hex_chars:
  assumes "c \<in> set (hex_encode bs)"
  shows "escape_html_char c = [c]" "url_kept c" "c \<noteq> CHR ''/''" "c \<noteq> CHR ''%''" "c \<noteq> CHR ''.''"
proof -
  have "(of_char b :: nat) div 16 < 16" for b using of_char_less_256 [of b] by linarith
  moreover have "length hex_digits = 16" by (simp add: hex_digits_def)
  ultimately have "hex_digits ! (of_char b div 16) \<in> set hex_digits" "hex_digits ! (of_char b mod 16) \<in> set hex_digits" for b
    by (simp_all add: nth_mem)
  then have "c \<in> set hex_digits" using assms by (induction bs) auto
  moreover have "list_all (\<lambda>c. escape_html_char c = [c] \<and> url_kept c \<and> c \<noteq> CHR ''/'' \<and> c \<noteq> CHR ''%'' \<and> c \<noteq> CHR ''.'') hex_digits"
    by code_simp
  ultimately show "escape_html_char c = [c]" "url_kept c" "c \<noteq> CHR ''/''" "c \<noteq> CHR ''%''" "c \<noteq> CHR ''.''"
    by (auto simp: list_all_iff)
qed

lemma newID_kept: "html_escape (newID bs) = newID bs" "url_normalize (newID bs) = newID bs"
proof -
  have "(\<And>c. c \<in> set s \<Longrightarrow> escape_html_char c = [c]) \<Longrightarrow> html_escape s = s" for s
    by (induction s) (simp_all add: html_escape_def)
  then show "html_escape (newID bs) = newID bs" by (simp add: newID_def hex_chars)
  have "(\<And>c. c \<in> set s \<Longrightarrow> url_kept c) \<Longrightarrow> url_normalize s = s" for s
    by (induction s) simp_all
  then show "url_normalize (newID bs) = newID bs" by (simp add: newID_def hex_chars)
qed

lemma newID_plain: "bs \<noteq> [] \<Longrightarrow> plain_segment (newID bs)"
  unfolding plain_segment_def newID_def using hex_chars [of _ bs] by fastforce

section \<open>Actions\<close>

text \<open>The URL of a token below the API, and of one of its actions.\<close>

definition token_segments :: "token_table \<Rightarrow> string \<Rightarrow> string list" where
  "token_segments tab i = [''admin'', ''api'', token_type tab @ ''-tokens'', i]"

definition token_url :: "token_table \<Rightarrow> string \<Rightarrow> string" where
  "token_url tab i = CHR ''/'' # join_slash (token_segments tab i)"

definition action_url :: "token_table \<Rightarrow> string \<Rightarrow> string \<Rightarrow> string" where
  "action_url tab i verb = CHR ''/'' # join_slash (token_segments tab i @ [verb])"

lemma action_routes:
  assumes "bs \<noteq> []"
  shows "dispatch ''POST'' (action_url tab (newID bs) ''activate'') = ToAdmin (SetActive tab (newID bs) True)"
    "dispatch ''POST'' (action_url tab (newID bs) ''deactivate'') = ToAdmin (SetActive tab (newID bs) False)"
    "dispatch ''DELETE'' (token_url tab (newID bs)) = ToAdmin (DeleteToken tab (newID bs))"
proof -
  have w: "wildcard (newID bs)" and id: "list_all plain_segment (token_segments tab (newID bs))"
    using newID_plain [OF assms] by (cases tab; simp add: wildcard_def plain_segment_def token_segments_def; fastforce)+
  have verb: "list_all plain_segment (token_segments tab (newID bs) @ [v])" if "v \<in> {''activate'', ''deactivate''}" for v
    using that id by (auto simp: plain_segment_def)
  note path = plain_path [OF id] plain_path [OF verb [of "''activate''"]] plain_path [OF verb [of "''deactivate''"]]
  note go = dispatch_def Let_def is_get_def token_url_def action_url_def token_segments_def route_def admin_match_def
    token_table_of_def
  from path w show
    "dispatch ''POST'' (action_url tab (newID bs) ''activate'') = ToAdmin (SetActive tab (newID bs) True)"
    "dispatch ''POST'' (action_url tab (newID bs) ''deactivate'') = ToAdmin (SetActive tab (newID bs) False)"
    "dispatch ''DELETE'' (token_url tab (newID bs)) = ToAdmin (DeleteToken tab (newID bs))"
    by (cases tab; simp add: go)+
qed

section \<open>Rows\<close>

definition form_attribute :: "token_table \<Rightarrow> string \<Rightarrow> string \<Rightarrow> string" where
  "form_attribute tab i verb = ''method=\"POST\" action=\"'' @ action_url tab i verb @ ''\"''"

definition delete_attribute :: "token_table \<Rightarrow> string \<Rightarrow> string" where
  "delete_attribute tab i = ''hx-delete=\"'' @ token_url tab i @ ''\"''"

lemma sublist_concat: "x \<in> set xs \<Longrightarrow> sublist s x \<Longrightarrow> sublist s (concat xs)"
  by (induction xs) (auto simp: sublist_append)

text \<open>What a node or a group of nodes at the end writes is part of what a complete template writes.\<close>

lemma sublist_node:
  "snd (execute_all ns d) \<Longrightarrow> n \<in> set ns \<Longrightarrow> sublist s (fst (execute n d)) \<Longrightarrow> sublist s (fst (execute_all ns d))"
  by (auto simp: fst_execute_all intro!: sublist_concat [of "fst (execute n d)"])

lemma sublist_tail:
  assumes "snd (execute_all (ns @ ms) d)" "sublist s (fst (execute_all ms d))"
  shows "sublist s (fst (execute_all (ns @ ms) d))"
proof -
  from assms(1) have "snd (execute_all ms d)" by (simp add: snd_execute_append)
  then have "fst (execute_all (ns @ ms) d) = concat (map (\<lambda>n. fst (execute n d)) ns) @ fst (execute_all ms d)"
    by (simp add: fst_execute_all [OF assms(1)] fst_execute_all)
  with assms(2) show ?thesis by (simp add: sublist_append)
qed

lemma form_text:
  "rt_ID t = newID bs \<Longrightarrow>
    sublist (form_attribute RealTokens (newID bs) (if rt_IsActive t then ''deactivate'' else ''activate''))
      (fst (execute real_token_form (RealDot t st)))"
  "gt_ID g = newID bs \<Longrightarrow>
    sublist (form_attribute GateTokens (newID bs) (if gt_IsActive g then ''deactivate'' else ''activate''))
      (fst (execute gate_token_form (GateDot g st)))"
  by (simp_all add: real_token_form_def gate_token_form_def execute.simps execute_all.simps newID_kept form_attribute_def
      action_url_def token_segments_def line_def part_def eval_nat_numeral)
    (simp_all add: sublist_code)

lemma delete_text:
  "rt_ID t = newID bs \<Longrightarrow>
    sublist (delete_attribute RealTokens (newID bs)) (fst (execute_all real_token_delete (RealDot t st)))"
  "gt_ID g = newID bs \<Longrightarrow>
    sublist (delete_attribute GateTokens (newID bs)) (fst (execute_all gate_token_delete (GateDot g st)))"
  by (simp_all add: real_token_delete_def gate_token_delete_def execute.simps execute_all.simps newID_kept
      delete_attribute_def token_url_def token_segments_def line_def part_def eval_nat_numeral)
    (simp_all add: sublist_code)

text \<open>The row of a table, and the data it is written for.\<close>

fun token_row :: "token_table \<Rightarrow> dot tnode list" where
  "token_row RealTokens = real_token_row"
| "token_row GateTokens = gate_token_row"

fun names_token :: "token_table \<Rightarrow> string \<Rightarrow> dot \<Rightarrow> bool" where
  "names_token RealTokens i (RealDot t st) \<longleftrightarrow> rt_ID t = i"
| "names_token GateTokens i (GateDot t st) \<longleftrightarrow> gt_ID t = i"
| "names_token _ _ _ \<longleftrightarrow> False"

lemma row_parts:
  "\<exists>ns. token_row RealTokens = ns @ real_token_form # real_token_delete"
  "\<exists>ns. token_row GateTokens = ns @ gate_token_form # gate_token_delete"
  by (simp_all only: token_row.simps real_token_row_def gate_token_row_def) blast+

lemma row_text:
  assumes "token_row tab = ns @ n # ms" "snd (execute_all (token_row tab) d)"
  shows "sublist s (fst (execute n d)) \<Longrightarrow> sublist s (fst (execute_all (token_row tab) d))"
    and "sublist s (fst (execute_all ms d)) \<Longrightarrow> sublist s (fst (execute_all (token_row tab) d))"
proof -
  show "sublist s (fst (execute_all (token_row tab) d))" if "sublist s (fst (execute n d))"
    using assms that by (intro sublist_node [of _ _ n]) simp_all
  have "token_row tab = (ns @ [n]) @ ms" by (simp add: assms(1))
  then show "sublist s (fst (execute_all (token_row tab) d))" if "sublist s (fst (execute_all ms d))"
    using assms(2) that sublist_tail [of "ns @ [n]" ms d s] by simp
qed

text \<open>
  C20: The rows of the token pages lead where they say.  A complete row for a token with an identifier
  of the store contains a form that posts to the URL at which the API switches this very token of this
  table on or off, whichever it is not, and a button that sends a DELETE to the URL at which it deletes it.
\<close>
theorem rows_lead_to_handlers:
  assumes "bs \<noteq> []" "names_token tab (newID bs) d" "snd (execute_all (token_row tab) d)"
  shows "let verb = if is_active d then ''deactivate'' else ''activate''; text = fst (execute_all (token_row tab) d) in
    sublist (form_attribute tab (newID bs) verb) text \<and> sublist (delete_attribute tab (newID bs)) text \<and>
    dispatch ''POST'' (action_url tab (newID bs) verb) = ToAdmin (SetActive tab (newID bs) (\<not> is_active d)) \<and>
    dispatch ''DELETE'' (token_url tab (newID bs)) = ToAdmin (DeleteToken tab (newID bs))"
proof -
  have "sublist (form_attribute tab (newID bs) (if is_active d then ''deactivate'' else ''activate''))
      (fst (execute_all (token_row tab) d)) \<and>
    sublist (delete_attribute tab (newID bs)) (fst (execute_all (token_row tab) d))"
  proof (cases tab)
    case RealTokens
    with assms(2) obtain t st where d: "d = RealDot t st" "rt_ID t = newID bs" by (cases d) simp_all
    from row_parts(1) obtain ns where "token_row tab = ns @ real_token_form # real_token_delete" using RealTokens by blast
    from row_text [OF this assms(3)] form_text(1) [OF d(2)] delete_text(1) [OF d(2)] show ?thesis
      by (simp only: d(1) RealTokens is_active.simps)
  next
    case GateTokens
    with assms(2) obtain t st where d: "d = GateDot t st" "gt_ID t = newID bs" by (cases d) simp_all
    from row_parts(2) obtain ns where "token_row tab = ns @ gate_token_form # gate_token_delete" using GateTokens by blast
    from row_text [OF this assms(3)] form_text(2) [OF d(2)] delete_text(2) [OF d(2)] show ?thesis
      by (simp only: d(1) GateTokens is_active.simps)
  qed
  with action_routes [OF assms(1)] show ?thesis by (simp add: Let_def)
qed

theorem rows_lead_to_handlers_witness:
  "\<exists>t. gt_ID t = newID ''abcd'' \<and>
     sublist (form_attribute GateTokens (newID ''abcd'') ''activate'') (fst (execute_all gate_token_row (GateDot t (\<lambda>_. None))))"
proof -
  have len: "length (newID ''abcd'') = 8" by code_simp
  define t where "t = \<lparr>gt_ID = newID ''abcd'', gt_Token = ''gate-123456'', gt_Name = ''n'', gt_IsActive = False,
    gt_TotalInputTokens = 0, gt_TotalOutputTokens = 0, gt_CreatedAt = UTC 0, gt_UpdatedAt = UTC 0\<rparr>"
  then have t: "gt_ID t = newID ''abcd''" "gt_Token t = ''gate-123456''" "\<not> gt_IsActive t" by simp_all
  have "snd (execute_all (token_row GateTokens) (GateDot t (\<lambda>_. None)))"
    using t(2) by (simp add: row_complete t(1) len)
  from rows_lead_to_handlers [of "''abcd''" GateTokens, OF _ _ this] t(1,3) show ?thesis
    by (intro exI [of _ t]) (simp add: Let_def)
qed

section \<open>What a browser gets back\<close>

lemma post_routes:
  assumes "rq_method r = ''POST''" "dispatch (rq_method r) (rq_escapedPath r) = ToAdmin rt"
  shows "rt = CreateReal \<or> rt = CreateGate \<or> (\<exists>tab i b. rt = SetActive tab i b)"
proof -
  have *: "Register ''POST'' segs = Some rt \<Longrightarrow> rt = CreateReal \<or> rt = CreateGate \<or> (\<exists>tab i b. rt = SetActive tab i b)" for segs
    by (cases "(''POST'', segs)" rule: Register.cases)
      (auto simp: is_get_def list_or_create_def split: if_splits option.splits token_table.splits)
  from assms obtain segs where "route ''POST'' segs = ToAdmin rt"
    by (auto simp: dispatch_def Let_def split: if_splits)
  then have "\<exists>rest. admin_match ''POST'' rest = Some rt"
    by (auto simp: route_def split: list.splits if_splits option.splits)
  then obtain rest where "admin_match ''POST'' rest = Some rt" ..
  then have "\<exists>xs. Register ''POST'' xs = Some rt"
    by (cases rest) (auto simp: admin_match_def split: if_splits option.splits)
  with * show ?thesis by blast
qed

lemma form_redirected:
  assumes "isFormRequest r" "rt = CreateReal \<or> rt = CreateGate \<or> (\<exists>tab i b. rt = SetActive tab i b)"
  shows "\<exists>u. fst (handle_admin D A h rt r s m) = HXRedirect u"
proof -
  have w: "wants_redirect r" using assms(1) by (simp add: wants_redirect_def)
  obtain req where f: "create_real_request r = Some req" using assms(1) by (simp add: create_real_request_def Let_def)
  obtain req' where g: "create_gate_request r = Some req'" using assms(1) by (simp add: create_gate_request_def Let_def)
  have red: "respondSuccess r st v u = HXRedirect u" "respondError r st msg u = HXRedirect u" for st v msg u
    using w by (simp_all add: respondSuccess_def respondError_def)
  have "\<exists>u. fst (createRealToken c bs h r s m) = HXRedirect u" for c bs h s m
    by (simp add: createRealToken_def f red split: prod.split sum.split)
  moreover have "\<exists>u. fst (createGateToken c bs bs' r s m) = HXRedirect u" for c bs bs' s m
    by (simp add: createGateToken_def g red split: prod.split sum.split)
  moreover have "\<exists>u. fst (setTokenActive c h tab i b r s m) = HXRedirect u" for c h tab i b s m
    by (simp add: setTokenActive_def red Let_def split: prod.split option.split)
  ultimately show ?thesis using assms(2) by (auto simp: handle_admin_eq Let_def)
qed

text \<open>
  C34: A plain form shows its user nothing.  The forms of the pages are plain HTML forms, which a browser
  submits by POST with a form content type and without the header \<open>HX-Request\<close>.  Whatever such a form does, an authorised one is
  answered with 204 and the header \<open>HX-Redirect\<close>, which only the htmx library heeds: a browser stays
  where it is, and neither the message nor a token just created is ever shown.
\<close>
theorem plain_forms_show_nothing:
  assumes "rq_method r = ''POST''" "isFormRequest r" "dispatch (rq_method r) (rq_escapedPath r) = ToAdmin rt"
    and "fst (serve P E r S) \<noteq> FromAdmin (writeError 401 ''missing or invalid authorization'')"
  shows "\<exists>u. fst (serve P E r S) = FromAdmin (HXRedirect u)"
proof -
  from assms(1,3) have "rt = CreateReal \<or> rt = CreateGate \<or> (\<exists>tab i b. rt = SetActive tab i b)"
    by (rule post_routes)
  note redirected = form_redirected [OF assms(2) this]
  let ?now = "clock (ae_call (en_admin E))"
  obtain ok w' where auth: "AdminAuth (pg_secret P) (Some (session_auth P ?now)) r (sv_sessions S) = (ok, w')"
    by (rule prod.exhaust)
  obtain rep s' m' where h: "handle_admin (pg_driver P) (en_admin E) (RefreshPool ?now) rt r (gw_db (sv_gate S)) (gw_mgr (sv_gate S)) =
      (rep, s', m')" by (rule prod_cases3)
  with redirected have "\<exists>u. rep = HXRedirect u" by (metis fst_conv)
  with assms(3,4) auth h show ?thesis
    by (cases ok) (simp_all add: serve_def serve_api_def serve_admin_def Let_def)
qed

definition form_submission :: http_request where
  "form_submission = (sample_api_request ''POST'' form_type ''name=n'')
     \<lparr>rq_path := ''/admin/api/gate-tokens'', rq_escapedPath := ''/admin/api/gate-tokens'',
      rq_header := (\<lambda>_. [])(''Content-Type'' := [form_type],
        ''Cookie'' := [sessionCookieName @ CHR ''='' # hex_encode ''rnd''])\<rparr>"

theorem plain_forms_show_nothing_witness:
  "\<exists>u. fst (serve sample_program (sample_env 5) form_submission logged_in_server) = FromAdmin (HXRedirect u)"
proof -
  let ?r = form_submission and ?S = logged_in_server and ?P = sample_program
  have m: "rq_method ?r = ''POST''" by (simp add: form_submission_def sample_api_request_def)
  have f: "isFormRequest ?r" by code_simp
  have d: "dispatch (rq_method ?r) (rq_escapedPath ?r) = ToAdmin CreateGate" by code_simp
  have c: "request_cookie sessionCookieName ?r = Some (hex_encode ''rnd'')"
    by (rule cookie_sent) (simp_all add: form_submission_def)
  have n: "Header_Get (rq_header ?r) ''Authorization'' = []" by code_simp
  have "\<exists>w'. AdminAuth (pg_secret ?P) (Some (session_auth ?P (clock (ae_call (en_admin (sample_env 5)))))) ?r
      (sv_sessions ?S) = (True, w')"
    by (simp add: AdminAuth_def n session_auth_def ValidateSession_def c sample_program_def logged_in_server_def
        items_get_def sessionTTL_def second_def sample_env_def sample_admin_env_def HasPrefix_iff) blast
  then obtain w' where auth: "AdminAuth (pg_secret ?P) (Some (session_auth ?P (clock (ae_call (en_admin (sample_env 5)))))) ?r
      (sv_sessions ?S) = (True, w')" ..
  obtain rep s' m' where h: "handle_admin (pg_driver ?P) (en_admin (sample_env 5)) (RefreshPool (clock (ae_call (en_admin (sample_env 5)))))
      CreateGate ?r (gw_db (sv_gate ?S)) (gw_mgr (sv_gate ?S)) = (rep, s', m')" by (rule prod_cases3)
  have "\<exists>u. rep = HXRedirect u" using form_redirected [OF f] h by (metis fst_conv)
  then have "fst (serve ?P (sample_env 5) ?r ?S) \<noteq> FromAdmin (writeError 401 ''missing or invalid authorization'')"
    using auth h d by (auto simp: serve_def serve_api_def serve_admin_def Let_def writeError_def)
  from plain_forms_show_nothing [OF m f d this] show ?thesis .
qed

end
