(* ===== verification/Usage_Provenance.thy ===== *)
theory Usage_Provenance
  imports Server_Invariants
begin

text \<open>
  Where the recorded usage comes from: a property of usage entries that holds for what a request
  reports holds for everything in the pipeline and in the database, however the program runs.
  It is interpreted for the origin of the entries.
\<close>

section \<open>What a request reports\<close>

text \<open>
  Request \<open>r\<close> sends \<open>e\<close> in state \<open>S\<close>: it appends the entry to the channel, for the gate token that
  admits it, the real token that was resolved, and the usage in the upstream's answer.
\<close>

definition reports :: "('c, 'w) program \<Rightarrow> request_env \<Rightarrow> http_request \<Rightarrow> ('c, 'w) server \<Rightarrow> usageEntry \<Rightarrow> bool" where
  "reports P E r S e \<longleftrightarrow>
     gw_ch (sv_gate (snd (serve P E r S))) = gw_ch (sv_gate S) @ [e] \<and>
     dispatch (rq_method r) (rq_escapedPath r) = ToProxy \<and>
     (\<exists>g. admits (gw_db (sv_gate S)) r g \<and> ue_GateTokenID e = gr_id g) \<and> ue_RequestPath e = rq_path r \<and>
     (\<exists>t resp. fst (ResolveToken (pg_driver P) (pg_cache P) (ex_resolve (en_exchange E)) (ue_GateTokenID e)
            (gw_db (sv_gate S)) (gw_mgr (sv_gate S))) = Inr t \<and>
        ue_RealTokenID e = rt_ID t \<and>
        ex_upstream (en_exchange E) (outgoing (pg_upstream P) (en_exchange E) t r) = Inr resp \<and>
        reported_usage (en_exchange E) resp = Some (ue_Usage e) \<and> ue_StatusCode e = rs_status resp)"

lemma serve_response_reports:
  assumes "serve_response D x gt t path answer G = (rep, G')"
  shows "gw_ch G' = gw_ch G \<or> (\<exists>resp u. answer = Inr resp \<and> reported_usage x resp = Some u \<and>
    gw_ch G' = gw_ch G @ [usage_entry (gt_ID gt) (rt_ID t) u path (rs_status resp)])"
proof (cases answer)
  case (Inl err)
  with assms show ?thesis by (auto simp: serve_response_def ErrorHandler_def)
next
  case (Inr resp)
  with assms have "serve_response D x gt t path (Inr resp) G = (rep, G')" by simp
  from serve_response_answer(2) [OF this] Inr show ?thesis
    by (auto simp: sendUsage_def split: option.splits if_splits)
qed

lemma serve_reports:
  "gw_ch (sv_gate (snd (serve P E r S))) = gw_ch (sv_gate S) \<or> (\<exists>e. reports P E r S e)"
proof (cases "dispatch (rq_method r) (rq_escapedPath r) = ToProxy")
  case False
  then show ?thesis
    by (auto simp: serve_def serve_api_def serve_ui_def Let_def split: target.splits prod.splits)
next
  case True
  let ?x = "en_exchange E"
  obtain rep out G where s: "ServeHTTP (pg_driver P) (pg_cache P) (pg_upstream P) ?x r (sv_gate S) = (rep, out, G)"
    by (rule prod_cases3)
  then have ch: "gw_ch (sv_gate (snd (serve P E r S))) = gw_ch G" using True by (simp add: serve_def serve_proxy_def)
  from s show ?thesis
  proof (cases rule: ServeHTTP_cases)
    case (served g gt t s m)
    from serve_response_reports [OF served(5)] True served(1-3) show ?thesis
      unfolding reports_def ch by (auto simp: usage_entry_def)
  qed (simp_all add: ch)
qed

lemma handle_admin_logs:
  "set (usage_logs (fst (snd (handle_admin D A f rt r s m)))) \<subseteq> set (usage_logs s)"
proof (rule handle_admin_store [of "\<lambda>s'. set (usage_logs s') \<subseteq> set (usage_logs s)"])
  have del: "set (usage_logs (snd (withTx c k (cascadeDelete c tab i) s))) \<subseteq> set (usage_logs s)" for c k tab i
    by (auto simp: withTx_def cascadeDelete_def Let_def delete_sticky_def delete_usage_def delete_token_def
        split: token_table.splits)
  show "set (usage_logs (snd (delete_op tab c i s))) \<subseteq> set (usage_logs s)" for tab c i
    by (cases tab) (simp_all add: delete_op_def DeleteRealToken_def DeleteGateToken_def del)
  show "set (usage_logs (snd (set_active_op tab c i b s))) \<subseteq> set (usage_logs s)"
    "set (usage_logs (snd (rename_op tab c i n s))) \<subseteq> set (usage_logs s)" for tab c i b n
    by (cases tab; simp add: set_active_op_def rename_op_def SetRealTokenActive_def SetGateTokenActive_def
        UpdateRealToken_def UpdateGateToken_def Let_def)+
qed (simp_all add: CreateRealToken_def CreateGateToken_def Let_def)

text \<open>A request adds no log, and only the deletion of a token removes some.\<close>

lemma serve_logs: "set (usage_logs (gw_db (sv_gate (snd (serve P E r S))))) \<subseteq> set (usage_logs (gw_db (sv_gate S)))"
proof (cases "dispatch (rq_method r) (rq_escapedPath r)")
  case ToProxy
  let ?x = "en_exchange E"
  obtain rep out G where s: "ServeHTTP (pg_driver P) (pg_cache P) (pg_upstream P) ?x r (sv_gate S) = (rep, out, G)"
    by (rule prod_cases3)
  then have "usage_logs (gw_db G) = usage_logs (gw_db (sv_gate S))"
  proof (cases rule: ServeHTTP_cases)
    case (served g gt t s m)
    obtain e s2 m2 where rf: "RecordFailure (pg_driver P) (ex_record ?x) (rt_ID t) s m = (e, s2, m2)" by (rule prod_cases3)
    from serve_response_state(1) [OF served(5)] ResolveToken_frame(3) [OF served(3)] RecordFailure_outcomes(5) [OF rf] rf
    show ?thesis by simp
  qed (simp_all add: ResolveToken_frame(3))
  with s ToProxy show ?thesis by (simp add: serve_def serve_proxy_def)
next
  case (ToAdmin rt)
  let ?c = "clock (ae_call (en_admin E))" and ?G = "sv_gate S"
  from handle_admin_logs [of "pg_driver P" "en_admin E" "RefreshPool ?c" rt r "gw_db ?G" "gw_mgr ?G"] ToAdmin show ?thesis
    by (auto simp: serve_def serve_api_def serve_admin_def Let_def split: prod.splits bool.splits)
qed (simp_all add: serve_def serve_ui_def split: prod.splits)

section \<open>What a turn of the writer does with entries\<close>

definition recorded :: "(usageEntry \<Rightarrow> bool) \<Rightarrow> usage_row set \<Rightarrow> db \<Rightarrow> bool" where
  "recorded Q old s \<longleftrightarrow> (\<forall>l\<in>set (usage_logs s). l \<in> old \<or> (\<exists>e. Q e \<and> log_of_row l = unsaved (log_of_entry e)))"

lemma recorded_fold:
  assumes "recorded Q old s" "\<forall>e\<in>set es. Q e"
  shows "recorded Q old (fold (add_usage t) (map log_of_entry es) s)"
  using assms
proof (induction es arbitrary: s)
  case (Cons e es)
  then have "recorded Q old (add_usage t (log_of_entry e) s)"
    by (auto simp: recorded_def add_usage_def log_of_row_def unsaved_def)
  with Cons show ?case by simp
qed simp

lemma flush_recorded:
  assumes "flush D fe w s = (ev, w', s')" "\<forall>e\<in>set (uw_retryBuf w @ uw_buf w). Q e" "recorded Q old s"
  shows "(\<forall>e\<in>set (uw_retryBuf w' @ uw_buf w'). Q e) \<and> recorded Q old s'"
proof -
  let ?buf = "uw_retryBuf w @ uw_buf w"
  obtain e s1 where r: "InsertUsageLogs (fe_call fe) (map log_of_entry ?buf) s = (e, s1)" by fastforce
  have s1: "recorded Q old s1"
  proof (cases e)
    case None
    with r have "s1 = fold (add_usage (clock (fe_call fe))) (map log_of_entry ?buf) s" by (auto dest: InsertUsageLogs_ok)
    with recorded_fold [OF assms(3,2)] show ?thesis by simp
  next
    case (Some err)
    with r assms(3) InsertUsageLogs_error [of "fe_call fe" "map log_of_entry ?buf" s err] show ?thesis by simp
  qed
  have "recorded Q old (apply_updates (UpdateRealTokenUsage D) c m (apply_updates (UpdateGateTokenUsage D) c' m' s1))" for c c' m m'
    using s1 by (simp add: recorded_def)
  with assms r s1 flush_outcome [OF assms(1)] show ?thesis
    by (auto simp: flush_def Let_def split: if_splits option.splits)
qed

lemma turn_recorded:
  assumes "run_turn D fe sel False ch w s = Some (ev, ch', w', s', go)"
    and "\<forall>e\<in>set (uw_retryBuf w @ uw_buf w @ ch). Q e" "recorded Q old s"
  shows "(\<forall>e\<in>set (uw_retryBuf w' @ uw_buf w' @ ch'). Q e) \<and> recorded Q old s'"
proof -
  define w1 where "w1 = w\<lparr>uw_buf := uw_buf w @ take 1 ch\<rparr>"
  define w2 where "w2 = w\<lparr>uw_buf := uw_buf w @ ch\<rparr>"
  have q: "\<forall>e\<in>set (uw_retryBuf w1 @ uw_buf w1). Q e" "\<forall>e\<in>set (uw_retryBuf w2 @ uw_buf w2). Q e"
    "\<forall>e\<in>set (uw_retryBuf w @ uw_buf w). Q e"
    using assms(2) by (auto simp: w1_def w2_def dest: in_set_takeD)
  note flushed = flush_recorded [OF _ q(1) assms(3)] flush_recorded [OF _ q(2) assms(3)] flush_recorded [OF _ q(3) assms(3)]
  show ?thesis
  proof (cases sel)
    case CtxDone
    with assms(1) have "flush D fe w2 s = (ev, w', s')" "ch' = []"
      by (auto simp: run_turn_def drain_def w2_def split: if_splits prod.splits)
    with flushed(2) show ?thesis by simp
  next
    case Receive
    then obtain e where ch: "ch = e # ch'"
      using assms(1) by (auto simp: run_turn_def Let_def split: if_splits prod.splits list.splits)
    show ?thesis
    proof (cases "usageBatchSize \<le> length (uw_buf w1)")
      case True
      then have "flush D fe w1 s = (ev, w', s')"
        using assms(1) Receive ch by (auto simp: run_turn_def Let_def w1_def split: prod.splits)
      from flushed(1) [OF this] ch assms(2) show ?thesis by auto
    next
      case False
      then have "w' = w1" "s' = s"
        using assms(1) Receive ch by (auto simp: run_turn_def Let_def w1_def)
      with ch assms(2,3) q(1) show ?thesis by auto
    qed
  next
    case Ticker
    with assms show ?thesis using flushed(3)
      by (auto simp: run_turn_def split: if_splits prod.splits)
  qed
qed

section \<open>The interface\<close>

text \<open>Everything in the pipeline has the property, and every log is an old one or records such an entry.\<close>

definition pending :: "('c, 'w) server \<Rightarrow> usageEntry list" where
  "pending S = uw_retryBuf (sv_writer S) @ uw_buf (sv_writer S) @ gw_ch (sv_gate S)"

definition accounted :: "(usageEntry \<Rightarrow> bool) \<Rightarrow> ('c, 'w) server \<Rightarrow> ('c, 'w) server \<Rightarrow> bool" where
  "accounted Q S0 S \<longleftrightarrow>
     (\<forall>e\<in>set (pending S). Q e) \<and> recorded Q (set (usage_logs (gw_db (sv_gate S0)))) (gw_db (sv_gate S))"

locale usage_history =
  fixes P :: "('c, 'w) program" and S0 :: "('c, 'w) server" and Q :: "event list \<Rightarrow> usageEntry \<Rightarrow> bool"
  assumes keeps: "Q evs e \<Longrightarrow> Q (ev # evs) e"
    and reported: "server_run P S0 evs t S \<Longrightarrow> reports P E r S e \<Longrightarrow> Q (Served E r # evs) e"
begin

lemma mono: "accounted (Q evs) S0 S \<Longrightarrow> accounted (Q (ev # evs)) S0 S"
  unfolding accounted_def recorded_def using keeps by blast

lemma step:
  assumes "server_run P S0 evs t S" "server_step P ev S S'" "accounted (Q evs) S0 S"
  shows "accounted (Q (ev # evs)) S0 S'"
proof -
  have a: "accounted (Q (ev # evs)) S0 S" by (rule mono [OF assms(3)])
  from assms(2) show ?thesis
  proof (cases rule: server_step.cases)
    case (request E r)
    then have "sv_writer S' = sv_writer S"
      by (auto simp: serve_def serve_proxy_def serve_api_def serve_ui_def Let_def split: target.splits prod.splits)
    moreover have "\<forall>e\<in>set (gw_ch (sv_gate S')). e \<in> set (gw_ch (sv_gate S)) \<or> Q (ev # evs) e"
      using serve_reports [of P E r S]
    proof (elim disjE exE)
      fix e
      assume r: "reports P E r S e"
      from reported [OF assms(1) r] r show ?thesis by (simp add: request reports_def)
    qed (simp add: request)
    ultimately have "\<forall>e\<in>set (pending S'). Q (ev # evs) e"
      using a unfolding accounted_def pending_def by simp blast
    with a serve_logs [of P E r S] show ?thesis by (auto simp: accounted_def recorded_def request)
  next
    case (writer_turn fe sel ev' ch w s go)
    from turn_recorded [OF writer_turn(5), of "Q (ev # evs)"] a show ?thesis by (auto simp: accounted_def pending_def writer_turn)
  qed (use a in \<open>auto simp: accounted_def pending_def update_gate_state_def recorded_def dbCleanup_def
        DeleteExpiredStickySessions_def\<close>)
qed

lemma run: "server_run P S0 evs t S \<Longrightarrow> pending S0 = [] \<Longrightarrow> accounted (Q evs) S0 S"
proof (induction rule: server_run.induct)
  case (init t)
  then show ?case by (simp add: accounted_def recorded_def)
qed (blast intro: step)

end

section \<open>The origin of the entries\<close>

interpretation origin: usage_history P S0
  "\<lambda>evs e. \<exists>later E r earlier t S. evs = later @ Served E r # earlier \<and> server_run P S0 earlier t S \<and> reports P E r S e" for P S0
proof unfold_locales
  fix evs e ev
  assume "\<exists>later E r earlier t S. evs = later @ Served E r # earlier \<and> server_run P S0 earlier t S \<and> reports P E r S e"
  then obtain later E r earlier t S where "ev # evs = (ev # later) @ Served E r # earlier" "server_run P S0 earlier t S" "reports P E r S e"
    by auto
  then show "\<exists>later E r earlier t S. ev # evs = later @ Served E r # earlier \<and> server_run P S0 earlier t S \<and> reports P E r S e"
    by blast
qed blast

lemma main_start_pending: "main_start D K W noItems noSessions X = Inr (P, S0) \<Longrightarrow> pending S0 = []"
  by (erule main_start_InrD) (simp add: pending_def NewUsageWriter_def)

end
