(* ===== verification/End_To_End.thy ===== *)
theory End_To_End
  imports Usage_Provenance Sse_Properties Server_Tokens
begin

text \<open>
  The way of one request's usage through the whole program: the proxy in front of the mock upstreams of
  testutil/testutil.go, the channel, the writer and the database.
\<close>

section \<open>Answers that deliver what a handler writes\<close>

text \<open>
  The network delivers the status, the header values the handler sets, and the bytes it writes, cut
  anywhere; nothing is said of the other header lines, but that no \<open>Connection\<close> header comes along.
\<close>

definition delivers :: "written_response \<Rightarrow> http_response \<Rightarrow> bool" where
  "delivers W resp \<longleftrightarrow> rs_status resp = wr_status W \<and> rs_header resp ''Connection'' = [] \<and>
     (\<forall>(k, v)\<in>set (wr_header W). rs_header resp k = [v]) \<and>
     ReadAll (body_reads (rs_body resp)) = Some (concat (wr_writes W))"

lemma removeHop_Content_Type:
  assumes "h ''Connection'' = []"
  shows "Header_Get (removeHopByHopHeaders h) ''Content-Type'' = Header_Get h ''Content-Type''"
proof -
  have "''Content-Type'' \<notin> canonical_key ` set hopHeaders" by code_simp
  moreover have "connection_names h = []" using assms by (simp add: connection_names_def)
  ultimately show ?thesis
    by (simp only: removeHopByHopHeaders_def fold_Header_Del Header_Get_def canon_Content_Type list.set image_empty empty_iff if_False)
qed

lemma read_to_end:
  "ReadAll rs = Some b \<Longrightarrow> length rs \<le> n \<Longrightarrow> until_eof (copy_reads n rs) = Some b"
proof (induction n rs arbitrary: b rule: copy_reads.induct)
  case (3 n d e rs)
  then show ?case by (cases e) (auto split: read_err.splits)
qed simp_all

definition mock_usage :: UsageData where
  "mock_usage = \<lparr>ud_InputTokens = 25, ud_OutputTokens = 15, ud_CacheCreationInputTokens = 0,
     ud_CacheReadInputTokens = 0, ud_Model = ''claude-sonnet-4-20250514''\<rparr>"

lemma mock_json_usage: "extractJSONUsage mock_json_body = mock_usage"
  by code_simp

lemma mock_stream_usage: "stream_usage (BuildSSEResponse (StandardSSEEvents 25 15)) = mock_usage"
  by (simp add: standard_usage mock_usage_def fits64_def int64_min_def int64_max_def)

lemma mock_reported:
  assumes "W \<in> {NewMockUpstream, NewMockUpstreamJSON}" "delivers W resp"
    and "length (body_reads (rs_body resp)) \<le> ex_client x"
  shows "rs_status resp = 200" "reported_usage x resp = Some mock_usage" "\<not> upstream_failed (Inr resp)"
proof -
  show st: "rs_status resp = 200"
    using assms(1,2) by (auto simp: delivers_def NewMockUpstream_def NewMockUpstreamJSON_def)
  have ct: "Header_Get (removeHopByHopHeaders (rs_header resp)) ''Content-Type'' = Header_Get (rs_header resp) ''Content-Type''"
    using assms(2) by (simp add: removeHop_Content_Type delivers_def)
  have p: "HasPrefix ''text/event-stream'' ''text/event-stream''" "\<not> HasPrefix ''application/json'' ''text/event-stream''"
    "HasPrefix ''application/json'' ''application/json''" by code_simp+
  have all: "ReadAll (body_reads (rs_body resp)) = Some (concat (wr_writes W))" using assms(2) by (simp add: delivers_def)
  from all have "\<not> (json_answer resp \<and> ReadAll (body_reads (rs_body resp)) = None)" by simp
  with st show "\<not> upstream_failed (Inr resp)" by (simp add: upstream_failed_def)
  from assms(1) consider (sse) "W = NewMockUpstream" | (json) "W = NewMockUpstreamJSON" by blast
  then show "reported_usage x resp = Some mock_usage"
  proof cases
    case sse
    with assms(2) have "Header_Get (rs_header resp) ''Content-Type'' = ''text/event-stream''"
      by (simp add: delivers_def NewMockUpstream_def Header_Get_def)
    then have "stream_answer resp" by (simp add: stream_answer_def ct p)
    with read_to_end [OF all assms(3)] show ?thesis
      by (simp add: reported_usage_def sse mock_body mock_stream_usage)
  next
    case json
    with assms(2) have h: "Header_Get (rs_header resp) ''Content-Type'' = ''application/json''"
      by (simp add: delivers_def NewMockUpstreamJSON_def Header_Get_def)
    have "\<not> stream_answer resp" unfolding stream_answer_def ct h by (rule p)
    moreover have "json_answer resp" unfolding json_answer_def Let_def ct h using p st by simp
    moreover have "concat (wr_writes W) = mock_json_body" by (simp add: json NewMockUpstreamJSON_def)
    ultimately show ?thesis using all by (simp add: reported_usage_def mock_json_usage)
  qed
qed

section \<open>From the request to the database\<close>

lemma serve_mock:
  assumes "dispatch (rq_method r) (rq_escapedPath r) = ToProxy" "presented_token r = Some tok"
    and "GetGateTokenByToken (pg_driver P) (ex_auth (en_exchange E)) tok (gw_db (sv_gate S)) = Inr gt" "gt_IsActive gt"
    and "pool_sized (mg_pool (gw_mgr (sv_gate S)))" "pl_tokens (mg_pool (gw_mgr (sv_gate S))) \<noteq> []"
    and "\<And>q. ex_upstream (en_exchange E) q = Inr resp"
    and "W \<in> {NewMockUpstream, NewMockUpstreamJSON}" "delivers W resp" "length (body_reads (rs_body resp)) \<le> ex_client (en_exchange E)"
    and "gw_ch (sv_gate S) = []"
  obtains t S1 where "t \<in> set (pl_tokens (mg_pool (gw_mgr (sv_gate S))))" "snd (serve P E r S) = S1"
    "gw_ch (sv_gate S1) = [usage_entry (gt_ID gt) (rt_ID t) mock_usage (rq_path r) 200]"
    "sv_writer S1 = sv_writer S" "sv_running S1 = sv_running S" "sv_cancelled S1 = sv_cancelled S"
    "real_tokens (gw_db (sv_gate S1)) = real_tokens (gw_db (sv_gate S))"
    "gate_tokens (gw_db (sv_gate S1)) = gate_tokens (gw_db (sv_gate S))"
    "usage_logs (gw_db (sv_gate S1)) = usage_logs (gw_db (sv_gate S))"
proof -
  let ?D = "pg_driver P" and ?x = "en_exchange E" and ?G = "sv_gate S"
  obtain t s m rep G' where t: "t \<in> set (pl_tokens (mg_pool (gw_mgr ?G)))"
    and res: "ResolveToken ?D (pg_cache P) (ex_resolve ?x) (gt_ID gt) (gw_db ?G) (gw_mgr ?G) = (Inr t, s, m)"
    and resp: "serve_response ?D ?x gt t (rq_path r) (Inr resp) (?G\<lparr>gw_db := s, gw_mgr := m\<rparr>) = (rep, G')"
    and http: "ServeHTTP ?D (pg_cache P) (pg_upstream P) ?x r ?G = (rep, Some (outgoing (pg_upstream P) ?x t r), G')"
    by (rule ServeHTTP_served [where D = ?D and K = "pg_cache P" and U = "pg_upstream P" and x = ?x and G = ?G, OF assms(2-6)])
      (simp only: assms(7))
  note mock = mock_reported [OF assms(8-10)]
  have "gw_ch G' = [usage_entry (gt_ID gt) (rt_ID t) mock_usage (rq_path r) 200]"
    using serve_response_answer(2) [OF resp] mock(1,2) assms(11) by (simp add: sendUsage_def usageChannelSize_def)
  moreover have "gw_db G' = s" using serve_response_state(1) [OF resp] mock(3) by simp
  moreover have "snd (serve P E r S) = S\<lparr>sv_gate := G'\<rparr>" using http assms(1) by (simp add: serve_def serve_proxy_def)
  ultimately show ?thesis using t ResolveToken_frame(1-3) [OF res] by (intro that [of t "S\<lparr>sv_gate := G'\<rparr>"]) simp_all
qed

text \<open>The writer's two turns for a single entry: it takes it from the channel, and its ticker flushes it.\<close>

lemma entry_stored:
  assumes "gw_ch (sv_gate S) = [e]" "uw_buf (sv_writer S) = []" "uw_retryBuf (sv_writer S) = []" "sv_running S" "\<not> sv_cancelled S"
    and "\<not> ctx_done (fe_call fe1)" "\<not> ctx_done (fe_call fe2)" "no_fault (fe_call fe2)"
    and "iteration_order (fe_gates fe2)" "iteration_order (fe_reals fe2)" "driver_adds (pg_driver P)"
    and "ue_GateTokenID e \<in> gate_ids (gw_db (sv_gate S))" "ue_RealTokenID e \<in> real_ids (gw_db (sv_gate S))"
    and "totals_fit (gw_db (sv_gate S)) [e]"
  obtains S2 S3 where "server_step P (WriterTurn fe1 Receive) S S2" "server_step P (WriterTurn fe2 Ticker) S2 S3"
    "map log_of_row (usage_logs (gw_db (sv_gate S3))) = map log_of_row (usage_logs (gw_db (sv_gate S))) @ [unsaved (log_of_entry e)]"
    "\<And>i g. find_gate (gw_db (sv_gate S)) i = Some g \<Longrightarrow> \<exists>g'. find_gate (gw_db (sv_gate S3)) i = Some g' \<and>
       gr_in g' = gr_in g + sum_for ue_GateTokenID ud_InputTokens i [e] \<and> gr_out g' = gr_out g + sum_for ue_GateTokenID ud_OutputTokens i [e]"
    "\<And>i r. find_real (gw_db (sv_gate S)) i = Some r \<Longrightarrow> \<exists>r'. find_real (gw_db (sv_gate S3)) i = Some r' \<and>
       rr_in r' = rr_in r + sum_for ue_RealTokenID ud_InputTokens i [e] \<and> rr_out r' = rr_out r + sum_for ue_RealTokenID ud_OutputTokens i [e]"
proof -
  define w where "w = (sv_writer S)\<lparr>uw_buf := [e]\<rparr>"
  define S2 where "S2 = S\<lparr>sv_gate := (sv_gate S)\<lparr>gw_ch := [], gw_db := gw_db (sv_gate S)\<rparr>, sv_writer := w, sv_running := True\<rparr>"
  have "run_turn (pg_driver P) fe1 Receive False (gw_ch (sv_gate S)) (sv_writer S) (gw_db (sv_gate S)) =
      Some (Nothing_to_flush, [], w, gw_db (sv_gate S), True)"
    using assms(1-3) by (simp add: run_turn_def Let_def w_def usageBatchSize_def)
  from server_step.writer_turn [OF _ _ this] assms(4-6) have step2: "server_step P (WriterTurn fe1 Receive) S S2"
    by (simp add: S2_def)
  have "uw_retryBuf w @ uw_buf w = [e]" using assms(3) by (simp add: w_def)
  from flush_stores [OF assms(8-11) this _ assms(14)] assms(12,13) obtain s3 where
    f: "flush (pg_driver P) fe2 w (gw_db (sv_gate S)) = (Flushed [e], NewUsageWriter, s3)"
    "map log_of_row (usage_logs s3) = map log_of_row (usage_logs (gw_db (sv_gate S))) @ map (unsaved \<circ> log_of_entry) [e]"
    "\<forall>i g. find_gate (gw_db (sv_gate S)) i = Some g \<longrightarrow> (\<exists>g'. find_gate s3 i = Some g' \<and>
       gr_in g' = gr_in g + sum_for ue_GateTokenID ud_InputTokens i [e] \<and> gr_out g' = gr_out g + sum_for ue_GateTokenID ud_OutputTokens i [e])"
    "\<forall>i r. find_real (gw_db (sv_gate S)) i = Some r \<longrightarrow> (\<exists>r'. find_real s3 i = Some r' \<and>
       rr_in r' = rr_in r + sum_for ue_RealTokenID ud_InputTokens i [e] \<and> rr_out r' = rr_out r + sum_for ue_RealTokenID ud_OutputTokens i [e])"
    by auto
  define S3 where "S3 = S2\<lparr>sv_gate := (sv_gate S2)\<lparr>gw_ch := [], gw_db := s3\<rparr>, sv_writer := NewUsageWriter, sv_running := True\<rparr>"
  have "run_turn (pg_driver P) fe2 Ticker False (gw_ch (sv_gate S2)) (sv_writer S2) (gw_db (sv_gate S2)) =
      Some (Flushed [e], [], NewUsageWriter, s3, True)"
    using f(1) by (simp add: run_turn_def S2_def w_def)
  from server_step.writer_turn [OF _ _ this] assms(5,7) have "server_step P (WriterTurn fe2 Ticker) S2 S3"
    by (simp add: S2_def S3_def)
  with step2 f(2-4) that [of S2 S3] show ?thesis by (simp add: S3_def)
qed

text \<open>
  C11: A request's usage arrives in the database.  The program is running with nothing pending, and a client
  with an active gate token sends a request; the upstream is one of the two mock servers of the tests.  When
  the writer then takes its entry and its ticker fires, and the database works, the table of usage logs has
  exactly one more row, with this gate token, a real token of the pool, the path, the status
  200 and 25 input and 15 output tokens, and the totals of both tokens have grown by 25 and 15.
\<close>
theorem mock_usage_stored:
  assumes "dispatch (rq_method r) (rq_escapedPath r) = ToProxy" "presented_token r = Some tok"
    and "GetGateTokenByToken (pg_driver P) (ex_auth (en_exchange E)) tok (gw_db (sv_gate S)) = Inr gt" "gt_IsActive gt"
    and "pool_sized (mg_pool (gw_mgr (sv_gate S)))" "pl_tokens (mg_pool (gw_mgr (sv_gate S))) \<noteq> []"
    and "\<forall>t\<in>set (pl_tokens (mg_pool (gw_mgr (sv_gate S)))). rt_ID t \<in> real_ids (gw_db (sv_gate S)) \<and>
      totals_fit (gw_db (sv_gate S)) [usage_entry (gt_ID gt) (rt_ID t) mock_usage (rq_path r) 200]"
    and "\<And>q. ex_upstream (en_exchange E) q = Inr resp"
    and "W \<in> {NewMockUpstream, NewMockUpstreamJSON}" "delivers W resp" "length (body_reads (rs_body resp)) \<le> ex_client (en_exchange E)"
    and "pending S = []" "sv_running S" "\<not> sv_cancelled S"
    and "\<not> ctx_done (fe_call fe1)" "\<not> ctx_done (fe_call fe2)" "no_fault (fe_call fe2)"
    and "iteration_order (fe_gates fe2)" "iteration_order (fe_reals fe2)" "driver_adds (pg_driver P)"
  shows "\<exists>t\<in>set (pl_tokens (mg_pool (gw_mgr (sv_gate S)))). \<exists>S1 S2 S3.
    server_step P (Served E r) S S1 \<and> server_step P (WriterTurn fe1 Receive) S1 S2 \<and> server_step P (WriterTurn fe2 Ticker) S2 S3 \<and>
    map log_of_row (usage_logs (gw_db (sv_gate S3))) = map log_of_row (usage_logs (gw_db (sv_gate S))) @
      [\<lparr>ul_ID = 0, ul_GateTokenID = gt_ID gt, ul_RealTokenID = rt_ID t, ul_Model = ''claude-sonnet-4-20250514'',
        ul_InputTokens = 25, ul_OutputTokens = 15, ul_CacheCreationInputTokens = 0, ul_CacheReadInputTokens = 0,
        ul_RequestPath = rq_path r, ul_StatusCode = 200, ul_CreatedAt = zero_time\<rparr>] \<and>
    (\<forall>g. find_gate (gw_db (sv_gate S)) (gt_ID gt) = Some g \<longrightarrow>
       (\<exists>g'. find_gate (gw_db (sv_gate S3)) (gt_ID gt) = Some g' \<and> gr_in g' = gr_in g + 25 \<and> gr_out g' = gr_out g + 15)) \<and>
    (\<forall>u. find_real (gw_db (sv_gate S)) (rt_ID t) = Some u \<longrightarrow>
       (\<exists>u'. find_real (gw_db (sv_gate S3)) (rt_ID t) = Some u' \<and> rr_in u' = rr_in u + 25 \<and> rr_out u' = rr_out u + 15))"
proof -
  let ?s = "gw_db (sv_gate S)"
  have idle: "gw_ch (sv_gate S) = []" "uw_buf (sv_writer S) = []" "uw_retryBuf (sv_writer S) = []"
    using assms(12) by (simp_all add: pending_def)
  obtain t S1 where t: "t \<in> set (pl_tokens (mg_pool (gw_mgr (sv_gate S))))" and S1: "snd (serve P E r S) = S1"
    "gw_ch (sv_gate S1) = [usage_entry (gt_ID gt) (rt_ID t) mock_usage (rq_path r) 200]"
    "sv_writer S1 = sv_writer S" "sv_running S1 = sv_running S" "sv_cancelled S1 = sv_cancelled S"
    "real_tokens (gw_db (sv_gate S1)) = real_tokens ?s" "gate_tokens (gw_db (sv_gate S1)) = gate_tokens ?s"
    "usage_logs (gw_db (sv_gate S1)) = usage_logs ?s"
    by (rule serve_mock [OF assms(1-6,8-11) idle(1)])
  define e where "e = usage_entry (gt_ID gt) (rt_ID t) mock_usage (rq_path r) 200"
  have e: "ue_GateTokenID e = gt_ID gt" "ue_RealTokenID e = rt_ID t" "ue_Usage e = mock_usage"
    "unsaved (log_of_entry e) = \<lparr>ul_ID = 0, ul_GateTokenID = gt_ID gt, ul_RealTokenID = rt_ID t,
        ul_Model = ''claude-sonnet-4-20250514'', ul_InputTokens = 25, ul_OutputTokens = 15, ul_CacheCreationInputTokens = 0,
        ul_CacheReadInputTokens = 0, ul_RequestPath = rq_path r, ul_StatusCode = 200, ul_CreatedAt = zero_time\<rparr>"
    by (simp_all add: e_def usage_entry_def mock_usage_def unsaved_def log_of_entry_def)
  have step1: "server_step P (Served E r) S S1" using server_step.request [of P E r S] S1(1) by simp
  have "gt_ID gt \<in> gr_id ` set (gate_tokens ?s)"
    by (rule GetGateTokenByToken_row [OF assms(3)]) (metis image_eqI)
  then have ids: "ue_GateTokenID e \<in> gate_ids (gw_db (sv_gate S1))" "ue_RealTokenID e \<in> real_ids (gw_db (sv_gate S1))"
    using t assms(7) S1(6,7) by (simp_all add: e(1,2) gate_ids_def real_ids_def)
  have fit: "totals_fit (gw_db (sv_gate S1)) [e]" using t assms(7) S1(6,7) by (simp add: totals_fit_def e_def)
  obtain S2 S3 where step: "server_step P (WriterTurn fe1 Receive) S1 S2" "server_step P (WriterTurn fe2 Ticker) S2 S3"
    and logs: "map log_of_row (usage_logs (gw_db (sv_gate S3))) = map log_of_row (usage_logs (gw_db (sv_gate S1))) @ [unsaved (log_of_entry e)]"
    and totals: "\<And>i g. find_gate (gw_db (sv_gate S1)) i = Some g \<Longrightarrow> \<exists>g'. find_gate (gw_db (sv_gate S3)) i = Some g' \<and>
       gr_in g' = gr_in g + sum_for ue_GateTokenID ud_InputTokens i [e] \<and> gr_out g' = gr_out g + sum_for ue_GateTokenID ud_OutputTokens i [e]"
    "\<And>i r. find_real (gw_db (sv_gate S1)) i = Some r \<Longrightarrow> \<exists>r'. find_real (gw_db (sv_gate S3)) i = Some r' \<and>
       rr_in r' = rr_in r + sum_for ue_RealTokenID ud_InputTokens i [e] \<and> rr_out r' = rr_out r + sum_for ue_RealTokenID ud_OutputTokens i [e]"
    by (rule entry_stored [OF S1(2) [folded e_def] _ _ _ _ assms(15-20) ids fit, unfolded S1(3-5)]) (use idle assms(13,14) in simp_all)
  have find: "find_gate (gw_db (sv_gate S1)) i = find_gate ?s i" "find_real (gw_db (sv_gate S1)) i = find_real ?s i" for i
    using S1(6,7) by (simp_all add: find_gate_def find_real_def)
  have sums: "sum_for ue_GateTokenID ud_InputTokens (gt_ID gt) [e] = 25" "sum_for ue_GateTokenID ud_OutputTokens (gt_ID gt) [e] = 15"
    "sum_for ue_RealTokenID ud_InputTokens (rt_ID t) [e] = 25" "sum_for ue_RealTokenID ud_OutputTokens (rt_ID t) [e] = 15"
    by (simp_all add: sum_for_def e(1-3), simp_all add: mock_usage_def)
  show ?thesis
    using t step1 step logs [unfolded S1(8) e(4)] totals(1) [of "gt_ID gt", unfolded find sums] totals(2) [of "rt_ID t", unfolded find sums]
    by blast
qed

definition mock_answer :: http_response where
  "mock_answer = sample_response 200 ''application/json'' [(mock_json_body, Some EOF)]"

definition mock_env :: request_env where
  "mock_env = (sample_env 5)\<lparr>en_exchange := sample_exchange (Inr mock_answer)\<rparr>"

lemma calm_facts:
  "\<not> ctx_done (fe_call calm)" "no_fault (fe_call calm)" "iteration_order (fe_gates calm)" "iteration_order (fe_reals calm)"
  by (simp add: calm_def call_at_def, simp_all add: calm_def iteration_order_def)

lemma sample_mock_facts:
  "GetGateTokenByToken text_driver (ex_auth (en_exchange mock_env)) ''gate-g'' sample_db = Inr sample_gt"
  "gt_IsActive sample_gt"
  "\<And>q. ex_upstream (en_exchange mock_env) q = Inr mock_answer"
  "NewMockUpstreamJSON \<in> {NewMockUpstream, NewMockUpstreamJSON}" "delivers NewMockUpstreamJSON mock_answer"
  "length (body_reads (rs_body mock_answer)) \<le> ex_client (en_exchange mock_env)"
  "t \<in> {''a'', ''b''} \<Longrightarrow> totals_fit sample_db [usage_entry (gt_ID sample_gt) t mock_usage path 200]"
proof -
  show "GetGateTokenByToken text_driver (ex_auth (en_exchange mock_env)) ''gate-g'' sample_db = Inr sample_gt"
    by (simp add: mock_env_def sample_exchange_def GetGateTokenByToken_def query_row_def
        sample_db_def sample_gate_def scanGateToken_def sample_gt_def)
  show "totals_fit sample_db [usage_entry (gt_ID sample_gt) t mock_usage path 200]" if "t \<in> {''a'', ''b''}"
    using that by (auto simp: totals_fit_def rows_fit_def entry_fits_def sum_for_def sample_db_def empty_db_def sample_gt_def
        usage_entry_def mock_usage_def sample_real_def sample_gate_def fits64_def int64_min_def int64_max_def)
qed (simp_all add: delivers_def NewMockUpstreamJSON_def mock_answer_def sample_response_def body_reads_def mock_env_def
    sample_exchange_def sample_gt_def)

theorem mock_usage_stored_witness:
  "\<exists>t\<in>{sample_token ''a'', sample_token ''b''}. \<exists>S1 S2 S3. server_step sample_program (Served mock_env (present ''gate-g'')) sample_server S1 \<and>
     server_step sample_program (WriterTurn calm Receive) S1 S2 \<and> server_step sample_program (WriterTurn calm Ticker) S2 S3 \<and>
     (\<exists>g'. find_gate (gw_db (sv_gate S3)) ''g'' = Some g' \<and> gr_in g' = 25 \<and> gr_out g' = 15)"
proof -
  let ?S = sample_server and ?P = sample_program and ?E = mock_env and ?r = "present ''gate-g''"
  have pool: "mg_pool (gw_mgr (sv_gate ?S)) = sample_pool" "gw_db (sv_gate ?S) = sample_db"
    by (simp_all add: sample_server_def sample_gateway_def sample_manager_def NewManager_def)
  have P: "pg_driver ?P = text_driver" by (simp add: sample_program_def)
  have look: "GetGateTokenByToken (pg_driver ?P) (ex_auth (en_exchange ?E)) ''gate-g'' (gw_db (sv_gate ?S)) = Inr sample_gt"
    unfolding pool P by (rule sample_mock_facts)
  have sized: "pool_sized (mg_pool (gw_mgr (sv_gate ?S)))" "pl_tokens (mg_pool (gw_mgr (sv_gate ?S))) \<noteq> []"
    unfolding pool by (simp_all add: sample_pool_def pool_sized_def)
  have toks: "pl_tokens (mg_pool (gw_mgr (sv_gate ?S))) = [sample_token ''a'', sample_token ''b'']"
    unfolding pool by (simp add: sample_pool_def)
  have ids: "real_ids sample_db = {''a'', ''b''}"
    by (auto simp: sample_db_def empty_db_def real_ids_def sample_real_def)
  have fit: "\<forall>t\<in>set (pl_tokens (mg_pool (gw_mgr (sv_gate ?S)))). rt_ID t \<in> real_ids (gw_db (sv_gate ?S)) \<and>
      totals_fit (gw_db (sv_gate ?S)) [usage_entry (gt_ID sample_gt) (rt_ID t) mock_usage (rq_path ?r) 200]"
    unfolding toks unfolding pool ids by (simp add: sample_token_def sample_mock_facts(7))
  have idle: "pending ?S = []" "sv_running ?S" "\<not> sv_cancelled ?S"
    by (simp_all add: pending_def sample_server_def sample_gateway_def NewUsageWriter_def)
  have gt: "gt_ID sample_gt = ''g''" "driver_adds (pg_driver ?P)" by (simp_all add: sample_gt_def P)
  have g: "find_gate (gw_db (sv_gate ?S)) ''g'' = Some (sample_gate ''g'')" "gr_in (sample_gate ''g'') = 0" "gr_out (sample_gate ''g'') = 0"
    unfolding pool by (simp_all add: find_gate_def sample_db_def sample_gate_def)
  from mock_usage_stored [OF present_presents(2,1) look sample_mock_facts(2) sized fit sample_mock_facts(3-6) idle calm_facts(1,1,2-4) gt(2)] g show ?thesis
    unfolding toks gt(1) by fastforce
qed

section \<open>Runs\<close>

text \<open>The same way from a start of the program, as a run.\<close>

lemma sample_mock_run:
  obtains P S0 S l where
    "main_start text_driver item_cache (item_cache :: (bool items, bool) ttlcache) (\<lambda>_. None) (\<lambda>_. None) sample_startup = Inr (P, S0)"
    "server_run P S0 [WriterTurn calm Ticker, WriterTurn calm Receive, Served mock_env (present ''gate-g'')] 5 S"
    "l \<in> set (usage_logs (gw_db (sv_gate S)))" "usage_logs (gw_db (sv_gate S0)) = []" "ur_in l = 25" "ur_out l = 15"
proof -
  obtain P S0 where st:
    "main_start text_driver item_cache (item_cache :: (bool items, bool) ttlcache) (\<lambda>_. None) (\<lambda>_. None) sample_startup = Inr (P, S0)"
    "pg_driver P = text_driver" "gw_db (sv_gate S0) = sample_db" "pool_sized (mg_pool (gw_mgr (sv_gate S0)))"
    "map rt_ID (pl_tokens (mg_pool (gw_mgr (sv_gate S0)))) = [''a'', ''b'']"
    "sv_writer S0 = NewUsageWriter" "sv_running S0" "\<not> sv_cancelled S0" "gw_ch (sv_gate S0) = []"
    by (rule sample_started)
  note sample = sample_mock_facts
  have look: "GetGateTokenByToken (pg_driver P) (ex_auth (en_exchange mock_env)) ''gate-g'' (gw_db (sv_gate S0)) = Inr sample_gt"
    using sample(1) by (simp add: st(2,3))
  have pool: "pl_tokens (mg_pool (gw_mgr (sv_gate S0))) \<noteq> []" using st(5) by auto
  obtain t S1 where t: "t \<in> set (pl_tokens (mg_pool (gw_mgr (sv_gate S0))))" and S1: "snd (serve P mock_env (present ''gate-g'') S0) = S1"
    "gw_ch (sv_gate S1) = [usage_entry (gt_ID sample_gt) (rt_ID t) mock_usage (rq_path (present ''gate-g'')) 200]"
    "sv_writer S1 = sv_writer S0" "sv_running S1 = sv_running S0" "sv_cancelled S1 = sv_cancelled S0"
    "real_tokens (gw_db (sv_gate S1)) = real_tokens (gw_db (sv_gate S0))" "gate_tokens (gw_db (sv_gate S1)) = gate_tokens (gw_db (sv_gate S0))"
    "usage_logs (gw_db (sv_gate S1)) = usage_logs (gw_db (sv_gate S0))"
    by (rule serve_mock [OF present_presents(2,1) look sample(2) st(4) pool sample(3-6) st(9)])
  have "rt_ID t \<in> {''a'', ''b''}" using t st(5) by (metis (no_types) image_eqI list.set(1,2) list.set_map)
  then have ids: "ue_GateTokenID e \<in> gate_ids (gw_db (sv_gate S1))" "ue_RealTokenID e \<in> real_ids (gw_db (sv_gate S1))"
    "totals_fit (gw_db (sv_gate S1)) [e]" if "e = usage_entry (gt_ID sample_gt) (rt_ID t) mock_usage (rq_path (present ''gate-g'')) 200" for e
    using S1(6,7) sample(7) unfolding that st(3)
    by (auto simp: usage_entry_def gate_ids_def real_ids_def totals_fit_def sample_gt_def sample_db_def sample_gate_def sample_real_def)
  have adds: "driver_adds (pg_driver P)" by (simp add: st(2))
  obtain S2 S3 where step: "server_step P (WriterTurn calm Receive) S1 S2" "server_step P (WriterTurn calm Ticker) S2 S3"
    and logs: "map log_of_row (usage_logs (gw_db (sv_gate S3))) = map log_of_row (usage_logs (gw_db (sv_gate S1))) @
      [unsaved (log_of_entry (usage_entry (gt_ID sample_gt) (rt_ID t) mock_usage (rq_path (present ''gate-g'')) 200))]"
    by (rule entry_stored [OF S1(2) _ _ _ _ calm_facts(1,1,2-4) adds ids [OF refl]])
      (use S1(3-5) st(2,6-8) in \<open>simp_all add: NewUsageWriter_def\<close>)
  have old: "usage_logs (gw_db (sv_gate S0)) = []" by (simp add: st(3) sample_db_def empty_db_def)
  with logs S1(8) obtain l where l: "l \<in> set (usage_logs (gw_db (sv_gate S3)))" "ur_in l = 25" "ur_out l = 15"
    by (cases "usage_logs (gw_db (sv_gate S3))") (auto simp: log_of_row_def unsaved_def log_of_entry_def usage_entry_def mock_usage_def)
  have at: "event_time (Served mock_env (present ''gate-g'')) = Some 0"
    by (simp only: event_time.simps present_presents(2) target.case) (simp add: mock_env_def sample_exchange_def)
  have "server_step P (Served mock_env (present ''gate-g'')) S0 S1"
    using server_step.request [of P mock_env "present ''gate-g''" S0] unfolding S1(1) .
  then have first: "server_run P S0 [Served mock_env (present ''gate-g'')] 0 S1"
    by (rule server_run.step [OF server_run.init [of P S0 0]]) (simp_all only: at option.inject order.refl simp_thms)
  have turn: "event_time (WriterTurn calm sel) = Some 5" for sel by (simp add: calm_def)
  from first have "server_run P S0 [WriterTurn calm Receive, Served mock_env (present ''gate-g'')] 5 S2"
    by (rule server_run.step [OF _ step(1)]) (simp_all only: turn option.inject simp_thms zero_le_numeral)
  then have "server_run P S0 [WriterTurn calm Ticker, WriterTurn calm Receive, Served mock_env (present ''gate-g'')] 5 S3"
    by (rule server_run.step [OF _ step(2)]) (simp_all only: turn option.inject order.refl simp_thms)
  with st(1) l old that show ?thesis by blast
qed

text \<open>
  C12: Every usage log comes from a request.  However the program runs from its start, a usage log that was
  not there at the start records an entry that one of the requests has sent: a proxy request that
  presented the token of the log's active gate token, was given the log's real token, and whose upstream answered
  with the log's status and exactly the usage that is logged.
\<close>
theorem usage_logs_come_from_requests:
  assumes "main_start D K W noItems noSessions X = Inr (P, S0)" "server_run P S0 evs t S"
    and "l \<in> set (usage_logs (gw_db (sv_gate S)))" "l \<notin> set (usage_logs (gw_db (sv_gate S0)))"
  shows "\<exists>later E r earlier t' S' e. evs = later @ Served E r # earlier \<and> server_run P S0 earlier t' S' \<and>
    reports P E r S' e \<and> log_of_row l = unsaved (log_of_entry e)"
  using origin.run [OF assms(2) main_start_pending [OF assms(1)]] assms(3,4)
  unfolding accounted_def recorded_def by blast

theorem usage_logs_come_from_requests_witness:
  "\<exists>(P :: (string items, bool items) program) S e. reports P mock_env (present ''gate-g'') S e \<and> ud_InputTokens (ue_Usage e) = 25"
proof -
  obtain P S0 S l where run:
    "main_start text_driver item_cache (item_cache :: (bool items, bool) ttlcache) (\<lambda>_. None) (\<lambda>_. None) sample_startup = Inr (P, S0)"
    "server_run P S0 [WriterTurn calm Ticker, WriterTurn calm Receive, Served mock_env (present ''gate-g'')] 5 S"
    "l \<in> set (usage_logs (gw_db (sv_gate S)))" "usage_logs (gw_db (sv_gate S0)) = []" "ur_in l = 25"
    by (rule sample_mock_run)
  then have "l \<notin> set (usage_logs (gw_db (sv_gate S0)))" by simp
  from usage_logs_come_from_requests [OF run(1-3) this] obtain later E r earlier t' S' e where
    h: "[WriterTurn calm Ticker, WriterTurn calm Receive, Served mock_env (present ''gate-g'')] = later @ Served E r # earlier"
    "reports P E r S' e" "log_of_row l = unsaved (log_of_entry e)" by blast
  from h(1) have "E = mock_env" "r = present ''gate-g''" by (auto simp: Cons_eq_append_conv)
  with h(2,3) run(5) show ?thesis
    by (intro exI [of _ P] exI [of _ S'] exI [of _ e]) (simp add: log_of_row_def unsaved_def log_of_entry_def)
qed

end
