(* ===== verification/Pool_Refresh.thy ===== *)
theory Pool_Refresh
  imports Server_Pool
begin

text \<open>
  \<open>Refresh\<close> of internal/token/pool.go at the grain of its lock: the timer's goroutine reads the tokens from
  the database without a lock and puts them into the pool later, under the lock.  \<open>Server\<close> has the same three
  parts among the steps of the running program; here they stand alone, with the changes of the tokens.
\<close>

section \<open>Steps\<close>

text \<open>
  \<open>rf_fired\<close> counts the refreshes that have started and not read yet, \<open>rf_reads\<close> holds what the others have
  read and not yet put into the pool.
\<close>

record 'c refreshing =
  rf_db :: db
  rf_mgr :: "'c manager"
  rf_fired :: nat
  rf_reads :: "RealToken list list"

definition fire :: "'c refreshing \<Rightarrow> 'c refreshing" where
  "fire st = st\<lparr>rf_mgr := (rf_mgr st)\<lparr>mg_refreshAt := None\<rparr>, rf_fired := rf_fired st + 1\<rparr>"

definition in_flight :: "'c refreshing \<Rightarrow> nat" where
  "in_flight st = rf_fired st + length (rf_reads st)"

datatype refresh_event =
    Changed db int
  | Fired callenv
  | ReadTokens callenv
  | Installed

text \<open>
  A change is an operation that changes the real tokens and then calls \<open>RefreshPool\<close>.  Stopping the timer
  does not wait for a refresh that it has already started.
\<close>

inductive refresh_step :: "driver \<Rightarrow> refresh_event \<Rightarrow> 'c refreshing \<Rightarrow> 'c refreshing \<Rightarrow> bool" for D where
  change: "refresh_step D (Changed s t) st (st\<lparr>rf_db := s, rf_mgr := RefreshPool t (rf_mgr st)\<rparr>)"
| fired: "refresh_due (clock c) (rf_mgr st) \<Longrightarrow> refresh_step D (Fired c) st (fire st)"
| reads: "0 < rf_fired st \<Longrightarrow>
    ListActiveRealTokens D c (pl_maxFailures (mg_pool (rf_mgr st))) (rf_db st) = Inr ts \<Longrightarrow>
    refresh_step D (ReadTokens c) st (st\<lparr>rf_fired := rf_fired st - 1, rf_reads := rf_reads st @ [ts]\<rparr>)"
| fails: "0 < rf_fired st \<Longrightarrow>
    ListActiveRealTokens D c (pl_maxFailures (mg_pool (rf_mgr st))) (rf_db st) = Inl e \<Longrightarrow>
    refresh_step D (ReadTokens c) st (st\<lparr>rf_fired := rf_fired st - 1\<rparr>)"
| installs: "rf_reads st = xs @ ts # ys \<Longrightarrow>
    refresh_step D Installed st (st\<lparr>rf_mgr := install ts (rf_mgr st), rf_reads := xs @ ys\<rparr>)"

inductive_cases refresh_stepE: "refresh_step D ev st st'"

inductive refresh_run :: "driver \<Rightarrow> 'c refreshing \<Rightarrow> refresh_event list \<Rightarrow> 'c refreshing \<Rightarrow> bool" for D st0 where
  start: "refresh_run D st0 [] st0"
| step: "refresh_run D st0 evs st \<Longrightarrow> refresh_step D ev st st' \<Longrightarrow> refresh_run D st0 (ev # evs) st'"

text \<open>Nothing is scheduled and nothing is on its way.\<close>

definition settled :: "'c refreshing \<Rightarrow> bool" where
  "settled st \<longleftrightarrow> mg_refreshAt (rf_mgr st) = None \<and> in_flight st = 0"

definition up_to_date :: "driver \<Rightarrow> 'c refreshing \<Rightarrow> bool" where
  "up_to_date D st \<longleftrightarrow> pool_view (mg_pool (rf_mgr st)) = active_view D (pl_maxFailures (mg_pool (rf_mgr st))) (rf_db st)"

section \<open>One refresh at a time\<close>






section \<open>Crossing refreshes\<close>

text \<open>
  C26: Refreshes can cross.  Take two changes more than 100 ms apart, after which the database says
  \<open>s1\<close> and then \<open>s2\<close>.  If the refresh for the first has read and is late to take the
  lock, the refresh for the second overtakes it: in the end nothing is scheduled and nothing is on its way, but
  the pool holds the tokens of \<open>s1\<close>, and keeps them until the next change.
\<close>
theorem refreshes_can_cross:
  assumes "no_fault c1" "no_fault c2" "rows_readable D s1" "rows_readable D s2"
    and "t1 + poolRefreshDebounce \<le> clock c1" "t2 + poolRefreshDebounce \<le> clock c2" "in_flight st0 = 0"
  shows "\<exists>st. refresh_run D st0
      [Installed, Installed, ReadTokens c2, Fired c2, Changed s2 t2, ReadTokens c1, Fired c1, Changed s1 t1] st \<and>
    settled st \<and> rf_db st = s2 \<and>
    pool_view (mg_pool (rf_mgr st)) = active_view D (pl_maxFailures (mg_pool (rf_mgr st0))) s1"
proof -
  let ?mx = "pl_maxFailures (mg_pool (rf_mgr st0))"
  have f0: "rf_fired st0 = 0" "rf_reads st0 = []" using assms(7) by (simp_all add: in_flight_def)
  obtain ts1 ts2 where ts: "ListActiveRealTokens D c1 ?mx s1 = Inr ts1" "ListActiveRealTokens D c2 ?mx s2 = Inr ts2"
    using ListActiveRealTokens_no_fault assms(1-4) unfolding rows_readable_def by blast
  define a where "a = st0\<lparr>rf_db := s1, rf_mgr := RefreshPool t1 (rf_mgr st0)\<rparr>"
  define b where "b = (fire a)\<lparr>rf_fired := 0, rf_reads := [ts1]\<rparr>"
  define c where "c = b\<lparr>rf_db := s2, rf_mgr := RefreshPool t2 (rf_mgr b)\<rparr>"
  define d where "d = (fire c)\<lparr>rf_fired := 0, rf_reads := [ts1, ts2]\<rparr>"
  define e where "e = d\<lparr>rf_mgr := install ts2 (rf_mgr d), rf_reads := [ts1]\<rparr>"
  define f where "f = e\<lparr>rf_mgr := install ts1 (rf_mgr e), rf_reads := []\<rparr>"
  have mx: "pl_maxFailures (mg_pool (rf_mgr st)) = ?mx" if "st \<in> {a, b, c, d, fire a, fire c}" for st
    using that by (auto simp: a_def b_def c_def d_def fire_def RefreshPool_def)
  have "refresh_step D (Changed s1 t1) st0 a" unfolding a_def by (rule change)
  moreover have "refresh_step D (Fired c1) a (fire a)"
    by (rule fired) (use assms(5) in \<open>simp add: a_def RefreshPool_def\<close>)
  moreover have "refresh_step D (ReadTokens c1) (fire a) b"
    using refresh_step.reads [of "fire a" D c1 ts1] ts(1) f0 mx [of "fire a"] by (simp add: b_def fire_def a_def)
  moreover have "refresh_step D (Changed s2 t2) b c" unfolding c_def by (rule change)
  moreover have "refresh_step D (Fired c2) c (fire c)"
    by (rule fired) (use assms(6) in \<open>simp add: c_def RefreshPool_def\<close>)
  moreover have "refresh_step D (ReadTokens c2) (fire c) d"
    using refresh_step.reads [of "fire c" D c2 ts2] ts(2) mx [of "fire c"] by (simp add: d_def fire_def c_def b_def)
  moreover have "refresh_step D Installed d e"
    using refresh_step.installs [of d "[ts1]" ts2 "[]" D] by (simp add: e_def d_def)
  moreover have "refresh_step D Installed e f"
    using refresh_step.installs [of e "[]" ts1 "[]" D] by (simp add: f_def e_def)
  ultimately have "refresh_run D st0
      [Installed, Installed, ReadTokens c2, Fired c2, Changed s2 t2, ReadTokens c1, Fired c1, Changed s1 t1] f"
    by (meson refresh_run.intros)
  moreover have "settled f" "rf_db f = s2"
    by (simp_all add: settled_def in_flight_def f_def e_def d_def fire_def c_def)
  moreover have "pool_view (mg_pool (rf_mgr f)) = active_view D ?mx s1"
    using ListActive_view [OF ts(1)] by (simp add: f_def)
  ultimately show ?thesis by blast
qed

text \<open>Without steps in between, the three steps are one refresh.\<close>

lemma refresh_at_once:
  assumes "refresh_due (clock c) (rf_mgr st)" "in_flight st = 0" "rows_readable D (rf_db st)" "no_fault c"
  shows "refresh_run D st [Installed, ReadTokens c, Fired c] (st\<lparr>rf_mgr := refreshFire D c (rf_db st) (rf_mgr st)\<rparr>)"
proof -
  let ?mx = "pl_maxFailures (mg_pool (rf_mgr st))"
  have f0: "rf_fired st = 0" "rf_reads st = []" using assms(2) by (simp_all add: in_flight_def)
  obtain ts where ts: "ListActiveRealTokens D c ?mx (rf_db st) = Inr ts"
    using ListActiveRealTokens_no_fault assms(3,4) unfolding rows_readable_def by blast
  define b where "b = (fire st)\<lparr>rf_fired := 0, rf_reads := [ts]\<rparr>"
  have "refresh_step D (Fired c) st (fire st)" by (rule fired [OF assms(1)])
  moreover have "refresh_step D (ReadTokens c) (fire st) b"
    using refresh_step.reads [of "fire st" D c ts] ts f0 by (simp add: b_def fire_def)
  moreover have "refresh_step D Installed b (b\<lparr>rf_mgr := install ts (rf_mgr b), rf_reads := []\<rparr>)"
    using refresh_step.installs [of b "[]" ts "[]" D] by (simp add: b_def)
  moreover have "b\<lparr>rf_mgr := install ts (rf_mgr b), rf_reads := []\<rparr> = st\<lparr>rf_mgr := refreshFire D c (rf_db st) (rf_mgr st)\<rparr>"
    using f0 ts by (simp add: b_def fire_def refresh_parts timer_fires_def)
  ultimately show ?thesis by (metis refresh_run.intros)
qed

section \<open>A sample pool\<close>

definition sample_refreshing :: "string items refreshing" where
  "sample_refreshing = \<lparr>rf_db = sample_db, rf_mgr = sample_manager, rf_fired = 0, rf_reads = []\<rparr>"

lemma sample_refreshing_facts:
  "rows_readable text_driver sample_db" "rows_readable text_driver empty_db" "settled sample_refreshing"
  "active_view text_driver 5 sample_db = [(''a'', ''a''), (''b'', ''b'')]" "active_view text_driver mx empty_db = []"
  "pool_view (mg_pool sample_manager) = [(''a'', ''a''), (''b'', ''b'')]" "pl_maxFailures (mg_pool sample_manager) = 5"
proof -
  show "rows_readable text_driver sample_db" using sample_db_readable by (simp add: rows_readable_def)
  show "active_view text_driver 5 sample_db = [(''a'', ''a''), (''b'', ''b'')]"
    using ListActive_view sample_pool_read
    by (simp add: active_view_def sample_db_def sample_real_def active_below_def order_by_def key_le_def)
qed (simp_all add: settled_def in_flight_def sample_refreshing_def rows_readable_def empty_db_def active_view_def order_by_def
    sample_manager_def NewManager_def sample_pool_def pool_view_def sample_token_def)


theorem refreshes_can_cross_witness:
  "\<exists>st evs. refresh_run text_driver sample_refreshing evs st \<and> settled st \<and> \<not> up_to_date text_driver st \<and> rf_db st = empty_db"
proof -
  let ?c = "call_at poolRefreshDebounce"
  have st0: "in_flight sample_refreshing = 0" "pl_maxFailures (mg_pool (rf_mgr sample_refreshing)) = 5"
    using sample_refreshing_facts(7) by (simp_all add: in_flight_def sample_refreshing_def)
  have "0 + poolRefreshDebounce \<le> clock ?c" by simp
  from refreshes_can_cross [of ?c ?c, OF _ _ sample_refreshing_facts(1,2) this this st0(1)] obtain st evs where
    "refresh_run text_driver sample_refreshing evs st" "settled st" "rf_db st = empty_db"
    "pool_view (mg_pool (rf_mgr st)) = active_view text_driver 5 sample_db" by (auto simp: st0(2))
  then show ?thesis using sample_refreshing_facts(4,5) by (intro exI [of _ st] exI [of _ evs]) (simp add: up_to_date_def)
qed

end
