(* ===== verification/Lifecycle.thy ===== *)
theory Lifecycle
  imports Usage_Provenance
begin

text \<open>
  The end of the program: the signal, the graceful shutdown and the deferred calls of \<open>main\<close>
  (cmd/claude-gate/main.go), \<open>Start\<close>, \<open>Stop\<close> and the cleanup loop of the sticky manager
  (internal/token/sticky.go), and the cancel function of internal/proxy/setup.go.
\<close>

section \<open>The sticky manager's goroutines\<close>

text \<open>
  \<open>sk_cancel\<close>: \<open>None\<close> before \<open>Start\<close>, then whether \<open>cancel\<close> has been called.  \<open>sk_evicting\<close>: the cache
  evicts on its own.  \<open>sk_done\<close>: the channel \<open>done\<close> is closed, which the loop does when it returns.
\<close>

record sticky_loop =
  sk_evicting :: bool
  sk_cancel :: "bool option"
  sk_done :: bool

definition NewStickyManager :: sticky_loop where
  "NewStickyManager = \<lparr>sk_evicting = False, sk_cancel = None, sk_done = False\<rparr>"

definition StickyManager_Start :: "sticky_loop \<Rightarrow> sticky_loop" where
  "StickyManager_Start k = k\<lparr>sk_evicting := True, sk_cancel := Some False\<rparr>"

text \<open>\<open>Stop\<close> up to its wait; the second component tells whether it waits for \<open>done\<close>.\<close>

definition StickyManager_Stop :: "sticky_loop \<Rightarrow> sticky_loop \<times> bool" where
  "StickyManager_Stop k =
     (let k1 = k\<lparr>sk_evicting := False\<rparr> in
      if sk_cancel k1 \<noteq> None then (k1\<lparr>sk_cancel := Some True\<rparr>, True) else (k1, False))"

text \<open>The context of the loop is derived from the one that the signal cancels.\<close>

definition loop_cancelled :: "bool \<Rightarrow> sticky_loop \<Rightarrow> bool" where
  "loop_cancelled parent k \<longleftrightarrow> parent \<or> sk_cancel k = Some True"

definition loop_runs :: "sticky_loop \<Rightarrow> bool" where
  "loop_runs k \<longleftrightarrow> sk_cancel k \<noteq> None \<and> \<not> sk_done k"

datatype loop_case = LoopDone | LoopTick

text \<open>One turn of the loop, by the case that \<open>select\<close> chose; \<open>None\<close>: that case was not ready.\<close>

definition dbCleanupLoop ::
  "driver \<Rightarrow> bool \<Rightarrow> callenv \<Rightarrow> loop_case \<Rightarrow> sticky_loop \<Rightarrow> db \<Rightarrow> (sticky_loop \<times> db) option" where
  "dbCleanupLoop D parent c sel k s =
     (case sel of
        LoopDone \<Rightarrow> if loop_cancelled parent k then Some (k\<lparr>sk_done := True\<rparr>, s) else None
      | LoopTick \<Rightarrow> Some (k, dbCleanup D c s))"

section \<open>The process\<close>

text \<open>
  What \<open>main\<close> has deferred, and where it is: waiting for the signal, in \<open>srv.Shutdown\<close> until a deadline,
  running its deferred calls, in \<open>tokenMgr.Stop\<close> waiting for the loop, or gone with a status.
\<close>

datatype deferred = CancelTimeout | CancelUsageWriter | StopTokenManager | StopSignals | CloseDatabase

datatype main_state =
    Serving
  | ShuttingDown int
  | Returning "deferred list"
  | AwaitLoop "deferred list"
  | Exited int

text \<open>
  \<open>pr_open\<close> counts the connections that \<open>Shutdown\<close> waits for, which are those with a request in progress
  and those that are new.
\<close>

record ('c, 'w) process =
  pr_server :: "('c, 'w) server"
  pr_main :: main_state
  pr_sticky :: sticky_loop
  pr_open :: nat
  pr_db_open :: bool

definition serverShutdownTimeout :: int where
  "serverShutdownTimeout = 10 * second"

text \<open>
  The calls that \<open>main\<close> has deferred, the last one first.  The flag of the server stands for the context of
  the signal and for the writer's, which is derived from it: \<open>cancel\<close> and \<open>stop\<close> find it set.
\<close>

definition main_deferred :: "deferred list" where
  "main_deferred = [CancelTimeout, CancelUsageWriter, StopTokenManager, StopSignals, CloseDatabase]"

definition Manager_Stop :: "deferred list \<Rightarrow> ('c, 'w) process \<Rightarrow> ('c, 'w) process" where
  "Manager_Stop rest pr =
     (case StickyManager_Stop (pr_sticky pr) of
        (k, waits) \<Rightarrow> pr\<lparr>pr_sticky := k, pr_main := (if waits then AwaitLoop rest else Returning rest)\<rparr>)"

fun run_deferred :: "deferred \<Rightarrow> deferred list \<Rightarrow> ('c, 'w) process \<Rightarrow> ('c, 'w) process" where
  "run_deferred CancelTimeout rest pr = pr\<lparr>pr_main := Returning rest\<rparr>"
| "run_deferred CancelUsageWriter rest pr =
     pr\<lparr>pr_main := Returning rest, pr_server := (pr_server pr)\<lparr>sv_cancelled := True\<rparr>\<rparr>"
| "run_deferred StopTokenManager rest pr = Manager_Stop rest pr"
| "run_deferred StopSignals rest pr =
     pr\<lparr>pr_main := Returning rest, pr_server := (pr_server pr)\<lparr>sv_cancelled := True\<rparr>\<rparr>"
| "run_deferred CloseDatabase rest pr = pr\<lparr>pr_main := Returning rest, pr_db_open := False\<rparr>"

text \<open>
  The steps of \<open>main\<close> after the start.  \<open>Shutdown\<close> returns when no request is in progress, or with an
  error at its deadline, and \<open>log.Fatalf\<close> ends the process without the deferred calls.
\<close>

inductive main_step :: "int \<Rightarrow> ('c, 'w) process \<Rightarrow> ('c, 'w) process \<Rightarrow> bool" for t where
  listen_fails: "pr_main pr = Serving \<Longrightarrow> main_step t pr (pr\<lparr>pr_main := Exited 1\<rparr>)"
| notified: "pr_main pr = Serving \<Longrightarrow> sv_cancelled (pr_server pr) \<Longrightarrow>
    main_step t pr (pr\<lparr>pr_main := ShuttingDown (t + serverShutdownTimeout)\<rparr>)"
| drained: "pr_main pr = ShuttingDown d \<Longrightarrow> pr_open pr = 0 \<Longrightarrow>
    main_step t pr (pr\<lparr>pr_main := Returning main_deferred\<rparr>)"
| overdue: "pr_main pr = ShuttingDown d \<Longrightarrow> d \<le> t \<Longrightarrow> main_step t pr (pr\<lparr>pr_main := Exited 1\<rparr>)"
| call: "pr_main pr = Returning (x # rest) \<Longrightarrow> main_step t pr (run_deferred x rest pr)"
| stopped: "pr_main pr = AwaitLoop rest \<Longrightarrow> sk_done (pr_sticky pr) \<Longrightarrow>
    main_step t pr (pr\<lparr>pr_main := Returning rest\<rparr>)"
| exits: "pr_main pr = Returning [] \<Longrightarrow> main_step t pr (pr\<lparr>pr_main := Exited 0\<rparr>)"

text \<open>
  What else goes on until the process exits: connections arrive while the server listens, and each is served
  a request or leaves; the cleanup loop takes its turns; the refresh timer, the usage writer and the signal act on
  the server.  The refreshes run under the context of the signal, and after \<open>Close\<close> every call of the driver
  fails.
\<close>

datatype activity =
    Arrives
  | Leaves
  | Background event
  | LoopTurn loop_case callenv
  | MainActs int

definition alive :: "('c, 'w) process \<Rightarrow> bool" where
  "alive pr \<longleftrightarrow> (\<forall>st. pr_main pr \<noteq> Exited st)"

definition answered :: "callenv \<Rightarrow> ('c, 'w) process \<Rightarrow> bool" where
  "answered c pr \<longleftrightarrow> (\<not> pr_db_open pr \<longrightarrow> (\<forall>k. fails c k))"

fun may_happen :: "event \<Rightarrow> ('c, 'w) process \<Rightarrow> bool" where
  "may_happen (Served E r) pr \<longleftrightarrow> 0 < pr_open pr"
| "may_happen (TimerFires t) pr \<longleftrightarrow> True"
| "may_happen PoolInstalls pr \<longleftrightarrow> True"
| "may_happen (PoolReads c) pr \<longleftrightarrow> ctx_done c = sv_cancelled (pr_server pr) \<and> answered c pr"
| "may_happen (Cleanup c) pr \<longleftrightarrow> False"
| "may_happen (WriterTurn fe sel) pr \<longleftrightarrow> answered (fe_call fe) pr"
| "may_happen Interrupt pr \<longleftrightarrow> True"

fun closes_request :: "event \<Rightarrow> nat" where
  "closes_request (Served E r) = 1"
| "closes_request _ = 0"

inductive process_step :: "('c, 'w) program \<Rightarrow> activity \<Rightarrow> ('c, 'w) process \<Rightarrow> ('c, 'w) process \<Rightarrow> bool" for P where
  arrives: "pr_main pr = Serving \<Longrightarrow> process_step P Arrives pr (pr\<lparr>pr_open := pr_open pr + 1\<rparr>)"
| leaves: "0 < pr_open pr \<Longrightarrow> alive pr \<Longrightarrow> process_step P Leaves pr (pr\<lparr>pr_open := pr_open pr - 1\<rparr>)"
| background: "alive pr \<Longrightarrow> may_happen ev pr \<Longrightarrow> server_step P ev (pr_server pr) S \<Longrightarrow>
    process_step P (Background ev) pr (pr\<lparr>pr_server := S, pr_open := pr_open pr - closes_request ev\<rparr>)"
| loop_turn: "alive pr \<Longrightarrow> loop_runs (pr_sticky pr) \<Longrightarrow> answered c pr \<Longrightarrow>
    ctx_done c = loop_cancelled (sv_cancelled (pr_server pr)) (pr_sticky pr) \<Longrightarrow>
    dbCleanupLoop (pg_driver P) (sv_cancelled (pr_server pr)) c sel (pr_sticky pr) (gw_db (sv_gate (pr_server pr))) =
      Some (k, s) \<Longrightarrow>
    process_step P (LoopTurn sel c) pr
      (pr\<lparr>pr_sticky := k, pr_server := update_gate_state (\<lambda>G. G\<lparr>gw_db := s\<rparr>) (pr_server pr)\<rparr>)"
| main_acts: "main_step t pr pr' \<Longrightarrow> process_step P (MainActs t) pr pr'"

fun act_time :: "activity \<Rightarrow> int option" where
  "act_time Arrives = None"
| "act_time Leaves = None"
| "act_time (Background ev) = event_time ev"
| "act_time (LoopTurn sel c) = Some (clock c)"
| "act_time (MainActs t) = Some t"

text \<open>Runs, the newest activity first; time does not go back.\<close>

inductive process_run ::
  "('c, 'w) program \<Rightarrow> ('c, 'w) process \<Rightarrow> activity list \<Rightarrow> int \<Rightarrow> ('c, 'w) process \<Rightarrow> bool" for P pr0 where
  init: "process_run P pr0 [] t pr0"
| step: "process_run P pr0 acts t pr \<Longrightarrow> process_step P a pr pr' \<Longrightarrow> t \<le> t' \<Longrightarrow>
    (\<forall>u. act_time a = Some u \<longrightarrow> u = t') \<Longrightarrow> process_run P pr0 (a # acts) t' pr'"

text \<open>The process once \<open>main_start\<close> has succeeded: the token manager has started the sticky manager.\<close>

definition process_start :: "('c, 'w) server \<Rightarrow> ('c, 'w) process" where
  "process_start S = \<lparr>pr_server = S, pr_main = Serving, pr_sticky = StickyManager_Start NewStickyManager,
     pr_open = 0, pr_db_open = True\<rparr>"

end
