(* ===== verification/Shutdown_Properties.thy ===== *)
theory Shutdown_Properties
  imports Lifecycle
begin

text \<open>
  The end of the program: in which order things are closed, that \<open>main\<close> always gets to its end, and that
  usage logs are no longer stored.
\<close>

section \<open>What each phase guarantees\<close>

definition unwinding :: "deferred list \<Rightarrow> bool" where
  "unwinding rest \<longleftrightarrow> (\<exists>n. rest = drop n main_deferred)"

lemma unwinding_cases:
  "unwinding rest \<longleftrightarrow> rest \<in> {main_deferred, [CancelUsageWriter, StopTokenManager, StopSignals, CloseDatabase],
     [StopTokenManager, StopSignals, CloseDatabase], [StopSignals, CloseDatabase], [CloseDatabase], []}"
proof
  assume "unwinding rest"
  then obtain n where n: "rest = drop n main_deferred" by (auto simp: unwinding_def)
  have "n = 0 \<or> n = 1 \<or> n = 2 \<or> n = 3 \<or> n = 4 \<or> 5 \<le> n" by arith
  then show "rest \<in> {main_deferred, [CancelUsageWriter, StopTokenManager, StopSignals, CloseDatabase],
     [StopTokenManager, StopSignals, CloseDatabase], [StopSignals, CloseDatabase], [CloseDatabase], []}"
    by (elim disjE) (simp_all add: n main_deferred_def)
next
  assume "rest \<in> {main_deferred, [CancelUsageWriter, StopTokenManager, StopSignals, CloseDatabase],
     [StopTokenManager, StopSignals, CloseDatabase], [StopSignals, CloseDatabase], [CloseDatabase], []}"
  moreover have "main_deferred = drop 0 main_deferred" "[CancelUsageWriter, StopTokenManager, StopSignals, CloseDatabase] = drop 1 main_deferred"
    "[StopTokenManager, StopSignals, CloseDatabase] = drop 2 main_deferred" "[StopSignals, CloseDatabase] = drop 3 main_deferred"
    "[CloseDatabase] = drop 4 main_deferred" "[] = drop 5 main_deferred"
    by (simp_all add: main_deferred_def)
  ultimately show "unwinding rest" unfolding unwinding_def by blast
qed

fun phase_ok :: "main_state \<Rightarrow> ('c, 'w) process \<Rightarrow> bool" where
  "phase_ok Serving pr \<longleftrightarrow> pr_db_open pr"
| "phase_ok (ShuttingDown d) pr \<longleftrightarrow> sv_cancelled (pr_server pr) \<and> pr_db_open pr"
| "phase_ok (Returning rest) pr \<longleftrightarrow> sv_cancelled (pr_server pr) \<and> pr_open pr = 0 \<and>
     unwinding rest \<and>
     (length rest < 3 \<longrightarrow> sk_done (pr_sticky pr)) \<and> pr_db_open pr = (rest \<noteq> [])"
| "phase_ok (AwaitLoop rest) pr \<longleftrightarrow> sv_cancelled (pr_server pr) \<and> pr_open pr = 0 \<and>
     rest = [StopSignals, CloseDatabase] \<and> pr_db_open pr"
| "phase_ok (Exited st) pr \<longleftrightarrow>
     (if st = 0 then sv_cancelled (pr_server pr) \<and> pr_open pr = 0 \<and> sk_done (pr_sticky pr) \<and> \<not> pr_db_open pr
      else st = 1 \<and> pr_db_open pr)"

definition process_ok :: "('c, 'w) process \<Rightarrow> bool" where
  "process_ok pr \<longleftrightarrow> sk_cancel (pr_sticky pr) \<noteq> None \<and> phase_ok (pr_main pr) pr"

lemma server_step_cancelled: "server_step P ev S S' \<Longrightarrow> sv_cancelled S \<Longrightarrow> sv_cancelled S'"
  by (induction rule: server_step.induct)
    (auto simp: update_gate_state_def serve_def serve_proxy_def serve_api_def serve_ui_def Let_def
      split: target.splits prod.splits)

lemma main_step_ok:
  assumes "main_step t pr pr'" "process_ok pr"
  shows "process_ok pr'"
  using assms
proof (induction rule: main_step.induct)
  case (call pr x rest)
  then show ?case
    by (cases x) (auto simp: process_ok_def unwinding_cases main_deferred_def Manager_Stop_def StickyManager_Stop_def Let_def
        split: if_splits)
qed (auto simp: process_ok_def unwinding_cases main_deferred_def)

lemma phase_ok_keeps:
  assumes "phase_ok ph pr" "pr_db_open pr' = pr_db_open pr" "pr_open pr' \<le> pr_open pr"
    and "sv_cancelled (pr_server pr) \<Longrightarrow> sv_cancelled (pr_server pr')"
    and "sk_done (pr_sticky pr) \<Longrightarrow> sk_done (pr_sticky pr')"
  shows "phase_ok ph pr'"
  using assms by (cases ph) (auto split: if_splits)

lemma loop_turn_state:
  assumes "dbCleanupLoop D b c sel k s = Some (k', s')"
  shows "sk_cancel k' = sk_cancel k" "sk_done k \<Longrightarrow> sk_done k'" "s' = s \<or> s' = dbCleanup D c s \<and> sel = LoopTick"
  using assms by (auto simp: dbCleanupLoop_def split: loop_case.splits if_splits)

lemma process_step_ok:
  assumes "process_step P a pr pr'" "process_ok pr"
  shows "process_ok pr'"
  using assms
proof (induction rule: process_step.induct)
  case (background pr ev S)
  then show ?case unfolding process_ok_def
    by (auto elim!: phase_ok_keeps dest: server_step_cancelled [OF background.hyps(3)])
next
  case (loop_turn pr c sel k s)
  note st = loop_turn_state [OF loop_turn.hyps(5)]
  from loop_turn.prems st(1,2) show ?case unfolding process_ok_def
    by (auto elim!: phase_ok_keeps simp: update_gate_state_def)
next
  case (main_acts t pr pr')
  then show ?case by (rule main_step_ok)
next
  case (leaves pr)
  then show ?case unfolding process_ok_def by (auto elim!: phase_ok_keeps)
qed (simp add: process_ok_def)

lemma process_start_ok: "process_ok (process_start S)"
  by (simp add: process_ok_def process_start_def StickyManager_Start_def)

lemma process_run_ok: "process_run P pr0 acts t pr \<Longrightarrow> process_ok pr0 \<Longrightarrow> process_ok pr"
  by (induction rule: process_run.induct) (auto intro: process_step_ok)

text \<open>
  C22: The program ends in order.  Whatever requests, refreshes, writer turns and cleanups go on around it,
  the database is closed only when the signal has come, no connection is left to serve, and the
  cleanup loop has returned, so neither a request nor a cleanup meets a closed database (the usage writer
  is only cancelled, not waited for); the status is then 0.  The only other end has status 1: the listener
  failed, or connections were left at the deadline of the shutdown; \<open>log.Fatalf\<close> then skips the deferred
  calls, and the database is not closed.
\<close>
theorem exit_in_order:
  assumes "process_run P (process_start S) acts t pr"
  shows "(\<not> pr_db_open pr \<longrightarrow> sv_cancelled (pr_server pr) \<and> pr_open pr = 0 \<and> sk_done (pr_sticky pr)) \<and>
    (\<forall>st. pr_main pr = Exited st \<longrightarrow> st = (if pr_db_open pr then 1 else 0))"
proof -
  have "process_ok pr" by (rule process_run_ok [OF assms process_start_ok])
  then have "phase_ok (pr_main pr) pr" by (simp add: process_ok_def)
  then show ?thesis by (cases "pr_main pr") (auto simp: unwinding_cases split: if_splits)
qed

section \<open>The shutdown ends\<close>

text \<open>How many steps \<open>main\<close> still has to take at most.\<close>

fun steps_left :: "main_state \<Rightarrow> nat" where
  "steps_left Serving = 9"
| "steps_left (ShuttingDown d) = 8"
| "steps_left (Returning rest) = 1 + length rest + (if StopTokenManager \<in> set rest then 1 else 0)"
| "steps_left (AwaitLoop rest) = 2 + length rest"
| "steps_left (Exited st) = 0"

lemma main_step_left: "main_step t pr pr' \<Longrightarrow> process_ok pr \<Longrightarrow> steps_left (pr_main pr') < steps_left (pr_main pr)"
proof (induction rule: main_step.induct)
  case (call pr x rest)
  then show ?case
    by (cases x) (auto simp: process_ok_def unwinding_cases main_deferred_def Manager_Stop_def StickyManager_Stop_def Let_def)
qed (auto simp: main_deferred_def process_ok_def)

fun is_main :: "activity \<Rightarrow> bool" where
  "is_main (MainActs t) = True"
| "is_main _ = False"

lemma process_run_left:
  "process_run P pr0 acts t pr \<Longrightarrow> process_ok pr0 \<Longrightarrow>
     length (filter is_main acts) + steps_left (pr_main pr) \<le> steps_left (pr_main pr0)"
proof (induction rule: process_run.induct)
  case (step acts t pr a pr' t')
  from step.hyps(2) show ?case
  proof (cases rule: process_step.cases)
    case (main_acts t)
    with main_step_left [OF main_acts(2)] process_run_ok [OF step.hyps(1) step.prems] step.IH [OF step.prems]
    show ?thesis by simp
  qed (use step.IH [OF step.prems] in simp_all)
qed simp

text \<open>Once the requests are over, \<open>main\<close> needs only the cleanup loop, whose context is cancelled.\<close>

fun own_act :: "activity \<Rightarrow> bool" where
  "own_act (MainActs t) = True"
| "own_act (LoopTurn sel c) = (sel = LoopDone)"
| "own_act _ = False"

fun to_go :: "('c, 'w) process \<Rightarrow> nat" where
  "to_go pr = steps_left (pr_main pr) + (if sk_done (pr_sticky pr) then 0 else 1)"

fun leaving :: "main_state \<Rightarrow> bool" where
  "leaving (Returning rest) = True"
| "leaving (AwaitLoop rest) = True"
| "leaving _ = False"

lemma leaving_step:
  assumes "process_ok pr" "leaving (pr_main pr)"
  shows "\<exists>a pr'. process_step P a pr pr' \<and> own_act a \<and> act_time a = Some t \<and> to_go pr' < to_go pr \<and>
    (leaving (pr_main pr') \<or> pr_main pr' = Exited 0)"
proof -
  have main: ?thesis if "main_step t pr pr'" "leaving (pr_main pr') \<or> pr_main pr' = Exited 0" "pr_sticky pr' = pr_sticky pr \<or>
    sk_done (pr_sticky pr') = sk_done (pr_sticky pr)" for pr'
  proof -
    from main_step_left [OF that(1) assms(1)] that(3) have "to_go pr' < to_go pr" by auto
    with process_step.main_acts [OF that(1), of P] that(2) show ?thesis
      by (intro exI [of _ "MainActs t"] exI [of _ pr']) simp
  qed
  show ?thesis
  proof (cases "pr_main pr")
    case (Returning rest)
    show ?thesis
    proof (cases rest)
      case Nil
      with Returning have "pr_main pr = Returning []" by simp
      from main [OF main_step.exits [OF this]] show ?thesis by simp
    next
      case (Cons x xs)
      with Returning have r: "pr_main pr = Returning (x # xs)" by simp
      from main [OF main_step.call [OF r]] show ?thesis
        by (cases x) (auto simp: Manager_Stop_def StickyManager_Stop_def Let_def)
    qed
  next
    case (AwaitLoop rest)
    show ?thesis
    proof (cases "sk_done (pr_sticky pr)")
      case True
      from main [OF main_step.stopped [OF AwaitLoop True]] show ?thesis by simp
    next
      case False
      let ?c = "(call_at t)\<lparr>ctx_done := True\<rparr>"
      have c: "sv_cancelled (pr_server pr)" "sk_cancel (pr_sticky pr) \<noteq> None"
        using assms(1) AwaitLoop by (auto simp: process_ok_def)
      let ?pr = "pr\<lparr>pr_sticky := (pr_sticky pr)\<lparr>sk_done := True\<rparr>,
        pr_server := update_gate_state (\<lambda>G. G\<lparr>gw_db := gw_db (sv_gate (pr_server pr))\<rparr>) (pr_server pr)\<rparr>"
      have "process_step P (LoopTurn LoopDone ?c) pr ?pr"
        by (rule process_step.loop_turn)
          (use c False AwaitLoop in \<open>simp_all add: alive_def loop_runs_def answered_def loop_cancelled_def dbCleanupLoop_def\<close>)
      with False AwaitLoop show ?thesis
        by (intro exI [of _ "LoopTurn LoopDone ?c"] exI [of _ ?pr]) (simp add: call_at_def)
    qed
  qed (use assms(2) in simp_all)
qed

lemma process_run_extend:
  assumes "process_run P pr0 acts t pr" "process_step P a pr pr'" "act_time a = Some t'" "t \<le> t'"
  shows "process_run P pr0 (a # acts) t' pr'"
  by (rule process_run.step [OF assms(1,2,4)]) (simp add: assms(3))

lemma leaving_run:
  assumes "process_run P pr0 acts t pr" "process_ok pr0" "leaving (pr_main pr)"
  shows "\<exists>more pr'. process_run P pr0 (more @ acts) t pr' \<and> pr_main pr' = Exited 0 \<and> list_all own_act more \<and>
    length more \<le> to_go pr"
  using assms(1,3)
proof (induction "to_go pr" arbitrary: acts pr rule: less_induct)
  case less
  have "process_ok pr" by (rule process_run_ok [OF less.prems(1) assms(2)])
  from leaving_step [OF this less.prems(2)] obtain a pr1 where a: "process_step P a pr pr1" "own_act a"
    "act_time a = Some t" "to_go pr1 < to_go pr" "leaving (pr_main pr1) \<or> pr_main pr1 = Exited 0"
    by blast
  have run: "process_run P pr0 (a # acts) t pr1" by (rule process_run_extend [OF less.prems(1) a(1,3)]) simp
  from a(5) show ?case
  proof
    assume "leaving (pr_main pr1)"
    from less.hyps [OF a(4) run this] obtain more pr' where "process_run P pr0 (more @ a # acts) t pr'"
      "pr_main pr' = Exited 0" "list_all own_act more" "length more \<le> to_go pr1" by blast
    with a(2,4) show ?thesis by (intro exI [of _ "more @ [a]"] exI [of _ pr']) simp
  next
    assume "pr_main pr1 = Exited 0"
    with run a(2,4) show ?thesis by (intro exI [of _ "[a]"] exI [of _ pr1]) simp
  qed
qed

text \<open>The deadline is never more than the timeout away.\<close>

lemma deadline_near:
  "process_run P pr0 acts t pr \<Longrightarrow> pr_main pr0 = Serving \<Longrightarrow> pr_main pr = ShuttingDown d \<Longrightarrow> d \<le> t + serverShutdownTimeout"
proof (induction arbitrary: d rule: process_run.induct)
  case (step acts t pr a pr' t')
  from step.hyps(2) show ?case
  proof (cases rule: process_step.cases)
    case (main_acts u)
    from main_acts(2) show ?thesis
    proof (cases rule: main_step.cases)
      case (call x rest)
      with step.prems show ?thesis by (cases x) (auto simp: Manager_Stop_def split: prod.splits if_splits)
    qed (use step.prems step.hyps(4) main_acts(1) in auto)
  qed (use step.IH [OF step.prems(1)] step.prems(2) step.hyps(3) in force)+
qed simp

text \<open>
  The exit can be reached by at most \<open>n\<close> steps of \<open>main\<close> and of the loop, before the timeout is over; if
  \<open>now\<close>, at once and with status 0.
\<close>

definition can_exit :: "('c, 'w) program \<Rightarrow> ('c, 'w) process \<Rightarrow> activity list \<Rightarrow> int \<Rightarrow> bool \<Rightarrow> nat \<Rightarrow> bool" where
  "can_exit P pr0 acts t now n \<longleftrightarrow>
     (\<exists>more t' pr' st. process_run P pr0 (more @ acts) t' pr' \<and> pr_main pr' = Exited st \<and> list_all own_act more \<and>
        length more \<le> n \<and> t' \<le> t + 10 * second \<and> (now \<longrightarrow> st = 0 \<and> t' = t))"

lemma can_exitI:
  assumes "process_run P pr0 (us @ acts) t' pr'" "pr_main pr' = Exited st" "list_all own_act us" "length us \<le> n"
    and "t' \<le> t + 10 * second" "now \<Longrightarrow> st = 0 \<and> t' = t"
  shows "can_exit P pr0 acts t now n"
  unfolding can_exit_def using assms by blast

lemma can_exit_later:
  assumes "can_exit P pr0 (a # acts) t now n" "own_act a" "Suc n \<le> k"
  shows "can_exit P pr0 acts t now k"
proof -
  from assms(1) obtain us t' pr' st where "process_run P pr0 (us @ a # acts) t' pr'" "pr_main pr' = Exited st" "list_all own_act us"
    "length us \<le> n" "t' \<le> t + 10 * second" "now \<longrightarrow> st = 0 \<and> t' = t"
    by (auto simp: can_exit_def)
  with assms(2,3) show ?thesis by (intro can_exitI [of _ _ "us @ [a]" _ t' pr' st]) simp_all
qed

lemma can_exit_mono:
  assumes "can_exit P pr0 acts t now n" "n \<le> k" "now' \<Longrightarrow> now"
  shows "can_exit P pr0 acts t now' k"
proof -
  from assms(1) obtain us t' pr' st where "process_run P pr0 (us @ acts) t' pr'" "pr_main pr' = Exited st" "list_all own_act us"
    "length us \<le> n" "t' \<le> t + 10 * second" "now \<longrightarrow> st = 0 \<and> t' = t"
    by (auto simp: can_exit_def)
  with assms(2,3) show ?thesis by (intro can_exitI [of _ _ us _ t' pr' st]) simp_all
qed

lemma leaving_exits:
  assumes "process_run P pr0 acts t pr" "process_ok pr0" "leaving (pr_main pr)"
  shows "can_exit P pr0 acts t now (to_go pr)"
proof -
  obtain more pr' where "process_run P pr0 (more @ acts) t pr'" "pr_main pr' = Exited 0" "list_all own_act more"
    "length more \<le> to_go pr"
    using leaving_run [OF assms] by blast
  then show ?thesis by (rule can_exitI) (simp_all add: second_def)
qed

lemma shutting_exits:
  assumes "process_run P pr0 acts t pr" "process_ok pr0" "pr_main pr0 = Serving" "pr_main pr = ShuttingDown d"
  shows "can_exit P pr0 acts t (pr_open pr = 0) 9"
proof (cases "pr_open pr = 0")
  case True
  let ?pr = "pr\<lparr>pr_main := Returning main_deferred\<rparr>"
  have "process_run P pr0 (MainActs t # acts) t ?pr"
    by (rule process_run_extend [OF assms(1) process_step.main_acts [OF main_step.drained [OF assms(4) True]]]) simp_all
  from leaving_exits [OF this assms(2)] have "can_exit P pr0 (MainActs t # acts) t (pr_open pr = 0) (to_go ?pr)" by simp
  then show ?thesis by (rule can_exit_later) (simp_all add: main_deferred_def)
next
  case False
  let ?t = "max t d"
  have d: "d \<le> t + 10 * second" using deadline_near [OF assms(1,3,4)] by (simp add: serverShutdownTimeout_def)
  have "process_run P pr0 ([MainActs ?t] @ acts) ?t (pr\<lparr>pr_main := Exited 1\<rparr>)"
    using process_run_extend [OF assms(1) process_step.main_acts [OF main_step.overdue [OF assms(4), of ?t]], of ?t] by simp
  then show ?thesis by (rule can_exitI) (use d False in \<open>simp_all add: second_def\<close>)
qed

text \<open>
  C23: The shutdown ends.  In every run \<open>main\<close> takes at most nine steps, whatever goes on around it, and
  it never gets stuck: once the signal has come, at most ten steps of \<open>main\<close> and of the cleanup loop lead to
  the exit, ten seconds later at the latest, however long the requests in progress last; with no
  connection left to wait for they lead to an exit with status 0 at once.
\<close>
theorem shutdown_ends:
  assumes "process_run P (process_start S) acts t pr" "sv_cancelled (pr_server pr)"
  shows "length (filter is_main acts) \<le> 9 \<and>
    (\<exists>more t' pr' st. process_run P (process_start S) (more @ acts) t' pr' \<and> pr_main pr' = Exited st \<and>
       list_all own_act more \<and> length more \<le> 10 \<and> t' \<le> t + 10 * second \<and>
       (alive pr \<and> pr_open pr = 0 \<longrightarrow> st = 0 \<and> t' = t))"
proof (intro conjI, unfold can_exit_def [symmetric])
  note ok0 = process_start_ok [of S]
  have start: "pr_main (process_start S) = Serving" by (simp add: process_start_def)
  show "length (filter is_main acts) \<le> 9"
    using process_run_left [OF assms(1) ok0] by (simp add: start)
  have ok: "process_ok pr" by (rule process_run_ok [OF assms(1) ok0])
  have gone: "can_exit P (process_start S) acts t now 10" if "leaving (pr_main pr)" for now
  proof (rule can_exit_mono [OF leaving_exits [OF assms(1) ok0 that, of now]])
    show "to_go pr \<le> 10" using that ok by (cases "pr_main pr") (auto simp: process_ok_def unwinding_cases main_deferred_def)
  qed
  show "can_exit P (process_start S) acts t (alive pr \<and> pr_open pr = 0) 10"
  proof (cases "pr_main pr")
    case Serving
    let ?pr = "pr\<lparr>pr_main := ShuttingDown (t + serverShutdownTimeout)\<rparr>"
    have "process_run P (process_start S) (MainActs t # acts) t ?pr"
      using process_run_extend [OF assms(1) process_step.main_acts [OF main_step.notified [OF Serving assms(2)]]] by simp
    from shutting_exits [OF this ok0 start] Serving show ?thesis by (auto simp: alive_def intro: can_exit_later)
  next
    case (ShuttingDown d)
    from shutting_exits [OF assms(1) ok0 start this] show ?thesis by (rule can_exit_mono) simp_all
  next
    case (Exited st)
    from assms(1) this show ?thesis by (intro can_exitI [of _ _ "[]" _ t pr st]) (simp_all add: alive_def second_def)
  qed (use gone in simp_all)
qed

section \<open>The process as a run of the server\<close>

lemma server_run_extend:
  assumes "server_run P S0 evs u S" "server_step P ev S S'" "u \<le> t" "\<forall>v. event_time ev = Some v \<longrightarrow> v = t"
  shows "\<exists>evs' u'. server_run P S0 evs' u' S' \<and> u' \<le> t"
  using server_run.step [OF assms] by blast

text \<open>What the server goes through until the process exits is a run of the server.\<close>

lemma process_server_run:
  "process_run P pr0 acts t pr \<Longrightarrow> \<exists>evs u. server_run P (pr_server pr0) evs u (pr_server pr) \<and> u \<le> t"
proof (induction rule: process_run.induct)
  case (init t)
  show ?case using server_run.init by blast
next
  case (step acts t pr a pr' t')
  then obtain evs u where run: "server_run P (pr_server pr0) evs u (pr_server pr)" "u \<le> t'" by fastforce
  have same: ?case if "pr_server pr' = pr_server pr" using run that by auto
  have one: ?case if "server_step P ev (pr_server pr) (pr_server pr')" "\<forall>v. event_time ev = Some v \<longrightarrow> v = t'" for ev
    by (rule server_run_extend [OF run(1) that(1) run(2) that(2)])
  from step.hyps(2) show ?case
  proof (cases rule: process_step.cases)
    case (background ev S)
    with step.hyps(4) show ?thesis by (intro one) simp_all
  next
    case (loop_turn c sel k s)
    from loop_turn_state(3) [OF loop_turn(7)] show ?thesis
    proof
      assume "s = gw_db (sv_gate (pr_server pr))"
      then show ?thesis by (intro same) (simp add: loop_turn(2) update_gate_state_def)
    next
      assume s: "s = dbCleanup (pg_driver P) c (gw_db (sv_gate (pr_server pr))) \<and> sel = LoopTick"
      from server_step.cleanup [of P c "pr_server pr"] have "server_step P (Cleanup c) (pr_server pr) (pr_server pr')"
        by (simp add: loop_turn(2) s update_gate_state_def)
      then show ?thesis by (rule one) (use step.hyps(4) loop_turn(1) in simp)
    qed
  next
    case (main_acts u)
    have "pr_server pr' = pr_server pr \<or> pr_server pr' = (pr_server pr)\<lparr>sv_cancelled := True\<rparr>"
      using main_acts(2)
    proof (cases rule: main_step.cases)
      case (call x rest)
      then show ?thesis by (cases x) (simp_all add: Manager_Stop_def split: prod.split)
    qed simp_all
    then show ?thesis
    proof
      assume c: "pr_server pr' = (pr_server pr)\<lparr>sv_cancelled := True\<rparr>"
      show ?thesis by (rule one [of Interrupt]) (simp_all add: c server_step.interrupt)
    qed (rule same)
  qed (rule same, simp)+
qed

text \<open>After the signal, the writer's calls fail, and nothing else stores usage logs.\<close>

definition after_signal :: "usage_row set \<Rightarrow> ('c, 'w) server \<Rightarrow> bool" where
  "after_signal X S \<longleftrightarrow> sv_cancelled S \<and> set (usage_logs (gw_db (sv_gate S))) \<subseteq> X"

lemma server_step_after_signal:
  assumes "server_step P ev S S'" "after_signal X S"
  shows "after_signal X S'"
proof -
  have c: "sv_cancelled S'" using server_step_cancelled [OF assms(1)] assms(2) by (simp add: after_signal_def)
  from assms(1) have "set (usage_logs (gw_db (sv_gate S'))) \<subseteq> set (usage_logs (gw_db (sv_gate S)))"
  proof (cases rule: server_step.cases)
    case (request E r)
    show ?thesis unfolding request by (rule serve_logs)
  next
    case (writer_turn fe sel ev' ch w s go)
    with assms(2) have "ctx_done (fe_call fe)" by (simp add: after_signal_def)
    from turn_cancelled [OF this writer_turn(5)] show ?thesis by (simp add: writer_turn(2))
  qed (simp_all add: update_gate_state_def dbCleanup_def DeleteExpiredStickySessions_def)
  with c assms(2) show ?thesis by (auto simp: after_signal_def)
qed

interpretation signalled: server_invariant P "\<lambda>_. True" "\<lambda>_. after_signal X" for P X
  by unfold_locales (blast intro: server_step_after_signal)+

text \<open>
  C24: Usage is not stored after the signal.  From the moment the program is told to stop until it exits,
  however long that takes, which requests are still served and what the writer does with them, the
  database gets no new usage log: the requests that the graceful shutdown waits for are answered
  and their usage is lost.
\<close>
theorem late_usage_lost:
  assumes "process_run P pr acts t pr'" "sv_cancelled (pr_server pr)"
  shows "set (usage_logs (gw_db (sv_gate (pr_server pr')))) \<subseteq> set (usage_logs (gw_db (sv_gate (pr_server pr))))"
proof -
  obtain evs u where "server_run P (pr_server pr) evs u (pr_server pr')" using process_server_run [OF assms(1)] by blast
  moreover have "after_signal (set (usage_logs (gw_db (sv_gate (pr_server pr))))) (pr_server pr)"
    using assms(2) by (simp add: after_signal_def)
  ultimately have "after_signal (set (usage_logs (gw_db (sv_gate (pr_server pr))))) (pr_server pr')" using signalled.run by blast
  then show ?thesis by (simp add: after_signal_def)
qed

section \<open>A sample process\<close>

lemma sample_process:
  obtains P :: "(string items, bool items) program" and S :: "(string items, bool items) server" where "pg_driver P = text_driver" "gw_db (sv_gate S) = sample_db"
    "sv_writer S = NewUsageWriter" "sv_running S"
    "process_run P (process_start S) [Background Interrupt] 0 (process_start (S\<lparr>sv_cancelled := True\<rparr>))"
proof -
  obtain P :: "(string items, bool items) program" and S :: "(string items, bool items) server" where S: "pg_driver P = text_driver" "gw_db (sv_gate S) = sample_db"
    "sv_writer S = NewUsageWriter" "sv_running S"
    by (rule sample_started)
  have "process_step P (Background Interrupt) (process_start S) (process_start (S\<lparr>sv_cancelled := True\<rparr>))"
    using process_step.background [of "process_start S" Interrupt P, OF _ _ server_step.interrupt]
    by (simp add: process_start_def alive_def)
  from process_run.step [OF process_run.init [of P "process_start S" 0] this, of 0] S that show ?thesis by simp
qed

theorem exit_in_order_witness:
  "\<exists>(P :: (string items, bool items) program) S acts pr. process_run P (process_start S) acts 0 pr \<and>
     pr_main pr = Exited 0 \<and> \<not> pr_db_open pr \<and> sk_done (pr_sticky pr)"
proof -
  obtain P :: "(string items, bool items) program" and S :: "(string items, bool items) server" where
    r: "process_run P (process_start S) [Background Interrupt] 0 (process_start (S\<lparr>sv_cancelled := True\<rparr>))"
    by (rule sample_process)
  let ?pr = "process_start (S\<lparr>sv_cancelled := True\<rparr>)"
  have "pr_main ?pr = Serving" "sv_cancelled (pr_server ?pr)" by (simp_all add: process_start_def)
  from process_run_extend [OF r process_step.main_acts [OF main_step.notified [OF this, of 0]]]
  have "process_run P (process_start S) [MainActs 0, Background Interrupt] 0 (?pr\<lparr>pr_main := ShuttingDown (0 + serverShutdownTimeout)\<rparr>)"
    by simp
  from shutting_exits [OF this process_start_ok] obtain more t' pr' st where
    "process_run P (process_start S) (more @ [MainActs 0, Background Interrupt]) t' pr'" "pr_main pr' = Exited st" "st = 0 \<and> t' = 0"
    by (auto simp: process_start_def can_exit_def)
  then have run: "process_run P (process_start S) (more @ [MainActs 0, Background Interrupt]) 0 pr'" "pr_main pr' = Exited 0" by simp_all
  from exit_in_order [OF run(1)] run(2) have "\<not> pr_db_open pr'" "sk_done (pr_sticky pr')" by (auto split: if_splits)
  with run show ?thesis by blast
qed

text \<open>A connection that never becomes idle when the signal comes.\<close>

theorem shutdown_ends_witness:
  "\<exists>(P :: (string items, bool items) program) S acts t pr st. process_run P (process_start S) acts t pr \<and>
     Arrives \<in> set acts \<and> pr_main pr = Exited st \<and> t \<le> 10 * second \<and> length acts \<le> 12"
proof -
  obtain P :: "(string items, bool items) program" and S :: "(string items, bool items) server" where
    r: "process_run P (process_start S) [Background Interrupt] 0 (process_start (S\<lparr>sv_cancelled := True\<rparr>))"
    by (rule sample_process)
  let ?pr = "(process_start (S\<lparr>sv_cancelled := True\<rparr>))\<lparr>pr_open := 1\<rparr>"
  have "process_step P Arrives (process_start (S\<lparr>sv_cancelled := True\<rparr>)) ?pr"
    using process_step.arrives [of "process_start (S\<lparr>sv_cancelled := True\<rparr>)" P] by (simp add: process_start_def)
  from process_run.step [OF r this, of 0] have run: "process_run P (process_start S) [Arrives, Background Interrupt] 0 ?pr" by simp
  have "sv_cancelled (pr_server ?pr)" by (simp add: process_start_def)
  from shutdown_ends [OF run this] obtain more t pr st where
    "process_run P (process_start S) (more @ [Arrives, Background Interrupt]) t pr" "pr_main pr = Exited st"
    "length more \<le> 10" "t \<le> 0 + 10 * second" by blast
  then show ?thesis
    by - (rule exI [of _ P], rule exI [of _ S], rule exI [of _ "more @ [Arrives, Background Interrupt]"], rule exI [of _ t],
      rule exI [of _ pr], rule exI [of _ st], simp)
qed

text \<open>An accepted entry, the signal, and the last turn of the writer.\<close>

theorem late_usage_lost_witness:
  "\<exists>(P :: (string items, bool items) program) S acts pr. process_run P (process_start S) acts 5 pr \<and>
     gw_ch (sv_gate S) = [sample_entry ''g'' ''a'' 1 2] \<and> \<not> sv_running (pr_server pr) \<and>
     gw_ch (sv_gate (pr_server pr)) = [] \<and> usage_logs (gw_db (sv_gate (pr_server pr))) = []"
proof -
  obtain P :: "(string items, bool items) program" and S0 :: "(string items, bool items) server" where
    S0: "pg_driver P = text_driver" "gw_db (sv_gate S0) = sample_db" "sv_writer S0 = NewUsageWriter" "sv_running S0"
    by (rule sample_process)
  let ?e = "sample_entry ''g'' ''a'' 1 2"
  define S where "S = S0\<lparr>sv_cancelled := True, sv_gate := (sv_gate S0)\<lparr>gw_ch := [?e]\<rparr>\<rparr>"
  define S' where "S' = S\<lparr>sv_gate := (sv_gate S)\<lparr>gw_ch := [], gw_db := sample_db\<rparr>,
    sv_writer := NewUsageWriter\<lparr>uw_retryBuf := [?e], uw_retryCount := 1\<rparr>, sv_running := False\<rparr>"
  have S: "sv_running S" "sv_cancelled S" "gw_ch (sv_gate S) = [?e]" "sv_writer S = NewUsageWriter"
    "gw_db (sv_gate S) = sample_db"
    by (simp_all add: S_def S0)
  have "server_step P (WriterTurn cancelled_env CtxDone) S S'"
    unfolding S'_def
  proof (rule server_step.writer_turn)
    show "ctx_done (fe_call cancelled_env) = sv_cancelled S" by (simp add: S(2) cancelled_env_def)
    show "run_turn (pg_driver P) cancelled_env CtxDone False (gw_ch (sv_gate S)) (sv_writer S) (gw_db (sv_gate S)) =
        Some (Kept_for_retry [?e], [], NewUsageWriter\<lparr>uw_retryBuf := [?e], uw_retryCount := 1\<rparr>, sample_db, False)"
      unfolding S S0(1) by (rule last_turn)
  qed (rule S(1))
  then have "process_step P (Background (WriterTurn cancelled_env CtxDone)) (process_start S) (process_start S')"
    using process_step.background [of "process_start S" "WriterTurn cancelled_env CtxDone" P S']
    by (simp add: process_start_def alive_def answered_def)
  then have run: "process_run P (process_start S) [Background (WriterTurn cancelled_env CtxDone)] 5 (process_start S')"
    by (rule process_run_extend [OF process_run.init [of _ _ 5]]) (simp_all add: cancelled_env_def call_at_def)
  have "sv_cancelled (pr_server (process_start S))" by (simp add: process_start_def S_def)
  from late_usage_lost [OF run this] have "usage_logs (gw_db (sv_gate (pr_server (process_start S')))) = []"
    by (simp add: process_start_def S_def S0(2) sample_db_def empty_db_def)
  moreover have "gw_ch (sv_gate S) = [?e]" "\<not> sv_running (pr_server (process_start S'))"
    "gw_ch (sv_gate (pr_server (process_start S'))) = []"
    by (simp_all add: S_def S'_def process_start_def)
  ultimately show ?thesis using run by blast
qed

end
