(* ===== verification/Spec2Isabelle.thy ===== *)
theory Spec2Isabelle
  imports Failure_Properties Record_Properties Sse_Properties Usage_Properties Proxy_Properties
    Admin_Secrecy Server_Pool Server_Access Server_Tokens Page_Actions End_To_End
    Pool_Refresh Shutdown_Properties
begin

text \<open>
  claude-gate is a reverse proxy in front of the Claude API.  Clients present gate tokens; the
  proxy picks a real token from a pool, swaps the credentials, streams the answer back and taps it
  for token usage, which a background writer stores.  An admin API and a small web UI manage the
  tokens.  This library models the server (Go, under src/) and proves what makes it correct.

  \<^bold>\<open>Theories and the code they model.\<close>

  \<^item> Prelude, Sql: Go errors as values, byte strings, 64-bit wrap, table operations; the
    \<open>database/sql\<close> idioms of the store.  The SQLite driver is a parameter (\<open>driver\<close>: comparison and
    reading of DATETIME texts, integer addition and sums) with its documented laws; \<open>text_driver\<close>
    satisfies them.  A \<open>callenv\<close> says which driver calls of an operation fail, whether its context
    is cancelled, and the time.
  \<^item> Store_State, Real_Token_Store, Gate_Token_Store, Usage_Store, Sticky_Store: internal/store.
    The tables of migrations/ are lists of rows in a record \<open>db\<close>; every exported operation is a
    function from an environment and a \<open>db\<close> to its result and the new \<open>db\<close>.
  \<^item> Migrate: \<open>New\<close> and \<open>migrate\<close> of internal/store/store.go with the embedded files.  What a file
    does to the schema is a parameter; \<open>exec_file\<close> is an instance for the two files of the repository.
  \<^item> Pool, Sticky, Manager: internal/token.  The pool is a snapshot with a 64-bit counter, the TTL
    cache (github.com/jellydator/ttlcache, used by the sticky manager and by the login sessions) is a
    parameter with its documented laws and the instance \<open>item_cache\<close>; the debounced refresh of the
    manager is its deadline, and once the timer has fired a read of the tokens and, later, their
    installation under the lock of the pool (\<open>timer_fires\<close>, \<open>install\<close>).
  \<^item> Json, Tap, Testutil, Json_Print: the part of \<open>encoding/json\<close> the program uses,
    internal/proxy/tap.go with \<open>extractJSONUsage\<close>, and the builders and mock upstreams of
    testutil/testutil.go with the proof that the parser reads back what they print.
  \<^item> Http, Proxy: \<open>net/http\<close> headers and the hop-by-hop handling of \<open>httputil.ReverseProxy\<close>, and
    internal/proxy/proxy.go.  The upstream is a function from the request it gets to an error or a
    response; a body is the list of what its reads return.
  \<^item> Usage_Writer: internal/proxy/usage_writer.go with the channel of setup.go.
  \<^item> Strconv, Url, Request: what the program uses of \<open>strconv\<close>, \<open>time.ParseDuration\<close>, \<open>net/url\<close> and of
    the forms, bodies and cookies of \<open>net/http\<close>.  Parameters: the float product of \<open>ParseDuration\<close> for
    fractions, the parser of a URL's authority, the values of a multipart form.
  \<^item> Configuration: internal/config/config.go and the level of internal/logging/logging.go.
  \<^item> Admin: internal/admin/handler.go and middleware.go, every handler from the request to the reply,
    the new database and the callback for the pool.  \<open>time.Parse\<close> of the \<open>since\<close> parameter is a
    parameter (\<open>ae_rfc3339\<close>).
  \<^item> Web: web/handler.go, with the login sessions as the state of a TTL cache and a page as the data
    its template gets.
  \<^item> Template, Pages: what the program uses of \<open>html/template\<close> (the escapers of text and plain
    attributes, \<open>Val\<close>, and of URL paths, \<open>UrlVal\<close>, \<open>if\<close>, \<open>with\<close>, \<open>range\<close>, \<open>slice\<close>, the layout of a
    time), the five files of web/templates/ node by node, and \<open>render\<close>, \<open>renderLayout\<close> and
    \<open>layoutCache\<close> of web/handler.go, which turn a page into the bytes written.
  \<^item> Markup: a reader of HTML that tells for every character of a page whether it is data, markup or
    code (\<open>place\<close>, \<open>outline\<close>), and the check that \<open>html/template\<close> makes of a template, which escaper
    each value needs where it stands (\<open>placed\<close>). Names, attributes and quotes are read as in HTML;
    comments, which the templates do not have, are read as tags.
  \<^item> Server: cmd/claude-gate/main.go and internal/proxy/setup.go: the multiplexer with the precedence
    of the registered patterns (\<open>dispatch\<close>), the shared state (\<open>server\<close>), one request (\<open>serve\<close>), the
    start (\<open>main_start\<close>), and the steps and runs of the program (\<open>server_step\<close>, \<open>server_run\<close>), in
    which the three parts of a refresh are steps of their own.
  \<^item> Lifecycle: the rest of \<open>main\<close>, which is the wait for the signal, \<open>srv.Shutdown\<close> with its
    deadline and the deferred calls, with \<open>Start\<close>, \<open>Stop\<close> and the cleanup loop of
    internal/token/sticky.go (\<open>process_step\<close>, \<open>process_run\<close>).
  \<^item> Pool_Refresh (first part): the refreshes alone, with arbitrary changes of the tokens between their
    parts (\<open>refresh_step\<close>).

  \<^bold>\<open>What the lemmas show.\<close>

  \<^item> Store_Properties, Record_Properties: integrity of the schema under every operation and fault
    (\<open>db_ok\<close>), the interface \<open>token_table\<close> shared by the real and gate token tables and interpreted
    on both, cascades, round trips, statistics as sums over the logs after
    the wall-clock second of a bound in any zone.
  \<^item> Token_Properties, Failure_Properties: fairness of the round robin, sticky affinity,
    isolation, automatic deactivation, the pool as a view of the database.
  \<^item> Tap_Properties, Sse_Properties: the tap does not depend on how the stream is cut, forwards it
    unchanged and recovers the counts of a standard stream; what a text that mentions an event name
    does to the counts.
  \<^item> Usage_Properties: the usage pipeline as a transition system of proxies, writer, cancellation
    and database, with conservation of entries, exact totals, the end of the retries, and the three
    ways entries are lost.
  \<^item> Proxy_Properties: who gets through, what reaches the upstream, what the client and the usage
    channel get, which failures count.
  \<^item> Admin_Properties, Admin_Secrecy: the outcome of every change, redirects that are read back, and
    the secrecy of the stored credentials as an equivalence of databases, up to the question whether a
    submitted access token is stored already.
  \<^item> Server_Invariants: the interface \<open>server_invariant\<close> of an invariant that every step keeps, with
    the induction over runs proved once; the invariant may depend on the events so far and on a
    condition on them.  It is interpreted for the integrity of the whole program here and, for runs in
    which no refresh starts while another is on its way, for the agreement of pool and database in
    Server_Pool, which also shows how a refresh can be put off.
  \<^item> Server_Access, Server_Tokens: who may use the admin API and the pages (what the multiplexer
    gives to the proxy is Proxy_Properties' matter), where live sessions come from, and that a
    created or revoked gate token counts from the next request on.
  \<^item> Page_Properties, Page_Actions: the values of every page are data to a browser and show no
    credential, what the dashboard counts, which pages are written to the end, and that the forms
    and buttons of a row reach the right handler, together with what a plain form submission gets
    back.
  \<^item> Usage_Provenance, End_To_End: the interface \<open>usage_history\<close> of a property of usage entries that
    holds from the report of a request to the database, interpreted for the origin of the logs; and
    the way of one answer from the upstream to the totals.
  \<^item> Pool_Refresh: one refresh at a time leaves the pool up to date, overlapping ones need not.
  \<^item> Shutdown_Properties: the order of the end, that it is reached, that every process run is a run
    of the server, and that no usage is stored after the signal.

  \<^bold>\<open>Bounds and fuel.\<close>  The JSON parser is fuelled by twice the length of its input plus two, which
  \<open>json_fuel_enough\<close> shows is always enough; a parse result tells running out of fuel from a syntax
  error.  Every other function is total.  Instants are nanoseconds in the four-digit years (\<open>era\<close>),
  in which the order of DATETIME texts is that of the instants.  Counters that the code keeps as
  \<open>int64\<close> wrap by \<open>i64\<close>; the pool counter is a 64-bit word.

  \<^bold>\<open>Concurrency.\<close> Store operations are atomic (single writer connection, one statement or one
  transaction each). In \<open>server_run\<close> requests, cleanups, writer turns and the firing, the read and
  the installation of each refresh interleave in any order, each as one step, so a request is not
  interleaved with the operations of another; the usage pipeline of Usage_Properties is finer and
  interleaves the parts of a request with the writer, and Pool_Refresh shows what refreshes that
  overlap can do. A change of the tokens and its call of \<open>RefreshPool\<close> are one step. In
  \<open>process_run\<close> the steps of \<open>main\<close> and of the cleanup loop interleave with those of the server.

  \<^bold>\<open>Not modelled.\<close> The content of the static files; log output; protocol upgrades (status 101); how
  the HTTP server accepts, reads and times out connections, of which Lifecycle keeps the number
  still open; the TLS and transport of the upstream; the limits of the Go library on the number of
  query parameters and cookies, and the error of \<open>mime.ParseMediaType\<close> for a repeated parameter; the
  size of the reads in which the library hands a JSON body on to the client (the bytes are modelled,
  as one read); the limit of SQLite's integers for the failure count of a token, which grows by one
  at a time; \<open>Close\<close> of the store and of the tapping reader, which only pass on to the library; the
  temporary store of testutil.
\<close>

end
